theory Spec2Isabelle
  imports Main "HOL-Library.Word" "HOL-Library.List_Lexorder"
begin

unbundle bit_operations_syntax

section \<open>Protocol constants and wire structures (vpn_protocol.h)\<close>

text \<open>
  Member names of the C++ classes end in an underscore (\<open>localIP_\<close>); the record fields
  below drop it (\<open>localIP\<close>). Fields that several structures share are written with the
  structure's name in front (\<open>RouteEntry.ipAddress\<close>).

  A \<open>NodeID\<close> is a \<open>std::array<uint8_t, 32>\<close>: a list of bytes of length
  \<open>NODE_ID_SIZE\<close>. A \<open>CSteamID\<close> is identified with its 64-bit value. A
  \<open>std::chrono::steady_clock::time_point\<close> is the integer count of clock ticks since the
  clock's epoch, and a function that reads the clock takes each reading as an argument. An
  \<open>int64_t\<close> that arrives over the network is a 64-bit word read as two's complement.
\<close>

type_synonym uint8_t = "8 word"
type_synonym uint16_t = "16 word"
type_synonym uint32_t = "32 word"
type_synonym uint64_t = "64 word"
type_synonym int64_t = "64 word"
type_synonym CSteamID = "64 word"
type_synonym NodeID = "8 word list"
type_synonym time_point = int

definition VPN_MESSAGE_OVERHEAD :: nat where
  "VPN_MESSAGE_OVERHEAD = 35"

definition PROBE_TIMEOUT_MS :: int where
  "PROBE_TIMEOUT_MS = 500"

definition HEARTBEAT_INTERVAL_MS :: int where
  "HEARTBEAT_INTERVAL_MS = 60000"

definition LEASE_EXPIRY_MS :: int where
  "LEASE_EXPIRY_MS = 360000"

definition HEARTBEAT_EXPIRY_MS :: int where
  "HEARTBEAT_EXPIRY_MS = 180000"

definition NODE_ID_SIZE :: nat where
  "NODE_ID_SIZE = 32"

text \<open>
  The tick of \<open>steady_clock\<close> is the nanosecond (\<open>steady_clock::period\<close> is
  \<open>std::nano\<close> in libstdc++, libc++ and the Microsoft library), and
  \<open>duration_cast<milliseconds>(d).count()\<close> divides the tick count \<open>d\<close> by the ticks
  of a millisecond, rounding toward zero.
\<close>

definition ticks_per_ms :: int where
  "ticks_per_ms = 1000000"

definition duration_cast_ms :: "int \<Rightarrow> int" where
  "duration_cast_ms d = (if 0 \<le> d then d div ticks_per_ms else - ((- d) div ticks_per_ms))"

datatype VpnMessageType =
    IP_PACKET
  | ROUTE_UPDATE
  | PROBE_REQUEST
  | PROBE_RESPONSE
  | ADDRESS_ANNOUNCE
  | FORCED_RELEASE
  | HEARTBEAT
  | HEARTBEAT_ACK

text \<open>The enumerators' values, as the one byte that goes on the wire.\<close>

fun VpnMessageType_code :: "VpnMessageType \<Rightarrow> uint8_t" where
  "VpnMessageType_code IP_PACKET = 1"
| "VpnMessageType_code ROUTE_UPDATE = 3"
| "VpnMessageType_code PROBE_REQUEST = 10"
| "VpnMessageType_code PROBE_RESPONSE = 11"
| "VpnMessageType_code ADDRESS_ANNOUNCE = 12"
| "VpnMessageType_code FORCED_RELEASE = 13"
| "VpnMessageType_code HEARTBEAT = 14"
| "VpnMessageType_code HEARTBEAT_ACK = 15"

record ProbeRequestPayload =
  ipAddress :: uint32_t
  nodeId :: NodeID

record ProbeResponsePayload =
  ipAddress :: uint32_t
  nodeId :: NodeID
  lastHeartbeatMs :: int64_t

record AddressAnnouncePayload =
  ipAddress :: uint32_t
  nodeId :: NodeID

record ForcedReleasePayload =
  ipAddress :: uint32_t
  winnerNodeId :: NodeID

record HeartbeatPayload =
  ipAddress :: uint32_t
  nodeId :: NodeID
  timestampMs :: int64_t

record NodeInfo =
  nodeId :: NodeID
  steamId :: CSteamID
  ipAddress :: uint32_t
  lastHeartbeat :: time_point
  name :: string
  isLocal :: bool

record RouteEntry =
  steamID :: CSteamID
  ipAddress :: uint32_t
  name :: string
  isLocal :: bool
  nodeId :: NodeID

text \<open>
  \<open>NodeInfo::isActive\<close> and \<open>NodeInfo::isLeaseExpired\<close> read the clock; \<open>now\<close> is
  that reading.
\<close>

definition isActive :: "time_point \<Rightarrow> NodeInfo \<Rightarrow> bool" where
  "isActive now n =
     (let elapsed = duration_cast_ms (now - lastHeartbeat n) in elapsed < HEARTBEAT_EXPIRY_MS)"

definition isLeaseExpired :: "time_point \<Rightarrow> NodeInfo \<Rightarrow> bool" where
  "isLeaseExpired now n =
     (let elapsed = duration_cast_ms (now - lastHeartbeat n) in elapsed \<ge> LEASE_EXPIRY_MS)"

subsection \<open>Byte order and the memory image of the packed structures\<close>

text \<open>
  The host is little-endian (x86): \<open>htonl\<close> and \<open>ntohl\<close> reverse the four bytes of a
  word, \<open>htons\<close> and \<open>ntohs\<close> the two bytes; \<open>memcpy\<close> of an integer writes or reads
  its bytes least significant first. The structures are packed (\<open>#pragma pack(1)\<close>), so
  the image of a structure is the concatenation of the images of its members.
\<close>

definition htonl :: "uint32_t \<Rightarrow> uint32_t" where
  "htonl x = push_bit 24 (x AND 0xFF) OR push_bit 8 (x AND 0xFF00)
             OR (drop_bit 8 x AND 0xFF00) OR drop_bit 24 x"

definition ntohl :: "uint32_t \<Rightarrow> uint32_t" where
  "ntohl x = htonl x"

definition htons :: "uint16_t \<Rightarrow> uint16_t" where
  "htons x = push_bit 8 (x AND 0xFF) OR drop_bit 8 x"

definition ntohs :: "uint16_t \<Rightarrow> uint16_t" where
  "ntohs x = htons x"

definition bytes_of_uint16 :: "uint16_t \<Rightarrow> uint8_t list" where
  "bytes_of_uint16 w = [ucast w, ucast (drop_bit 8 w)]"

definition bytes_of_uint32 :: "uint32_t \<Rightarrow> uint8_t list" where
  "bytes_of_uint32 w = [ucast w, ucast (drop_bit 8 w), ucast (drop_bit 16 w), ucast (drop_bit 24 w)]"

definition bytes_of_uint64 :: "uint64_t \<Rightarrow> uint8_t list" where
  "bytes_of_uint64 w =
     [ucast w, ucast (drop_bit 8 w), ucast (drop_bit 16 w), ucast (drop_bit 24 w),
      ucast (drop_bit 32 w), ucast (drop_bit 40 w), ucast (drop_bit 48 w), ucast (drop_bit 56 w)]"

definition uint16_of_bytes :: "uint8_t list \<Rightarrow> uint16_t" where
  "uint16_of_bytes bs = ucast (bs ! 0) OR push_bit 8 (ucast (bs ! 1))"

definition uint32_of_bytes :: "uint8_t list \<Rightarrow> uint32_t" where
  "uint32_of_bytes bs =
     ucast (bs ! 0) OR push_bit 8 (ucast (bs ! 1)) OR push_bit 16 (ucast (bs ! 2))
     OR push_bit 24 (ucast (bs ! 3))"

definition uint64_of_bytes :: "uint8_t list \<Rightarrow> uint64_t" where
  "uint64_of_bytes bs =
     ucast (bs ! 0) OR push_bit 8 (ucast (bs ! 1)) OR push_bit 16 (ucast (bs ! 2))
     OR push_bit 24 (ucast (bs ! 3)) OR push_bit 32 (ucast (bs ! 4))
     OR push_bit 40 (ucast (bs ! 5)) OR push_bit 48 (ucast (bs ! 6))
     OR push_bit 56 (ucast (bs ! 7))"

definition bytes_of_ProbeRequestPayload :: "ProbeRequestPayload \<Rightarrow> uint8_t list" where
  "bytes_of_ProbeRequestPayload p =
     bytes_of_uint32 (ProbeRequestPayload.ipAddress p) @ ProbeRequestPayload.nodeId p"

definition bytes_of_ProbeResponsePayload :: "ProbeResponsePayload \<Rightarrow> uint8_t list" where
  "bytes_of_ProbeResponsePayload p =
     bytes_of_uint32 (ProbeResponsePayload.ipAddress p) @ ProbeResponsePayload.nodeId p
     @ bytes_of_uint64 (lastHeartbeatMs p)"

definition bytes_of_AddressAnnouncePayload :: "AddressAnnouncePayload \<Rightarrow> uint8_t list" where
  "bytes_of_AddressAnnouncePayload p =
     bytes_of_uint32 (AddressAnnouncePayload.ipAddress p) @ AddressAnnouncePayload.nodeId p"

definition bytes_of_ForcedReleasePayload :: "ForcedReleasePayload \<Rightarrow> uint8_t list" where
  "bytes_of_ForcedReleasePayload p =
     bytes_of_uint32 (ForcedReleasePayload.ipAddress p) @ winnerNodeId p"

definition bytes_of_HeartbeatPayload :: "HeartbeatPayload \<Rightarrow> uint8_t list" where
  "bytes_of_HeartbeatPayload p =
     bytes_of_uint32 (HeartbeatPayload.ipAddress p) @ HeartbeatPayload.nodeId p
     @ bytes_of_uint64 (timestampMs p)"

text \<open>\<open>sizeof\<close> of the packed structures.\<close>

definition sizeof_VpnMessageHeader :: nat where
  "sizeof_VpnMessageHeader = 3"

definition sizeof_VpnPacketWrapper :: nat where
  "sizeof_VpnPacketWrapper = NODE_ID_SIZE"

definition sizeof_ProbeRequestPayload :: nat where
  "sizeof_ProbeRequestPayload = 4 + NODE_ID_SIZE"

definition sizeof_ProbeResponsePayload :: nat where
  "sizeof_ProbeResponsePayload = 4 + NODE_ID_SIZE + 8"

definition sizeof_AddressAnnouncePayload :: nat where
  "sizeof_AddressAnnouncePayload = 4 + NODE_ID_SIZE"

definition sizeof_ForcedReleasePayload :: nat where
  "sizeof_ForcedReleasePayload = 4 + NODE_ID_SIZE"

definition sizeof_HeartbeatPayload :: nat where
  "sizeof_HeartbeatPayload = 4 + NODE_ID_SIZE + 8"

text \<open>\<open>memcpy(&s, payload, sizeof(s))\<close> into a packed structure.\<close>

definition ProbeRequestPayload_of_bytes :: "uint8_t list \<Rightarrow> ProbeRequestPayload" where
  "ProbeRequestPayload_of_bytes bs =
     \<lparr>ProbeRequestPayload.ipAddress = uint32_of_bytes (take 4 bs),
      ProbeRequestPayload.nodeId = take NODE_ID_SIZE (drop 4 bs)\<rparr>"

definition ProbeResponsePayload_of_bytes :: "uint8_t list \<Rightarrow> ProbeResponsePayload" where
  "ProbeResponsePayload_of_bytes bs =
     \<lparr>ProbeResponsePayload.ipAddress = uint32_of_bytes (take 4 bs),
      ProbeResponsePayload.nodeId = take NODE_ID_SIZE (drop 4 bs),
      lastHeartbeatMs = uint64_of_bytes (take 8 (drop (4 + NODE_ID_SIZE) bs))\<rparr>"

definition AddressAnnouncePayload_of_bytes :: "uint8_t list \<Rightarrow> AddressAnnouncePayload" where
  "AddressAnnouncePayload_of_bytes bs =
     \<lparr>AddressAnnouncePayload.ipAddress = uint32_of_bytes (take 4 bs),
      AddressAnnouncePayload.nodeId = take NODE_ID_SIZE (drop 4 bs)\<rparr>"

definition ForcedReleasePayload_of_bytes :: "uint8_t list \<Rightarrow> ForcedReleasePayload" where
  "ForcedReleasePayload_of_bytes bs =
     \<lparr>ForcedReleasePayload.ipAddress = uint32_of_bytes (take 4 bs),
      winnerNodeId = take NODE_ID_SIZE (drop 4 bs)\<rparr>"

definition HeartbeatPayload_of_bytes :: "uint8_t list \<Rightarrow> HeartbeatPayload" where
  "HeartbeatPayload_of_bytes bs =
     \<lparr>HeartbeatPayload.ipAddress = uint32_of_bytes (take 4 bs),
      HeartbeatPayload.nodeId = take NODE_ID_SIZE (drop 4 bs),
      timestampMs = uint64_of_bytes (take 8 (drop (4 + NODE_ID_SIZE) bs))\<rparr>"

section \<open>Node identity (node_identity.cpp)\<close>

text \<open>
  \<open>NodeIdentity::compare\<close> walks both arrays from index 0 and stops at the first
  differing byte.
\<close>

fun compare :: "NodeID \<Rightarrow> NodeID \<Rightarrow> int" where
  "compare (a # as) (b # bs) =
     (if a < b then - 1 else if a > b then 1 else compare as bs)"
| "compare _ _ = 0"

definition hasPriority :: "NodeID \<Rightarrow> NodeID \<Rightarrow> bool" where
  "hasPriority a b = (compare a b > 0)"

section \<open>IP negotiator (ip_negotiator.cpp)\<close>

datatype NegotiationState = IDLE | PROBING | STABLE

record ConflictInfo =
  nodeId :: NodeID
  lastHeartbeatMs :: int64_t
  senderSteamID :: CSteamID

text \<open>
  The three \<open>std::function\<close> members are either empty or installed; the record holds
  whether they are installed, and a call of an installed callback is an entry of the list
  of calls that each operation returns, in the order in which the calls are made.
\<close>

datatype callback =
    Send VpnMessageType "uint8_t list" CSteamID bool
  | Broadcast VpnMessageType "uint8_t list" bool
  | Success uint32_t NodeID

record IpNegotiator =
  localNodeId :: NodeID
  localSteamID :: CSteamID
  localIP :: uint32_t
  baseIP :: uint32_t
  subnetMask :: uint32_t
  state :: NegotiationState
  candidateIP :: uint32_t
  probeOffset :: uint32_t
  probeStartTime :: time_point
  collectedConflicts :: "ConflictInfo list"
  usedIPs :: "uint32_t set"
  sendCallback :: bool
  broadcastCallback :: bool
  successCallback :: bool

text \<open>
  The two locals \<open>hostMask\<close> and \<open>maxHosts\<close>, computed in the same way by
  \<open>generateCandidateIP\<close> and \<open>findNextAvailableIP\<close>.
\<close>

definition hostMask :: "IpNegotiator \<Rightarrow> uint32_t" where
  "hostMask s = NOT (IpNegotiator.subnetMask s)"

definition maxHosts :: "IpNegotiator \<Rightarrow> uint32_t" where
  "maxHosts s = (let maxHosts = hostMask s - 1 in if maxHosts = 0 then 1 else maxHosts)"

text \<open>The initial value of the local \<open>hash\<close>: the last three bytes of the node ID.\<close>

definition lo24 :: "NodeID \<Rightarrow> uint32_t" where
  "lo24 n = ucast (n ! (NODE_ID_SIZE - 1))
            OR push_bit 8 (ucast (n ! (NODE_ID_SIZE - 2)))
            OR push_bit 16 (ucast (n ! (NODE_ID_SIZE - 3)))"

definition generateCandidateIP :: "IpNegotiator \<Rightarrow> uint32_t \<Rightarrow> uint32_t" where
  "generateCandidateIP s offset =
     (let hash = lo24 (IpNegotiator.localNodeId s);
          hash = (hash + offset) AND 0x00FFFFFF;
          hostPart = (hash mod maxHosts s) + 1;
          ip = (IpNegotiator.baseIP s AND IpNegotiator.subnetMask s) OR hostPart
      in ip)"

text \<open>
  The \<open>while\<close> loop of \<open>findNextAvailableIP\<close>, on the locals \<open>hostPart\<close>,
  \<open>potentialIP\<close> and \<open>attempts\<close>; it returns the address together with the final
  value of \<open>attempts\<close>.
\<close>

function findNextAvailableIP_loop ::
  "IpNegotiator \<Rightarrow> uint32_t \<Rightarrow> uint32_t \<Rightarrow> uint32_t \<Rightarrow> uint32_t \<times> uint32_t" where
  "findNextAvailableIP_loop s hostPart potentialIP attempts =
     (if potentialIP \<in> usedIPs s \<and> attempts < maxHosts s
      then findNextAvailableIP_loop s
             (if hostPart + 1 \<ge> hostMask s then 1 else hostPart + 1)
             ((IpNegotiator.baseIP s AND IpNegotiator.subnetMask s)
                OR (if hostPart + 1 \<ge> hostMask s then 1 else hostPart + 1))
             (attempts + 1)
      else (potentialIP, attempts))"
  by pat_completeness auto
termination
proof (relation "measure (\<lambda>(s, hostPart, potentialIP, attempts). unat (maxHosts s) - unat attempts)")
  show "wf (measure (\<lambda>(s, hostPart, potentialIP, attempts). unat (maxHosts s) - unat attempts))"
    by simp
next
  fix s :: IpNegotiator and hostPart potentialIP attempts :: uint32_t
  assume "potentialIP \<in> usedIPs s \<and> attempts < maxHosts s"
  then have lt: "unat attempts < unat (maxHosts s)"
    by (simp add: word_less_nat_alt)
  then have "unat attempts + 1 < 2 ^ 32"
    using unsigned_less [of "maxHosts s", where 'a = nat] by simp
  then have "unat (attempts + 1) = unat attempts + 1"
    by (simp add: unat_word_ariths)
  with lt show "((s, if hostMask s \<le> hostPart + 1 then 1 else hostPart + 1,
           (IpNegotiator.baseIP s AND IpNegotiator.subnetMask s)
             OR (if hostMask s \<le> hostPart + 1 then 1 else hostPart + 1),
           attempts + 1),
          s, hostPart, potentialIP, attempts)
         \<in> measure (\<lambda>(s, hostPart, potentialIP, attempts). unat (maxHosts s) - unat attempts)"
    by simp
qed

declare findNextAvailableIP_loop.simps [simp del]

definition findNextAvailableIP_scan :: "IpNegotiator \<Rightarrow> uint32_t \<Rightarrow> uint32_t \<times> uint32_t" where
  "findNextAvailableIP_scan s startIP =
     (let hostPart = startIP AND hostMask s;
          hostPart = (if hostPart = 0 \<or> hostPart \<ge> hostMask s then 1 else hostPart);
          potentialIP = (IpNegotiator.baseIP s AND IpNegotiator.subnetMask s) OR hostPart
      in findNextAvailableIP_loop s hostPart potentialIP 0)"

definition findNextAvailableIP :: "IpNegotiator \<Rightarrow> uint32_t \<Rightarrow> uint32_t" where
  "findNextAvailableIP s startIP = fst (findNextAvailableIP_scan s startIP)"

definition sendProbeRequest :: "IpNegotiator \<Rightarrow> callback list" where
  "sendProbeRequest s =
     (if \<not> IpNegotiator.broadcastCallback s then []
      else [Broadcast PROBE_REQUEST
              (bytes_of_ProbeRequestPayload
                 \<lparr>ProbeRequestPayload.ipAddress = htonl (candidateIP s),
                  ProbeRequestPayload.nodeId = IpNegotiator.localNodeId s\<rparr>)
              True])"

definition sendAddressAnnounce :: "IpNegotiator \<Rightarrow> callback list" where
  "sendAddressAnnounce s =
     (if \<not> IpNegotiator.broadcastCallback s then []
      else [Broadcast ADDRESS_ANNOUNCE
              (bytes_of_AddressAnnouncePayload
                 \<lparr>AddressAnnouncePayload.ipAddress = htonl (IpNegotiator.localIP s),
                  AddressAnnouncePayload.nodeId = IpNegotiator.localNodeId s\<rparr>)
              True])"

definition sendAddressAnnounceTo :: "IpNegotiator \<Rightarrow> CSteamID \<Rightarrow> callback list" where
  "sendAddressAnnounceTo s targetSteamID =
     (if \<not> IpNegotiator.sendCallback s \<or> state s \<noteq> STABLE \<or> IpNegotiator.localIP s = 0 then []
      else [Send ADDRESS_ANNOUNCE
              (bytes_of_AddressAnnouncePayload
                 \<lparr>AddressAnnouncePayload.ipAddress = htonl (IpNegotiator.localIP s),
                  AddressAnnouncePayload.nodeId = IpNegotiator.localNodeId s\<rparr>)
              targetSteamID True])"

definition sendForcedRelease :: "IpNegotiator \<Rightarrow> uint32_t \<Rightarrow> CSteamID \<Rightarrow> callback list" where
  "sendForcedRelease s ip targetSteamID =
     (if \<not> IpNegotiator.sendCallback s then []
      else [Send FORCED_RELEASE
              (bytes_of_ForcedReleasePayload
                 \<lparr>ForcedReleasePayload.ipAddress = htonl ip,
                  winnerNodeId = IpNegotiator.localNodeId s\<rparr>)
              targetSteamID True])"

definition markIPUsed :: "uint32_t \<Rightarrow> IpNegotiator \<Rightarrow> IpNegotiator" where
  "markIPUsed ip s = s\<lparr>usedIPs := insert ip (usedIPs s)\<rparr>"

definition markIPUnused :: "uint32_t \<Rightarrow> IpNegotiator \<Rightarrow> IpNegotiator" where
  "markIPUnused ip s = s\<lparr>usedIPs := usedIPs s - {ip}\<rparr>"

text \<open>
  \<open>startNegotiation\<close> reads the clock once, after the probe request has gone out.
\<close>

definition startNegotiation :: "time_point \<Rightarrow> IpNegotiator \<Rightarrow> IpNegotiator \<times> callback list" where
  "startNegotiation now s =
     (let s = s\<lparr>collectedConflicts := []\<rparr>;
          s = s\<lparr>candidateIP := generateCandidateIP s (probeOffset s)\<rparr>;
          s = s\<lparr>candidateIP := findNextAvailableIP s (candidateIP s)\<rparr>;
          s = s\<lparr>state := PROBING\<rparr>;
          calls = sendProbeRequest s
      in (s\<lparr>probeStartTime := now\<rparr>, calls))"

text \<open>
  The \<open>for\<close> loop of \<open>checkTimeout\<close> over the collected conflicts, on the locals
  \<open>canClaim\<close> (the first component of the result) and \<open>nodesToForceRelease\<close>;
  \<open>now\<close> is the local of that name. The subtraction
  \<open>currentMs - conflict.lastHeartbeatMs\<close> is on \<open>int64_t\<close>.
\<close>

fun checkTimeout_loop ::
  "IpNegotiator \<Rightarrow> time_point \<Rightarrow> ConflictInfo list \<Rightarrow> CSteamID list \<Rightarrow> bool \<times> CSteamID list" where
  "checkTimeout_loop s now [] nodesToForceRelease = (True, nodesToForceRelease)"
| "checkTimeout_loop s now (conflict # conflicts) nodesToForceRelease =
     (let currentMs = duration_cast_ms now;
          heartbeatAge = sint ((word_of_int currentMs :: int64_t) - ConflictInfo.lastHeartbeatMs conflict)
      in if heartbeatAge \<ge> HEARTBEAT_EXPIRY_MS
         then checkTimeout_loop s now conflicts nodesToForceRelease
         else if hasPriority (IpNegotiator.localNodeId s) (ConflictInfo.nodeId conflict)
         then checkTimeout_loop s now conflicts (nodesToForceRelease @ [senderSteamID conflict])
         else (False, nodesToForceRelease))"

text \<open>
  \<open>checkTimeout\<close> reads the clock at its start (\<open>now\<close>); when it restarts the
  negotiation, \<open>startNegotiation\<close> reads it again (\<open>now'\<close>).
\<close>

definition checkTimeout :: "time_point \<Rightarrow> time_point \<Rightarrow> IpNegotiator \<Rightarrow> IpNegotiator \<times> callback list" where
  "checkTimeout now now' s =
     (if state s \<noteq> PROBING then (s, [])
      else let elapsed = duration_cast_ms (now - probeStartTime s) in
        if elapsed < PROBE_TIMEOUT_MS then (s, [])
        else
          let conflicts = collectedConflicts s;
              s = s\<lparr>collectedConflicts := []\<rparr>;
              (canClaim, nodesToForceRelease) = checkTimeout_loop s now conflicts []
          in if canClaim
             then
               let released = concat (map (sendForcedRelease s (candidateIP s)) nodesToForceRelease);
                   s = s\<lparr>state := STABLE\<rparr>;
                   s = s\<lparr>IpNegotiator.localIP := candidateIP s\<rparr>;
                   announced = sendAddressAnnounce s;
                   succeeded = (if IpNegotiator.successCallback s
                                then [Success (IpNegotiator.localIP s) (IpNegotiator.localNodeId s)] else [])
               in (s, released @ announced @ succeeded)
             else startNegotiation now' (s\<lparr>probeOffset := probeOffset s + 1\<rparr>))"

definition handleProbeRequest ::
  "time_point \<Rightarrow> ProbeRequestPayload \<Rightarrow> CSteamID \<Rightarrow> IpNegotiator \<Rightarrow> IpNegotiator \<times> callback list" where
  "handleProbeRequest now request sender s =
     (let requestedIP = ntohl (ProbeRequestPayload.ipAddress request);
          respond =
            (if IpNegotiator.sendCallback s
             then [Send PROBE_RESPONSE
                     (bytes_of_ProbeResponsePayload
                        \<lparr>ProbeResponsePayload.ipAddress = htonl requestedIP,
                         ProbeResponsePayload.nodeId = IpNegotiator.localNodeId s,
                         lastHeartbeatMs = word_of_int (duration_cast_ms now)\<rparr>)
                     sender True]
             else [])
      in if state s = STABLE \<and> requestedIP = IpNegotiator.localIP s then (s, respond)
         else if state s = PROBING \<and> requestedIP = candidateIP s
         then (if hasPriority (IpNegotiator.localNodeId s) (ProbeRequestPayload.nodeId request)
               then (s, respond)
               else startNegotiation now (s\<lparr>probeOffset := probeOffset s + 1\<rparr>))
         else (s, []))"

definition handleProbeResponse ::
  "ProbeResponsePayload \<Rightarrow> CSteamID \<Rightarrow> IpNegotiator \<Rightarrow> IpNegotiator" where
  "handleProbeResponse response sender s =
     (if state s \<noteq> PROBING then s
      else let conflictIP = ntohl (ProbeResponsePayload.ipAddress response) in
        if conflictIP \<noteq> candidateIP s then s
        else
          let info = \<lparr>ConflictInfo.nodeId = ProbeResponsePayload.nodeId response,
                      ConflictInfo.lastHeartbeatMs = ProbeResponsePayload.lastHeartbeatMs response,
                      senderSteamID = sender\<rparr>
          in s\<lparr>collectedConflicts := collectedConflicts s @ [info]\<rparr>)"

definition handleAddressAnnounce ::
  "time_point \<Rightarrow> AddressAnnouncePayload \<Rightarrow> CSteamID \<Rightarrow> IpNegotiator \<Rightarrow> IpNegotiator \<times> callback list" where
  "handleAddressAnnounce now announce peerSteamID s =
     (let announcedIP = ntohl (AddressAnnouncePayload.ipAddress announce)
      in if announcedIP = IpNegotiator.localIP s \<and> state s = STABLE
         then (if \<not> hasPriority (IpNegotiator.localNodeId s) (AddressAnnouncePayload.nodeId announce)
               then startNegotiation now (s\<lparr>probeOffset := probeOffset s + 1\<rparr>)
               else (s, sendForcedRelease s announcedIP peerSteamID))
         else (markIPUsed announcedIP s, []))"

definition handleForcedRelease ::
  "time_point \<Rightarrow> ForcedReleasePayload \<Rightarrow> CSteamID \<Rightarrow> IpNegotiator \<Rightarrow> IpNegotiator \<times> callback list" where
  "handleForcedRelease now release sender s =
     (let releasedIP = ntohl (ForcedReleasePayload.ipAddress release);
          shouldRelease =
            (if releasedIP = IpNegotiator.localIP s \<and> state s = STABLE
             then \<not> hasPriority (IpNegotiator.localNodeId s) (winnerNodeId release)
             else if releasedIP = candidateIP s \<and> state s = PROBING
             then \<not> hasPriority (IpNegotiator.localNodeId s) (winnerNodeId release)
             else False)
      in if shouldRelease
         then startNegotiation now (s\<lparr>probeOffset := probeOffset s + 1, state := IDLE\<rparr>)
         else (s, []))"

text \<open>
  \<open>NodeIdentity::generate\<close> hashes the eight bytes of the Steam ID followed by the salt.
  SHA-256 comes from the platform's library: it is the field \<open>sha256\<close> of the record
  \<open>Platform\<close> below, which returns \<open>None\<close> when the library call fails.
\<close>

definition APP_SECRET_SALT :: string where
  "APP_SECRET_SALT = ''ConnectTool_VPN_Salt_v1''"

text \<open>
  What the code obtains from outside the repository: the Steam API
  (\<open>SteamUser()->GetSteamID()\<close>, \<open>SteamFriends()->GetFriendPersonaName(id)\<close>,
  \<open>SteamFriends()->GetPersonaName()\<close>), the SHA-256 of the platform, and the results of
  configuring the TUN device (\<open>set_ip\<close>, \<open>set_up\<close>).
\<close>

record Platform =
  GetSteamID :: CSteamID
  GetFriendPersonaName :: "CSteamID \<Rightarrow> string"
  GetPersonaName :: string
  sha256 :: "uint8_t list \<Rightarrow> uint8_t list option"
  set_ip :: "uint32_t \<Rightarrow> uint32_t \<Rightarrow> bool"
  set_up :: bool

definition generate :: "Platform \<Rightarrow> CSteamID \<Rightarrow> NodeID" where
  "generate api sid =
     (let input = bytes_of_uint64 sid @ map of_char APP_SECRET_SALT
      in case sha256 api input of
           Some hash \<Rightarrow> hash
         | None \<Rightarrow> replicate NODE_ID_SIZE 0)"

section \<open>Heartbeat and lease manager (heartbeat_manager.cpp)\<close>

text \<open>
  \<open>checkExpiredLeases\<close> walks \<open>std::map<NodeID, NodeInfo> nodeTable_\<close> in the order of
  its keys, so the node table is an association list kept in ascending key order (arrays
  compare lexicographically). \<open>map_assign k v\<close> is \<open>table[k] = v\<close> and \<open>map_erase k\<close> is
  \<open>table.erase(k)\<close>. The map \<open>ipToNodeId_\<close> is only looked up, assigned and erased, so it
  is a function from addresses to node IDs.
\<close>

fun map_assign :: "'k::linorder \<Rightarrow> 'v \<Rightarrow> ('k \<times> 'v) list \<Rightarrow> ('k \<times> 'v) list" where
  "map_assign k v [] = [(k, v)]"
| "map_assign k v ((a, b) # xs) =
     (if k < a then (k, v) # (a, b) # xs
      else if k = a then (k, v) # xs
      else (a, b) # map_assign k v xs)"

definition map_erase :: "'k \<Rightarrow> ('k \<times> 'v) list \<Rightarrow> ('k \<times> 'v) list" where
  "map_erase k xs = filter (\<lambda>(a, b). a \<noteq> k) xs"

datatype heartbeat_callback =
    HeartbeatSend VpnMessageType "uint8_t list" bool
  | NodeExpired NodeID uint32_t

record HeartbeatManager =
  localNodeId :: NodeID
  localIP :: uint32_t
  lastHeartbeatSent :: time_point
  nodeTable :: "(NodeID \<times> NodeInfo) list"
  ipToNodeId :: "uint32_t \<rightharpoonup> NodeID"
  running :: bool
  sendCallback :: bool
  expiredCallback :: bool

definition initialize :: "time_point \<Rightarrow> NodeID \<Rightarrow> uint32_t \<Rightarrow> HeartbeatManager \<Rightarrow> HeartbeatManager" where
  "initialize now nid ip h =
     h\<lparr>HeartbeatManager.localNodeId := nid, HeartbeatManager.localIP := ip,
       lastHeartbeatSent := now\<rparr>"

definition start :: "HeartbeatManager \<Rightarrow> HeartbeatManager" where
  "start h = (if HeartbeatManager.running h then h else h\<lparr>HeartbeatManager.running := True\<rparr>)"

definition stop :: "HeartbeatManager \<Rightarrow> HeartbeatManager" where
  "stop h = (if \<not> HeartbeatManager.running h then h else h\<lparr>HeartbeatManager.running := False\<rparr>)"

definition updateLocalIP :: "uint32_t \<Rightarrow> HeartbeatManager \<Rightarrow> HeartbeatManager" where
  "updateLocalIP ip h = h\<lparr>HeartbeatManager.localIP := ip\<rparr>"

definition sendHeartbeat :: "time_point \<Rightarrow> HeartbeatManager \<Rightarrow> heartbeat_callback list" where
  "sendHeartbeat now h =
     (if \<not> HeartbeatManager.sendCallback h \<or> HeartbeatManager.localIP h = 0 then []
      else [HeartbeatSend HEARTBEAT
              (bytes_of_HeartbeatPayload
                 \<lparr>HeartbeatPayload.ipAddress = htonl (HeartbeatManager.localIP h),
                  HeartbeatPayload.nodeId = HeartbeatManager.localNodeId h,
                  timestampMs = word_of_int (duration_cast_ms now)\<rparr>)
              True])"

text \<open>
  The loop of \<open>checkExpiredLeases\<close> over the node table: it returns the entries that stay,
  the map \<open>ipToNodeId_\<close> after the erasures and the vector \<open>expiredNodes\<close>. Every call
  of \<open>isLeaseExpired\<close> reads the clock itself: \<open>clock i\<close> is the reading for the entry
  at position \<open>i\<close> of the walk (counted from 0 in the table as it was before the scan);
  it is read only when that entry is not local.
\<close>

fun checkExpiredLeases_loop ::
  "(nat \<Rightarrow> time_point) \<Rightarrow> nat \<Rightarrow> (NodeID \<times> NodeInfo) list \<Rightarrow> (uint32_t \<rightharpoonup> NodeID)
   \<Rightarrow> (NodeID \<times> NodeInfo) list \<times> (uint32_t \<rightharpoonup> NodeID) \<times> (NodeID \<times> uint32_t) list" where
  "checkExpiredLeases_loop clock i [] byIP = ([], byIP, [])"
| "checkExpiredLeases_loop clock i ((k, n) # rest) byIP =
     (if \<not> NodeInfo.isLocal n \<and> isLeaseExpired (clock i) n
      then (case checkExpiredLeases_loop clock (Suc i) rest (byIP(NodeInfo.ipAddress n := None)) of
              (kept, byIP', expiredNodes) \<Rightarrow> (kept, byIP', (k, NodeInfo.ipAddress n) # expiredNodes))
      else (case checkExpiredLeases_loop clock (Suc i) rest byIP of
              (kept, byIP', expiredNodes) \<Rightarrow> ((k, n) # kept, byIP', expiredNodes)))"

definition checkExpiredLeases ::
  "(nat \<Rightarrow> time_point) \<Rightarrow> HeartbeatManager \<Rightarrow> HeartbeatManager \<times> heartbeat_callback list" where
  "checkExpiredLeases clock h =
     (case checkExpiredLeases_loop clock 0 (nodeTable h) (ipToNodeId h) of
        (kept, byIP, expiredNodes) \<Rightarrow>
          (h\<lparr>nodeTable := kept, ipToNodeId := byIP\<rparr>,
           if expiredCallback h then map (\<lambda>(k, ip). NodeExpired k ip) expiredNodes else []))"

text \<open>
  One round of \<open>heartbeatLoop\<close> after the sleep, while \<open>running_\<close> holds: \<open>now\<close> is
  the reading of the loop, \<open>now'\<close> the one \<open>sendHeartbeat\<close> takes for the time stamp, and
  \<open>clock\<close> gives the readings of the lease scan.
\<close>

definition heartbeatLoop_round ::
  "time_point \<Rightarrow> time_point \<Rightarrow> (nat \<Rightarrow> time_point) \<Rightarrow> HeartbeatManager
   \<Rightarrow> HeartbeatManager \<times> heartbeat_callback list" where
  "heartbeatLoop_round now now' clock h =
     (let elapsed = duration_cast_ms (now - lastHeartbeatSent h);
          due = (elapsed \<ge> HEARTBEAT_INTERVAL_MS \<and> HeartbeatManager.localIP h \<noteq> 0);
          sent = (if due then sendHeartbeat now' h else []);
          h = (if due then h\<lparr>lastHeartbeatSent := now\<rparr> else h)
      in case checkExpiredLeases clock h of (h, expired) \<Rightarrow> (h, sent @ expired))"

definition handleHeartbeat ::
  "time_point \<Rightarrow> HeartbeatPayload \<Rightarrow> CSteamID \<Rightarrow> string \<Rightarrow> HeartbeatManager \<Rightarrow> HeartbeatManager" where
  "handleHeartbeat now heartbeat peerSteamID peerName h =
     (let heartbeatIP = ntohl (HeartbeatPayload.ipAddress heartbeat)
      in case map_of (nodeTable h) (HeartbeatPayload.nodeId heartbeat) of
           Some found \<Rightarrow>
             h\<lparr>nodeTable :=
                 map (\<lambda>(k, n). if k = HeartbeatPayload.nodeId heartbeat
                                then (k, n\<lparr>lastHeartbeat := now\<rparr>) else (k, n))
                   (nodeTable h)\<rparr>
         | None \<Rightarrow>
             (let nodeInfo =
                    \<lparr>NodeInfo.nodeId = HeartbeatPayload.nodeId heartbeat,
                     steamId = peerSteamID,
                     NodeInfo.ipAddress = heartbeatIP,
                     lastHeartbeat = now,
                     NodeInfo.name = peerName,
                     NodeInfo.isLocal = False\<rparr>
              in h\<lparr>nodeTable := map_assign (HeartbeatPayload.nodeId heartbeat) nodeInfo (nodeTable h),
                   ipToNodeId := (ipToNodeId h)(heartbeatIP \<mapsto> HeartbeatPayload.nodeId heartbeat)\<rparr>))"

definition registerNode ::
  "time_point \<Rightarrow> NodeID \<Rightarrow> CSteamID \<Rightarrow> uint32_t \<Rightarrow> string \<Rightarrow> HeartbeatManager \<Rightarrow> HeartbeatManager" where
  "registerNode now nid sid ip persona h =
     (let nodeInfo =
            \<lparr>NodeInfo.nodeId = nid, steamId = sid, NodeInfo.ipAddress = ip, lastHeartbeat = now,
             NodeInfo.name = persona, NodeInfo.isLocal = (nid = HeartbeatManager.localNodeId h)\<rparr>
      in h\<lparr>nodeTable := map_assign nid nodeInfo (nodeTable h),
           ipToNodeId := (ipToNodeId h)(ip \<mapsto> nid)\<rparr>)"

definition unregisterNode :: "NodeID \<Rightarrow> HeartbeatManager \<Rightarrow> HeartbeatManager" where
  "unregisterNode nid h =
     (case map_of (nodeTable h) nid of
        Some found \<Rightarrow>
          h\<lparr>ipToNodeId := (ipToNodeId h)(NodeInfo.ipAddress found := None),
            nodeTable := map_erase nid (nodeTable h)\<rparr>
      | None \<Rightarrow> h)"

section \<open>Route manager (vpn_route_manager.cpp)\<close>

text \<open>
  \<open>std::map<uint32_t, RouteEntry> routingTable_\<close> is, like the node table, an association
  list in ascending order of the addresses; \<open>std_map\<close> says that the keys of such a list
  ascend strictly, which holds of every \<open>std::map\<close>.
\<close>

definition std_map :: "('k::linorder \<times> 'v) list \<Rightarrow> bool" where
  "std_map xs = sorted_wrt (<) (map fst xs)"

datatype route_callback =
    RouteSend VpnMessageType "uint8_t list" CSteamID bool
  | RouteBroadcast VpnMessageType "uint8_t list" bool
  | RouteAdded uint32_t

record VpnRouteManager =
  routingTable :: "(uint32_t \<times> RouteEntry) list"
  sendCallback :: bool
  broadcastCallback :: bool
  onRouteAddedCallback :: bool

definition updateRoute ::
  "Platform \<Rightarrow> NodeID \<Rightarrow> CSteamID \<Rightarrow> uint32_t \<Rightarrow> string \<Rightarrow> VpnRouteManager
   \<Rightarrow> VpnRouteManager \<times> route_callback list" where
  "updateRoute api nid sid ip persona rm =
     (let entry = \<lparr>steamID = sid, RouteEntry.ipAddress = ip, RouteEntry.name = persona,
                   RouteEntry.isLocal = (sid = GetSteamID api), RouteEntry.nodeId = nid\<rparr>;
          erased = filter (\<lambda>(k, e). \<not> (steamID e = sid \<and> k \<noteq> ip)) (routingTable rm);
          rm = rm\<lparr>routingTable := map_assign ip entry erased\<rparr>
      in (rm, if onRouteAddedCallback rm then [RouteAdded ip] else []))"

definition removeRoute :: "uint32_t \<Rightarrow> VpnRouteManager \<Rightarrow> VpnRouteManager" where
  "removeRoute ip rm = rm\<lparr>routingTable := map_erase ip (routingTable rm)\<rparr>"

text \<open>
  \<open>removeRoutesForUser\<close> returns, next to the manager, the arguments of the calls of
  \<open>onRemoved\<close>, in the order of the keys.
\<close>

definition removeRoutesForUser ::
  "CSteamID \<Rightarrow> VpnRouteManager \<Rightarrow> VpnRouteManager \<times> (uint32_t \<times> NodeID) list" where
  "removeRoutesForUser sid rm =
     (rm\<lparr>routingTable := filter (\<lambda>(k, e). steamID e \<noteq> sid) (routingTable rm)\<rparr>,
      map (\<lambda>(k, e). (k, RouteEntry.nodeId e))
        (filter (\<lambda>(k, e). steamID e = sid) (routingTable rm)))"

definition getRoute :: "VpnRouteManager \<Rightarrow> uint32_t \<Rightarrow> RouteEntry option" where
  "getRoute rm ip = map_of (routingTable rm) ip"

definition clear :: "VpnRouteManager \<Rightarrow> VpnRouteManager" where
  "clear rm = rm\<lparr>routingTable := []\<rparr>"

text \<open>The two \<open>memcpy\<close> of one record of a ROUTE_UPDATE payload, and the \<open>ntohl\<close>.\<close>

definition route_record :: "uint8_t list \<Rightarrow> nat \<Rightarrow> CSteamID \<times> uint32_t" where
  "route_record payload offset =
     (uint64_of_bytes (take 8 (drop offset payload)),
      ntohl (uint32_of_bytes (take 4 (drop (offset + 8) payload))))"

text \<open>
  The body of the loop of \<open>handleRouteUpdate\<close> for one record, after \<open>offset += 12\<close>.
\<close>

definition handleRouteUpdate_body ::
  "Platform \<Rightarrow> uint32_t \<Rightarrow> uint32_t \<Rightarrow> CSteamID \<Rightarrow> CSteamID \<times> uint32_t
   \<Rightarrow> VpnRouteManager \<times> route_callback list \<Rightarrow> VpnRouteManager \<times> route_callback list" where
  "handleRouteUpdate_body api myBaseIP mySubnetMask mySteamID r acc =
     (case (r, acc) of ((csteamID, ip), (rm, calls)) \<Rightarrow>
        if csteamID = mySteamID then (rm, calls)
        else if map_of (routingTable rm) ip \<noteq> None then (rm, calls)
        else if ip AND mySubnetMask = myBaseIP AND mySubnetMask
        then (case updateRoute api (generate api csteamID) csteamID ip
                     (GetFriendPersonaName api csteamID) rm of
                (rm', added) \<Rightarrow> (rm', calls @ added))
        else (rm, calls))"

function handleRouteUpdate_loop ::
  "Platform \<Rightarrow> uint8_t list \<Rightarrow> nat \<Rightarrow> uint32_t \<Rightarrow> uint32_t \<Rightarrow> CSteamID \<Rightarrow> nat
   \<Rightarrow> VpnRouteManager \<times> route_callback list \<Rightarrow> VpnRouteManager \<times> route_callback list" where
  "handleRouteUpdate_loop api payload len myBaseIP mySubnetMask mySteamID offset acc =
     (if offset + 12 \<le> len
      then handleRouteUpdate_loop api payload len myBaseIP mySubnetMask mySteamID (offset + 12)
             (handleRouteUpdate_body api myBaseIP mySubnetMask mySteamID
                (route_record payload offset) acc)
      else acc)"
  by pat_completeness auto
termination
  by (relation "measure (\<lambda>(api, payload, len, myBaseIP, mySubnetMask, mySteamID, offset, acc).
                           len - offset)") auto

declare handleRouteUpdate_loop.simps [simp del]

definition handleRouteUpdate ::
  "Platform \<Rightarrow> uint8_t list \<Rightarrow> nat \<Rightarrow> uint32_t \<Rightarrow> uint32_t \<Rightarrow> CSteamID \<Rightarrow> VpnRouteManager
   \<Rightarrow> VpnRouteManager \<times> route_callback list" where
  "handleRouteUpdate api payload len myBaseIP mySubnetMask mySteamID rm =
     handleRouteUpdate_loop api payload len myBaseIP mySubnetMask mySteamID 0 (rm, [])"

definition routeData :: "VpnRouteManager \<Rightarrow> uint8_t list" where
  "routeData rm =
     concat (map (\<lambda>(k, e). bytes_of_uint64 (steamID e)
                             @ bytes_of_uint32 (htonl (RouteEntry.ipAddress e)))
               (routingTable rm))"

definition broadcastRouteUpdate :: "VpnRouteManager \<Rightarrow> route_callback list" where
  "broadcastRouteUpdate rm =
     (if VpnRouteManager.broadcastCallback rm
      then [RouteBroadcast ROUTE_UPDATE (routeData rm) True] else [])"

definition sendRouteUpdateTo :: "VpnRouteManager \<Rightarrow> CSteamID \<Rightarrow> route_callback list" where
  "sendRouteUpdateTo rm targetSteamID =
     (if VpnRouteManager.sendCallback rm
      then [RouteSend ROUTE_UPDATE (routeData rm) targetSteamID True] else [])"


section \<open>Packet utilities (vpn_utils.cpp)\<close>

definition calculateTunMtu :: "int \<Rightarrow> int" where
  "calculateTunMtu steamMtuDataSize =
     (let tunMtu = steamMtuDataSize - int VPN_MESSAGE_OVERHEAD - 15
      in if tunMtu < 576 then 576 else if tunMtu > 1500 then 1500 else tunMtu)"

definition extractDestIP :: "uint8_t list \<Rightarrow> nat \<Rightarrow> uint32_t" where
  "extractDestIP packet len =
     (if len < 20 then 0
      else let version = drop_bit 4 (packet ! 0) AND 0x0F
           in if version \<noteq> 4 then 0
              else ntohl (uint32_of_bytes (take 4 (drop 16 packet))))"

definition extractSourceIP :: "uint8_t list \<Rightarrow> nat \<Rightarrow> uint32_t" where
  "extractSourceIP packet len =
     (if len < 20 then 0
      else let version = drop_bit 4 (packet ! 0) AND 0x0F
           in if version \<noteq> 4 then 0
              else ntohl (uint32_of_bytes (take 4 (drop 12 packet))))"

definition isBroadcastAddress :: "uint32_t \<Rightarrow> uint32_t \<Rightarrow> uint32_t \<Rightarrow> bool" where
  "isBroadcastAddress ip base netmask =
     (if ip = 0xFFFFFFFF then True
      else let subnetBroadcast = (base AND netmask) OR NOT netmask
           in if ip = subnetBroadcast then True
              else let firstOctet = (ucast (drop_bit 24 ip AND 0xFF) :: uint8_t)
                   in if firstOctet \<ge> 224 \<and> firstOctet \<le> 239 then True else False)"

section \<open>The bridge (steam_vpn_bridge.cpp)\<close>

text \<open>
  What the bridge does to its two external collaborators, in order: messages handed to the
  Steam networking manager and calls of the TUN device. The send flags are either
  \<open>k_nSteamNetworkingSend_Reliable\<close> or
  \<open>k_nSteamNetworkingSend_UnreliableNoNagle | k_nSteamNetworkingSend_NoDelay\<close>.
\<close>

datatype send_flags = Reliable | UnreliableNoNagle_NoDelay

datatype effect =
    SendMessageToUser CSteamID "uint8_t list" send_flags
  | BroadcastMessage "uint8_t list" send_flags
  | TunWrite "uint8_t list"
  | TunSetIp uint32_t uint32_t
  | TunSetUp bool

record Statistics =
  packetsSent :: uint64_t
  packetsReceived :: uint64_t
  bytesSent :: uint64_t
  bytesReceived :: uint64_t
  packetsDropped :: uint64_t

text \<open>
  \<open>tunDevice\<close> tells whether the pointer \<open>tunDevice_\<close> is set. The callbacks of the three
  components are the ones that \<open>start\<close> installs; \<open>deliver_route\<close>, \<open>deliver\<close> and
  \<open>deliver_heartbeat\<close> below are the bodies of those lambdas.
\<close>

record SteamVpnBridge =
  tunDevice :: bool
  running :: bool
  baseIP :: uint32_t
  subnetMask :: uint32_t
  localIP :: uint32_t
  stats :: Statistics
  ipNegotiator :: IpNegotiator
  heartbeatManager :: HeartbeatManager
  routeManager :: VpnRouteManager

definition VpnMessageHeader_bytes :: "VpnMessageType \<Rightarrow> uint16_t \<Rightarrow> uint8_t list" where
  "VpnMessageHeader_bytes t l = VpnMessageType_code t # bytes_of_uint16 l"

definition sendVpnMessage ::
  "VpnMessageType \<Rightarrow> uint8_t list \<Rightarrow> nat \<Rightarrow> CSteamID \<Rightarrow> bool \<Rightarrow> effect list" where
  "sendVpnMessage t payload payloadLength targetSteamID reliable =
     (let message = VpnMessageHeader_bytes t (htons (word_of_nat payloadLength))
                    @ take payloadLength payload;
          flags = (if reliable then Reliable else UnreliableNoNagle_NoDelay)
      in [SendMessageToUser targetSteamID message flags])"

definition broadcastVpnMessage ::
  "VpnMessageType \<Rightarrow> uint8_t list \<Rightarrow> nat \<Rightarrow> bool \<Rightarrow> effect list" where
  "broadcastVpnMessage t payload payloadLength reliable =
     (let message = VpnMessageHeader_bytes t (htons (word_of_nat payloadLength))
                    @ take payloadLength payload;
          flags = (if reliable then Reliable else UnreliableNoNagle_NoDelay)
      in [BroadcastMessage message flags])"

text \<open>
  Running the calls that a component made, in order, on the bridge; \<open>f\<close> is the body of
  the installed callback.
\<close>

fun deliver_all ::
  "('c \<Rightarrow> SteamVpnBridge \<Rightarrow> SteamVpnBridge \<times> effect list) \<Rightarrow> 'c list \<Rightarrow> SteamVpnBridge
   \<Rightarrow> SteamVpnBridge \<times> effect list" where
  "deliver_all f [] b = (b, [])"
| "deliver_all f (c # cs) b =
     (case f c b of (b', effects) \<Rightarrow>
        (case deliver_all f cs b' of (b'', effects') \<Rightarrow> (b'', effects @ effects')))"

fun deliver_route :: "route_callback \<Rightarrow> SteamVpnBridge \<Rightarrow> SteamVpnBridge \<times> effect list" where
  "deliver_route (RouteSend t payload target reliable) b =
     (b, sendVpnMessage t payload (length payload) target reliable)"
| "deliver_route (RouteBroadcast t payload reliable) b =
     (b, broadcastVpnMessage t payload (length payload) reliable)"
| "deliver_route (RouteAdded ip) b =
     (b\<lparr>ipNegotiator := markIPUsed ip (ipNegotiator b)\<rparr>, [])"

text \<open>
  \<open>onNegotiationSuccess\<close>: \<open>now\<close> is the clock reading of \<open>initialize\<close> and \<open>now'\<close>
  the one of \<open>registerNode\<close>.
\<close>

definition onNegotiationSuccess ::
  "Platform \<Rightarrow> time_point \<Rightarrow> time_point \<Rightarrow> uint32_t \<Rightarrow> NodeID \<Rightarrow> SteamVpnBridge
   \<Rightarrow> SteamVpnBridge \<times> effect list" where
  "onNegotiationSuccess api now now' ip nid b =
     (let b = b\<lparr>SteamVpnBridge.localIP := ip\<rparr>;
          configured = (set_ip api (SteamVpnBridge.localIP b) (SteamVpnBridge.subnetMask b)
                        \<and> set_up api);
          tun = TunSetIp (SteamVpnBridge.localIP b) (SteamVpnBridge.subnetMask b)
                # (if set_ip api (SteamVpnBridge.localIP b) (SteamVpnBridge.subnetMask b)
                   then [TunSetUp True] else [])
      in if configured
         then
           (case updateRoute api nid (GetSteamID api) (SteamVpnBridge.localIP b)
                   (GetPersonaName api) (routeManager b) of
              (rm, added) \<Rightarrow>
                (case deliver_all deliver_route added (b\<lparr>routeManager := rm\<rparr>) of
                   (b, effects) \<Rightarrow>
                     (let h = initialize now nid (SteamVpnBridge.localIP b) (heartbeatManager b);
                          h = registerNode now' nid (GetSteamID api) (SteamVpnBridge.localIP b)
                                (GetPersonaName api) h;
                          h = start h;
                          b = b\<lparr>heartbeatManager := h\<rparr>
                      in case deliver_all deliver_route (broadcastRouteUpdate (routeManager b)) b of
                           (b, effects') \<Rightarrow> (b, tun @ effects @ effects'))))
         else (b, tun))"

fun deliver ::
  "Platform \<Rightarrow> time_point \<Rightarrow> time_point \<Rightarrow> callback \<Rightarrow> SteamVpnBridge
   \<Rightarrow> SteamVpnBridge \<times> effect list" where
  "deliver api now now' (Send t payload target reliable) b =
     (b, sendVpnMessage t payload (length payload) target reliable)"
| "deliver api now now' (Broadcast t payload reliable) b =
     (b, broadcastVpnMessage t payload (length payload) reliable)"
| "deliver api now now' (Success ip nid) b = onNegotiationSuccess api now now' ip nid b"

definition onNodeExpired :: "NodeID \<Rightarrow> uint32_t \<Rightarrow> SteamVpnBridge \<Rightarrow> SteamVpnBridge" where
  "onNodeExpired nid ip b =
     b\<lparr>routeManager := removeRoute ip (routeManager b),
       ipNegotiator := markIPUnused ip (ipNegotiator b)\<rparr>"

fun deliver_heartbeat ::
  "heartbeat_callback \<Rightarrow> SteamVpnBridge \<Rightarrow> SteamVpnBridge \<times> effect list" where
  "deliver_heartbeat (HeartbeatSend t payload reliable) b =
     (b, broadcastVpnMessage t payload (length payload) reliable)"
| "deliver_heartbeat (NodeExpired nid ip) b = (onNodeExpired nid ip b, [])"

definition onUserLeft :: "CSteamID \<Rightarrow> SteamVpnBridge \<Rightarrow> SteamVpnBridge" where
  "onUserLeft sid b =
     (case removeRoutesForUser sid (routeManager b) of
        (rm, removed) \<Rightarrow>
          fold (\<lambda>(ip, nid) b.
                  b\<lparr>heartbeatManager := unregisterNode nid (heartbeatManager b),
                    ipNegotiator := markIPUnused ip (ipNegotiator b)\<rparr>)
            removed (b\<lparr>routeManager := rm\<rparr>))"

text \<open>
  \<open>handleVpnMessage\<close>: \<open>data\<close> is the received buffer and its length is the argument
  \<open>length\<close> of the code. \<open>clock\<close> gives the clock readings made while the frame is
  handled: \<open>clock 0\<close> is the reading of the handler that is called, and \<open>clock 1\<close> and
  \<open>clock 2\<close> are the readings of \<open>initialize\<close> and \<open>registerNode\<close> in the success
  callback.
\<close>

definition handle_IP_PACKET ::
  "uint8_t list \<Rightarrow> nat \<Rightarrow> CSteamID \<Rightarrow> SteamVpnBridge \<Rightarrow> SteamVpnBridge \<times> effect list" where
  "handle_IP_PACKET payload payloadLength sender b =
     (if tunDevice b \<and> payloadLength > sizeof_VpnPacketWrapper
      then
        let ipPacketLen = payloadLength - sizeof_VpnPacketWrapper;
            ipPacket = take ipPacketLen (drop sizeof_VpnPacketWrapper payload);
            destIP = extractDestIP ipPacket ipPacketLen
        in if destIP = SteamVpnBridge.localIP b
              \<or> isBroadcastAddress destIP (SteamVpnBridge.baseIP b) (SteamVpnBridge.subnetMask b)
           then (b\<lparr>stats := (stats b)\<lparr>packetsReceived := packetsReceived (stats b) + 1,
                                       bytesReceived := bytesReceived (stats b)
                                                        + word_of_nat ipPacketLen\<rparr>\<rparr>,
                 [TunWrite ipPacket])
           else (case getRoute (routeManager b) destIP of
                   Some entry \<Rightarrow>
                     if \<not> RouteEntry.isLocal entry \<and> steamID entry \<noteq> sender
                     then (b, sendVpnMessage IP_PACKET payload payloadLength (steamID entry) False)
                     else (b, [])
                 | None \<Rightarrow> (b, []))
      else (b, []))"

definition handle_ADDRESS_ANNOUNCE ::
  "Platform \<Rightarrow> (nat \<Rightarrow> time_point) \<Rightarrow> uint8_t list \<Rightarrow> CSteamID \<Rightarrow> string \<Rightarrow> SteamVpnBridge
   \<Rightarrow> SteamVpnBridge \<times> effect list" where
  "handle_ADDRESS_ANNOUNCE api clock payload sender peerName b =
     (let announce = AddressAnnouncePayload_of_bytes payload;
          announcedIP = ntohl (AddressAnnouncePayload.ipAddress announce);
          isNewRoute = (getRoute (routeManager b) announcedIP = None)
      in case handleAddressAnnounce (clock 0) announce sender (ipNegotiator b) of
           (n, calls) \<Rightarrow>
             (case deliver_all (deliver api (clock 1) (clock 2)) calls (b\<lparr>ipNegotiator := n\<rparr>) of
                (b, e1) \<Rightarrow>
                  (case updateRoute api (AddressAnnouncePayload.nodeId announce) sender
                          announcedIP peerName (routeManager b) of
                     (rm, added) \<Rightarrow>
                       (case deliver_all deliver_route added (b\<lparr>routeManager := rm\<rparr>) of
                          (b, e2) \<Rightarrow>
                            if isNewRoute
                            then (case deliver_all deliver_route
                                         (broadcastRouteUpdate (routeManager b)) b of
                                    (b, e3) \<Rightarrow> (b, e1 @ e2 @ e3))
                            else (b, e1 @ e2)))))"

definition handleVpnMessage ::
  "Platform \<Rightarrow> (nat \<Rightarrow> time_point) \<Rightarrow> uint8_t list \<Rightarrow> CSteamID \<Rightarrow> SteamVpnBridge
   \<Rightarrow> SteamVpnBridge \<times> effect list" where
  "handleVpnMessage api clock data sender b =
     (if length data < sizeof_VpnMessageHeader then (b, [])
      else
        let header_type = data ! 0;
            header_length = uint16_of_bytes (take 2 (drop 1 data));
            payloadLength = unat (ntohs header_length)
        in if length data < sizeof_VpnMessageHeader + payloadLength then (b, [])
           else
             let payload = drop sizeof_VpnMessageHeader data;
                 peerName = GetFriendPersonaName api sender
             in if header_type = VpnMessageType_code IP_PACKET
                then handle_IP_PACKET payload payloadLength sender b
                else if header_type = VpnMessageType_code ROUTE_UPDATE
                then (case handleRouteUpdate api payload payloadLength (SteamVpnBridge.baseIP b)
                             (SteamVpnBridge.subnetMask b) (GetSteamID api) (routeManager b) of
                        (rm, added) \<Rightarrow> deliver_all deliver_route added (b\<lparr>routeManager := rm\<rparr>))
                else if header_type = VpnMessageType_code PROBE_REQUEST
                then (if payloadLength \<ge> sizeof_ProbeRequestPayload
                      then (case handleProbeRequest (clock 0) (ProbeRequestPayload_of_bytes payload)
                                   sender (ipNegotiator b) of
                              (n, calls) \<Rightarrow>
                                deliver_all (deliver api (clock 1) (clock 2)) calls (b\<lparr>ipNegotiator := n\<rparr>))
                      else (b, []))
                else if header_type = VpnMessageType_code PROBE_RESPONSE
                then (if payloadLength \<ge> sizeof_ProbeResponsePayload
                      then (b\<lparr>ipNegotiator :=
                                handleProbeResponse (ProbeResponsePayload_of_bytes payload)
                                  sender (ipNegotiator b)\<rparr>, [])
                      else (b, []))
                else if header_type = VpnMessageType_code ADDRESS_ANNOUNCE
                then (if payloadLength \<ge> sizeof_AddressAnnouncePayload
                      then handle_ADDRESS_ANNOUNCE api clock payload sender peerName b
                      else (b, []))
                else if header_type = VpnMessageType_code FORCED_RELEASE
                then (if payloadLength \<ge> sizeof_ForcedReleasePayload
                      then (case handleForcedRelease (clock 0) (ForcedReleasePayload_of_bytes payload)
                                   sender (ipNegotiator b) of
                              (n, calls) \<Rightarrow>
                                deliver_all (deliver api (clock 1) (clock 2)) calls (b\<lparr>ipNegotiator := n\<rparr>))
                      else (b, []))
                else if header_type = VpnMessageType_code HEARTBEAT
                then (if payloadLength \<ge> sizeof_HeartbeatPayload
                      then (b\<lparr>heartbeatManager :=
                                handleHeartbeat (clock 0) (HeartbeatPayload_of_bytes payload)
                                  sender peerName (heartbeatManager b)\<rparr>, [])
                      else (b, []))
                else (b, []))"


section \<open>Definitions that follow the specification\<close>

subsection \<open>The candidate order of the specification\<close>

text \<open>
  These three definitions follow the specification's words, for comparison with
  \<open>generateCandidateIP\<close> and \<open>findNextAvailableIP\<close>. In a subnet with \<open>h\<close> host bits,
  \<open>host_count h\<close> is the number of usable host addresses (all but the network and the
  broadcast address); \<open>seed_host n offset h\<close> is the host part of the seed for node ID \<open>n\<close>,
  with the sum of the low 24 bits and the offset reduced to 24 bits as the code does;
  \<open>scan_order net n seed k\<close> is the address reached from host \<open>seed\<close> after \<open>k\<close> steps
  forward, where the step after host \<open>n\<close> goes to host 1.
\<close>

definition host_count :: "nat \<Rightarrow> nat" where
  "host_count h = 2 ^ h - 2"

definition seed_host :: "NodeID \<Rightarrow> uint32_t \<Rightarrow> nat \<Rightarrow> nat" where
  "seed_host n offset h = ((unat (lo24 n) + unat offset) mod 2 ^ 24) mod host_count h + 1"

definition scan_order :: "uint32_t \<Rightarrow> nat \<Rightarrow> nat \<Rightarrow> nat \<Rightarrow> uint32_t" where
  "scan_order net n seed k = net OR word_of_nat ((seed - 1 + k) mod n + 1)"


section \<open>Predicates on routing tables, payloads and calls\<close>

text \<open>
  \<open>one_ip_per_peer rm\<close>: no two entries of the routing table carry the same Steam ID.
  \<open>route_records payload len\<close> is the list of (Steam ID, address) records that the loop of
  \<open>handleRouteUpdate\<close> reads from a payload of \<open>len\<close> bytes, in order (a trailing
  fragment shorter than 12 bytes is not read). A table \<open>t\<close> is \<open>settled\<close> for a list of records
  when every peer the list names holds no address in \<open>t\<close> other than the one the list gives
  it, and the list gives every peer one address only.
  \<open>is_Success\<close> tells the success callback from the two sending callbacks.
\<close>

definition one_ip_per_peer :: "VpnRouteManager \<Rightarrow> bool" where
  "one_ip_per_peer rm =
     (\<forall>k1 k2 e1 e2. getRoute rm k1 = Some e1 \<and> getRoute rm k2 = Some e2
                      \<and> steamID e1 = steamID e2 \<longrightarrow> k1 = k2)"

definition route_records :: "uint8_t list \<Rightarrow> nat \<Rightarrow> (CSteamID \<times> uint32_t) list" where
  "route_records payload len = map (\<lambda>i. route_record payload (12 * i)) [0 ..< len div 12]"

definition settled :: "(uint32_t \<rightharpoonup> RouteEntry) \<Rightarrow> (CSteamID \<times> uint32_t) list \<Rightarrow> bool" where
  "settled t rs =
     (\<forall>(p, ip) \<in> set rs.
        (\<forall>k e. t k = Some e \<and> steamID e = p \<longrightarrow> k = ip)
        \<and> (\<forall>(p', ip') \<in> set rs. p' = p \<longrightarrow> ip' = ip))"

fun is_Success :: "callback \<Rightarrow> bool" where
  "is_Success (Success ip nid) = True"
| "is_Success _ = False"


section \<open>Concrete states and messages\<close>

text \<open>
  The subnet of the examples is 10.0.0.0/255.255.255.0.

  \<open>stale_probe\<close>: a node probing 10.0.0.9 whose probe started at 199000 ms (clock
  readings are in nanoseconds) and to which peer 2 answered with a heartbeat timestamp of
  0 ms. \<open>contested_probe\<close>: the same node when peer 4, with the lower node ID 01 ... 01,
  has answered too, with a heartbeat timestamp of 199500 ms.
\<close>

definition stale_probe :: IpNegotiator where
  "stale_probe =
     \<lparr>IpNegotiator.localNodeId = replicate 32 3, localSteamID = 3, IpNegotiator.localIP = 0,
      IpNegotiator.baseIP = 0x0A000000, IpNegotiator.subnetMask = 0xFFFFFF00, state = PROBING,
      candidateIP = 0x0A000009, probeOffset = 0, probeStartTime = 199000000000,
      collectedConflicts =
        [\<lparr>ConflictInfo.nodeId = replicate 32 2, ConflictInfo.lastHeartbeatMs = 0,
          senderSteamID = 2\<rparr>],
      usedIPs = {}, IpNegotiator.sendCallback = True, IpNegotiator.broadcastCallback = True, IpNegotiator.successCallback = True\<rparr>"

definition contested_probe :: IpNegotiator where
  "contested_probe =
     stale_probe\<lparr>collectedConflicts :=
       [\<lparr>ConflictInfo.nodeId = replicate 32 2, ConflictInfo.lastHeartbeatMs = 0,
         senderSteamID = 2\<rparr>,
        \<lparr>ConflictInfo.nodeId = replicate 32 1, ConflictInfo.lastHeartbeatMs = 199500,
         senderSteamID = 4\<rparr>]\<rparr>"

text \<open>
  \<open>stable_owner\<close>: a node with node ID 01 01 ... 01 that holds 10.0.0.5 in state Stable;
  \<open>probing_node\<close>: the same node while it still probes 10.0.0.5;
  \<open>probe_from n\<close>: the PROBE_REQUEST for 10.0.0.5 of a requester with node ID \<open>n\<close>;
  \<open>announce_from n\<close> and \<open>release_from n\<close>: the ADDRESS_ANNOUNCE and the FORCED_RELEASE
  for 10.0.0.5 of a node with node ID \<open>n\<close>.
\<close>

definition stable_owner :: IpNegotiator where
  "stable_owner =
     \<lparr>IpNegotiator.localNodeId = replicate 32 1, localSteamID = 1, IpNegotiator.localIP = 0x0A000005,
      IpNegotiator.baseIP = 0x0A000000, IpNegotiator.subnetMask = 0xFFFFFF00, state = STABLE,
      candidateIP = 0x0A000005, probeOffset = 0, probeStartTime = 0, collectedConflicts = [],
      usedIPs = {}, IpNegotiator.sendCallback = True, IpNegotiator.broadcastCallback = True, IpNegotiator.successCallback = True\<rparr>"

definition probing_node :: IpNegotiator where
  "probing_node = stable_owner\<lparr>IpNegotiator.localIP := 0, state := PROBING\<rparr>"

definition probe_from :: "NodeID \<Rightarrow> ProbeRequestPayload" where
  "probe_from n =
     \<lparr>ProbeRequestPayload.ipAddress = htonl 0x0A000005, ProbeRequestPayload.nodeId = n\<rparr>"

definition announce_from :: "NodeID \<Rightarrow> AddressAnnouncePayload" where
  "announce_from n =
     \<lparr>AddressAnnouncePayload.ipAddress = htonl 0x0A000005, AddressAnnouncePayload.nodeId = n\<rparr>"

definition release_from :: "NodeID \<Rightarrow> ForcedReleasePayload" where
  "release_from n =
     \<lparr>ForcedReleasePayload.ipAddress = htonl 0x0A000005, winnerNodeId = n\<rparr>"

text \<open>
  \<open>scan_example\<close>: the probing node when 10.0.0.9 is known to be used;
  \<open>wrap_node\<close>: a probing node whose node ID ends in FF FF FF.
\<close>

definition scan_example :: IpNegotiator where
  "scan_example = probing_node\<lparr>usedIPs := {0x0A000009}\<rparr>"

definition wrap_node :: IpNegotiator where
  "wrap_node = probing_node\<lparr>IpNegotiator.localNodeId := replicate 29 0 @ [0xFF, 0xFF, 0xFF]\<rparr>"


text \<open>
  \<open>example_api\<close>: a platform whose local Steam ID is 1 and whose hash function returns 32 copies of
  the first input byte. \<open>route_of sid ip\<close> is the route of a remote peer. \<open>routes_stale\<close> holds one
  route, 10.0.0.5 for peer 3; \<open>routes_two\<close> holds that route and 10.0.0.9 for peer 2;
  \<open>routes_empty\<close> holds none.
\<close>

definition example_api :: Platform where
  "example_api =
     \<lparr>GetSteamID = 1, GetFriendPersonaName = (\<lambda>sid. ''peer''), GetPersonaName = ''me'',
      sha256 = (\<lambda>input. Some (replicate 32 (input ! 0))),
      set_ip = (\<lambda>ip netmask. True), set_up = True\<rparr>"

definition route_of :: "CSteamID \<Rightarrow> uint32_t \<Rightarrow> RouteEntry" where
  "route_of sid ip =
     \<lparr>steamID = sid, RouteEntry.ipAddress = ip, RouteEntry.name = ''peer'',
      RouteEntry.isLocal = False, RouteEntry.nodeId = replicate 32 (ucast sid)\<rparr>"

definition routes_stale :: VpnRouteManager where
  "routes_stale =
     \<lparr>routingTable = [(0x0A000005, route_of 3 0x0A000005)],
      VpnRouteManager.sendCallback = True, VpnRouteManager.broadcastCallback = True,
      onRouteAddedCallback = True\<rparr>"

definition routes_empty :: VpnRouteManager where
  "routes_empty = routes_stale\<lparr>routingTable := []\<rparr>"

definition routes_two :: VpnRouteManager where
  "routes_two = routes_stale\<lparr>routingTable :=
      [(0x0A000005, route_of 3 0x0A000005), (0x0A000009, route_of 2 0x0A000009)]\<rparr>"

text \<open>
  ROUTE_UPDATE payloads of 12-byte records (Steam ID as written by \<open>memcpy\<close>, address in
  network order): \<open>moved_payload\<close> gives 10.0.0.5 to peer 2 and 10.0.0.6 to peer 3;
  \<open>settled_payload\<close> gives 10.0.0.7 to peer 2 and 10.0.0.5 to peer 3; \<open>network_payload\<close> gives
  the network address 10.0.0.0 to peer 2 and \<open>broadcast_payload\<close> the broadcast address
  10.0.0.255.
\<close>

definition moved_payload :: "uint8_t list" where
  "moved_payload = [2, 0, 0, 0, 0, 0, 0, 0, 10, 0, 0, 5, 3, 0, 0, 0, 0, 0, 0, 0, 10, 0, 0, 6]"

definition settled_payload :: "uint8_t list" where
  "settled_payload = [2, 0, 0, 0, 0, 0, 0, 0, 10, 0, 0, 7, 3, 0, 0, 0, 0, 0, 0, 0, 10, 0, 0, 5]"

definition network_payload :: "uint8_t list" where
  "network_payload = [2, 0, 0, 0, 0, 0, 0, 0, 10, 0, 0, 0]"

definition broadcast_payload :: "uint8_t list" where
  "broadcast_payload = [2, 0, 0, 0, 0, 0, 0, 0, 10, 0, 0, 255]"

text \<open>
  Clock readings are in nanoseconds. \<open>example_clock\<close>: readings from 1000000 ms on, a
  microsecond apart; \<open>boundary_clock\<close>: readings a nanosecond apart that reach
  360000 ms at the third.

  \<open>lease_example\<close>: a node table with the local node and peer 2, both last heard at 0 ms, and
  peer 3, last heard at 900000 ms; \<open>twin_leases\<close>: the same table when peer 3 was last
  heard at 0 ms too.
\<close>

definition example_clock :: "nat \<Rightarrow> time_point" where
  "example_clock i = 1000000000000 + 1000 * int i"

definition boundary_clock :: "nat \<Rightarrow> time_point" where
  "boundary_clock i = 359999999998 + int i"

definition lease_example :: HeartbeatManager where
  "lease_example =
     \<lparr>HeartbeatManager.localNodeId = replicate 32 1, HeartbeatManager.localIP = 0x0A000005,
      lastHeartbeatSent = 0,
      nodeTable =
        [(replicate 32 1,
          \<lparr>NodeInfo.nodeId = replicate 32 1, steamId = 1, NodeInfo.ipAddress = 0x0A000005,
           lastHeartbeat = 0, NodeInfo.name = ''me'', NodeInfo.isLocal = True\<rparr>),
         (replicate 32 2,
          \<lparr>NodeInfo.nodeId = replicate 32 2, steamId = 2, NodeInfo.ipAddress = 0x0A000006,
           lastHeartbeat = 0, NodeInfo.name = ''peer'', NodeInfo.isLocal = False\<rparr>),
         (replicate 32 3,
          \<lparr>NodeInfo.nodeId = replicate 32 3, steamId = 3, NodeInfo.ipAddress = 0x0A000007,
           lastHeartbeat = 900000000000, NodeInfo.name = ''peer'', NodeInfo.isLocal = False\<rparr>)],
      ipToNodeId = [0x0A000005 \<mapsto> replicate 32 1, 0x0A000006 \<mapsto> replicate 32 2,
                    0x0A000007 \<mapsto> replicate 32 3],
      HeartbeatManager.running = True, HeartbeatManager.sendCallback = True,
      expiredCallback = True\<rparr>"

definition twin_leases :: HeartbeatManager where
  "twin_leases =
     lease_example\<lparr>nodeTable :=
       map (\<lambda>(k, n). (k, n\<lparr>lastHeartbeat := 0\<rparr>)) (nodeTable lease_example)\<rparr>"

text \<open>
  \<open>example_bridge\<close>: a running bridge at 10.0.0.5 with a TUN device, in state Stable, knowing
  its own address as used, with routes for itself, for peer 2 at 10.0.0.6 and for peer 3 at
  10.0.0.7, and an empty node table. \<open>probing_bridge\<close>: the same bridge while it probes
  10.0.0.5 with an empty set of used addresses. \<open>unstarted_bridge\<close>: a bridge on which
  \<open>start\<close> has not been called (no TUN device, no subnet, no callbacks installed, the
  negotiator idle) and which has learned the routes of peer 2 at 10.0.0.6 and of peer 3 at
  10.0.0.7 from frames it received.
\<close>

definition example_bridge :: SteamVpnBridge where
  "example_bridge =
     \<lparr>tunDevice = True, SteamVpnBridge.running = True, SteamVpnBridge.baseIP = 0x0A000000,
      SteamVpnBridge.subnetMask = 0xFFFFFF00, SteamVpnBridge.localIP = 0x0A000005,
      stats = \<lparr>packetsSent = 0, packetsReceived = 0, bytesSent = 0, bytesReceived = 0,
                packetsDropped = 0\<rparr>,
      ipNegotiator = stable_owner\<lparr>usedIPs := {0x0A000005}\<rparr>,
      heartbeatManager =
        \<lparr>HeartbeatManager.localNodeId = replicate 32 1, HeartbeatManager.localIP = 0x0A000005,
         lastHeartbeatSent = 0, nodeTable = [], ipToNodeId = Map.empty,
         HeartbeatManager.running = True, HeartbeatManager.sendCallback = True,
         expiredCallback = True\<rparr>,
      routeManager =
        \<lparr>routingTable =
           [(0x0A000005, (route_of 1 0x0A000005)\<lparr>RouteEntry.isLocal := True\<rparr>),
            (0x0A000006, route_of 2 0x0A000006),
            (0x0A000007, route_of 3 0x0A000007)],
         VpnRouteManager.sendCallback = True, VpnRouteManager.broadcastCallback = True,
         onRouteAddedCallback = True\<rparr>\<rparr>"

definition probing_bridge :: SteamVpnBridge where
  "probing_bridge = example_bridge\<lparr>SteamVpnBridge.localIP := 0, ipNegotiator := probing_node\<rparr>"

definition unstarted_bridge :: SteamVpnBridge where
  "unstarted_bridge =
     \<lparr>tunDevice = False, SteamVpnBridge.running = False, SteamVpnBridge.baseIP = 0,
      SteamVpnBridge.subnetMask = 0, SteamVpnBridge.localIP = 0,
      stats = \<lparr>packetsSent = 0, packetsReceived = 0, bytesSent = 0, bytesReceived = 0,
                packetsDropped = 0\<rparr>,
      ipNegotiator =
        \<lparr>IpNegotiator.localNodeId = replicate 32 0, localSteamID = 0, IpNegotiator.localIP = 0,
         IpNegotiator.baseIP = 0, IpNegotiator.subnetMask = 0, state = IDLE, candidateIP = 0,
         probeOffset = 0, probeStartTime = 0, collectedConflicts = [], usedIPs = {},
         IpNegotiator.sendCallback = False, IpNegotiator.broadcastCallback = False,
         IpNegotiator.successCallback = False\<rparr>,
      heartbeatManager =
        \<lparr>HeartbeatManager.localNodeId = replicate 32 0, HeartbeatManager.localIP = 0,
         lastHeartbeatSent = 0, nodeTable = [], ipToNodeId = Map.empty,
         HeartbeatManager.running = False, HeartbeatManager.sendCallback = False,
         expiredCallback = False\<rparr>,
      routeManager =
        \<lparr>routingTable =
           [(0x0A000006, route_of 2 0x0A000006), (0x0A000007, route_of 3 0x0A000007)],
         VpnRouteManager.sendCallback = False, VpnRouteManager.broadcastCallback = False,
         onRouteAddedCallback = False\<rparr>\<rparr>"

text \<open>
  Frames as they arrive: a 3-byte header (type, length in network order) and the payload.
  \<open>ip_frame_to dst\<close> is an IP_PACKET frame whose wrapper carries node ID 02 ... 02 and whose
  20-byte IPv4 header has source 10.0.0.6 and destination \<open>dst\<close>; \<open>route_frame\<close> carries
  \<open>settled_payload\<close>; \<open>announce_frame\<close> announces 10.0.0.8 for node ID 04 ... 04;
  \<open>heartbeat_frame\<close> is a heartbeat of that node at 10.0.0.8; \<open>response_frame\<close> is a
  PROBE_RESPONSE of that node for 10.0.0.5.
\<close>

definition ip_packet_to :: "uint8_t list \<Rightarrow> uint8_t list" where
  "ip_packet_to dst = [0x45, 0, 0, 20, 0, 0, 0, 0, 64, 1, 0, 0, 10, 0, 0, 6] @ dst"

definition ip_frame_to :: "uint8_t list \<Rightarrow> uint8_t list" where
  "ip_frame_to dst = [1, 0, 52] @ replicate 32 2 @ ip_packet_to dst"

definition route_frame :: "uint8_t list" where
  "route_frame = [3, 0, 24] @ settled_payload"

definition announce_frame :: "uint8_t list" where
  "announce_frame = [12, 0, 36] @ [10, 0, 0, 8] @ replicate 32 4"

definition heartbeat_frame :: "uint8_t list" where
  "heartbeat_frame = [14, 0, 44] @ [10, 0, 0, 8] @ replicate 32 4 @ [0, 0, 0, 0, 0, 0, 0, 0]"

definition response_frame :: "uint8_t list" where
  "response_frame = [11, 0, 44] @ [10, 0, 0, 5] @ replicate 32 4 @ [0, 0, 0, 0, 0, 0, 0, 0]"


section \<open>The probe window: \<open>checkTimeout\<close>\<close>

lemma checkTimeout_loop_stale:
  "\<forall>c \<in> set conflicts.
      HEARTBEAT_EXPIRY_MS
        \<le> sint ((word_of_int (duration_cast_ms now) :: int64_t) - ConflictInfo.lastHeartbeatMs c)
   \<Longrightarrow> checkTimeout_loop s now conflicts acc = (True, acc)"
  by (induction conflicts arbitrary: acc) simp_all

lemma checkTimeout_loop_targets:
  "target \<in> set (snd (checkTimeout_loop s now conflicts acc))
   \<Longrightarrow> target \<in> set acc
       \<or> (\<exists>c \<in> set conflicts.
             senderSteamID c = target
             \<and> sint ((word_of_int (duration_cast_ms now) :: int64_t) - ConflictInfo.lastHeartbeatMs c)
                 < HEARTBEAT_EXPIRY_MS
             \<and> hasPriority (IpNegotiator.localNodeId s) (ConflictInfo.nodeId c))"
proof (induction conflicts arbitrary: acc)
  case Nil
  then show ?case by simp
next
  case (Cons c conflicts)
  let ?age = "sint ((word_of_int (duration_cast_ms now) :: int64_t) - ConflictInfo.lastHeartbeatMs c)"
  show ?case
  proof (cases "HEARTBEAT_EXPIRY_MS \<le> ?age")
    case True
    with Cons.prems have "target \<in> set (snd (checkTimeout_loop s now conflicts acc))"
      by (simp add: Let_def)
    from Cons.IH [OF this] show ?thesis by auto
  next
    case False
    show ?thesis
    proof (cases "hasPriority (IpNegotiator.localNodeId s) (ConflictInfo.nodeId c)")
      case True
      with False Cons.prems
      have "target \<in> set (snd (checkTimeout_loop s now conflicts (acc @ [senderSteamID c])))"
        by (simp add: Let_def)
      from Cons.IH [OF this] False True show ?thesis by auto
    next
      case lost: False
      with False Cons.prems show ?thesis by (simp add: Let_def)
    qed
  qed
qed

lemma sendForcedRelease_target:
  "Send t payload target reliable \<in> set (concat (map (sendForcedRelease s ip) targets))
   \<Longrightarrow> target \<in> set targets"
  by (auto simp add: sendForcedRelease_def split: if_splits)

text \<open>
  C1, as the code has it. When the probe window has elapsed and every collected conflict is
  stale (its heartbeat timestamp is at least \<open>HEARTBEAT_EXPIRY_MS\<close> old), \<open>checkTimeout\<close>
  moves the negotiator from Probing to Stable at the candidate IP, empties the conflict
  list, broadcasts ADDRESS_ANNOUNCE for the candidate when the broadcast callback is
  installed, and makes the success callback when that is installed; it makes no other
  call, so no FORCED_RELEASE is sent: the loop skips a stale responder before it is added
  to \<open>nodesToForceRelease\<close>. In every state, a FORCED_RELEASE that \<open>checkTimeout\<close>
  sends goes to the sender of a collected conflict that is active (its heartbeat timestamp
  is less than \<open>HEARTBEAT_EXPIRY_MS\<close> old) and over whose node ID the local node ID has
  priority.
\<close>

theorem checkTimeout_stale_conflicts:
  "(state s = PROBING
      \<and> PROBE_TIMEOUT_MS \<le> duration_cast_ms (now - probeStartTime s)
      \<and> (\<forall>c \<in> set (collectedConflicts s).
            HEARTBEAT_EXPIRY_MS
              \<le> sint ((word_of_int (duration_cast_ms now) :: int64_t) - ConflictInfo.lastHeartbeatMs c))
    \<longrightarrow> checkTimeout now now' s =
          (s\<lparr>collectedConflicts := [], state := STABLE, IpNegotiator.localIP := candidateIP s\<rparr>,
           (if IpNegotiator.broadcastCallback s
            then [Broadcast ADDRESS_ANNOUNCE
                    (bytes_of_AddressAnnouncePayload
                       \<lparr>AddressAnnouncePayload.ipAddress = htonl (candidateIP s),
                        AddressAnnouncePayload.nodeId = IpNegotiator.localNodeId s\<rparr>) True]
            else [])
           @ (if IpNegotiator.successCallback s
              then [Success (candidateIP s) (IpNegotiator.localNodeId s)] else [])))
   \<and> (\<forall>payload target reliable.
         Send FORCED_RELEASE payload target reliable \<in> set (snd (checkTimeout now now' s))
         \<longrightarrow> (\<exists>c \<in> set (collectedConflicts s).
                senderSteamID c = target
                \<and> sint ((word_of_int (duration_cast_ms now) :: int64_t) - ConflictInfo.lastHeartbeatMs c)
                    < HEARTBEAT_EXPIRY_MS
                \<and> hasPriority (IpNegotiator.localNodeId s) (ConflictInfo.nodeId c)))"
proof -
  let ?s = "s\<lparr>collectedConflicts := []\<rparr>"
  have 1: "checkTimeout now now' s =
          (s\<lparr>collectedConflicts := [], state := STABLE, IpNegotiator.localIP := candidateIP s\<rparr>,
           (if IpNegotiator.broadcastCallback s
            then [Broadcast ADDRESS_ANNOUNCE
                    (bytes_of_AddressAnnouncePayload
                       \<lparr>AddressAnnouncePayload.ipAddress = htonl (candidateIP s),
                        AddressAnnouncePayload.nodeId = IpNegotiator.localNodeId s\<rparr>) True]
            else [])
           @ (if IpNegotiator.successCallback s
              then [Success (candidateIP s) (IpNegotiator.localNodeId s)] else []))"
    if a: "state s = PROBING" "PROBE_TIMEOUT_MS \<le> duration_cast_ms (now - probeStartTime s)"
      and stale: "\<forall>c \<in> set (collectedConflicts s).
            HEARTBEAT_EXPIRY_MS
              \<le> sint ((word_of_int (duration_cast_ms now) :: int64_t) - ConflictInfo.lastHeartbeatMs c)"
  proof -
    have loop: "checkTimeout_loop ?s now (collectedConflicts s) [] = (True, [])"
      using stale by (rule checkTimeout_loop_stale)
    from a have "\<not> duration_cast_ms (now - probeStartTime s) < PROBE_TIMEOUT_MS" by simp
    with a loop show ?thesis
      by (simp add: checkTimeout_def Let_def sendAddressAnnounce_def)
  qed
  have 2: "\<exists>c \<in> set (collectedConflicts s).
                senderSteamID c = target
                \<and> sint ((word_of_int (duration_cast_ms now) :: int64_t) - ConflictInfo.lastHeartbeatMs c)
                    < HEARTBEAT_EXPIRY_MS
                \<and> hasPriority (IpNegotiator.localNodeId s) (ConflictInfo.nodeId c)"
    if sent: "Send FORCED_RELEASE payload target reliable \<in> set (snd (checkTimeout now now' s))"
    for payload target reliable
  proof -
    obtain canClaim targets
      where loop: "checkTimeout_loop ?s now (collectedConflicts s) [] = (canClaim, targets)"
      by (cases "checkTimeout_loop ?s now (collectedConflicts s) []")
    have run: "state s = PROBING \<and> \<not> duration_cast_ms (now - probeStartTime s) < PROBE_TIMEOUT_MS"
      using sent by (auto simp add: checkTimeout_def Let_def split: if_splits)
    have claim: canClaim
    proof (rule ccontr)
      assume "\<not> canClaim"
      with run loop have "snd (checkTimeout now now' s)
          = snd (startNegotiation now' (?s\<lparr>probeOffset := probeOffset ?s + 1\<rparr>))"
        by (simp add: checkTimeout_def Let_def)
      with sent show False
        by (simp add: startNegotiation_def Let_def sendProbeRequest_def split: if_splits)
    qed
    with run loop sent
    have "Send FORCED_RELEASE payload target reliable
            \<in> set (concat (map (sendForcedRelease ?s (candidateIP ?s)) targets))"
      by (auto simp add: checkTimeout_def Let_def sendAddressAnnounce_def split: if_splits)
    then have "target \<in> set targets" by (rule sendForcedRelease_target)
    with loop have "target \<in> set (snd (checkTimeout_loop ?s now (collectedConflicts s) []))"
      by simp
    from checkTimeout_loop_targets [OF this] show ?thesis by simp
  qed
  from 1 have c1: "state s = PROBING
      \<and> PROBE_TIMEOUT_MS \<le> duration_cast_ms (now - probeStartTime s)
      \<and> (\<forall>c \<in> set (collectedConflicts s).
            HEARTBEAT_EXPIRY_MS
              \<le> sint ((word_of_int (duration_cast_ms now) :: int64_t) - ConflictInfo.lastHeartbeatMs c))
    \<longrightarrow> checkTimeout now now' s =
          (s\<lparr>collectedConflicts := [], state := STABLE, IpNegotiator.localIP := candidateIP s\<rparr>,
           (if IpNegotiator.broadcastCallback s
            then [Broadcast ADDRESS_ANNOUNCE
                    (bytes_of_AddressAnnouncePayload
                       \<lparr>AddressAnnouncePayload.ipAddress = htonl (candidateIP s),
                        AddressAnnouncePayload.nodeId = IpNegotiator.localNodeId s\<rparr>) True]
            else [])
           @ (if IpNegotiator.successCallback s
              then [Success (candidateIP s) (IpNegotiator.localNodeId s)] else []))"
    by blast
  from 2 have c2: "\<forall>payload target reliable.
         Send FORCED_RELEASE payload target reliable \<in> set (snd (checkTimeout now now' s))
         \<longrightarrow> (\<exists>c \<in> set (collectedConflicts s).
                senderSteamID c = target
                \<and> sint ((word_of_int (duration_cast_ms now) :: int64_t) - ConflictInfo.lastHeartbeatMs c)
                    < HEARTBEAT_EXPIRY_MS
                \<and> hasPriority (IpNegotiator.localNodeId s) (ConflictInfo.nodeId c))"
    by blast
  from c1 c2 show ?thesis by (rule conjI)
qed

text \<open>
  C1 at \<open>stale_probe\<close> and at \<open>contested_probe\<close>, 1000 ms after the probe started: the first
  becomes Stable at 10.0.0.9 and makes the two calls; the second also sends one
  FORCED_RELEASE, to peer 4, whose conflict is active (500 ms old) and whose node ID is
  lower, and none to the stale peer 2.
\<close>

theorem checkTimeout_stale_conflicts_witness:
  "checkTimeout 200000000000 200000000000 stale_probe =
     (stale_probe\<lparr>collectedConflicts := [], state := STABLE, IpNegotiator.localIP := 0x0A000009\<rparr>,
      [Broadcast ADDRESS_ANNOUNCE ([10, 0, 0, 9] @ replicate 32 3) True,
       Success 0x0A000009 (replicate 32 3)])
   \<and> snd (checkTimeout 200000000000 200000000000 contested_probe) =
       [Send FORCED_RELEASE ([10, 0, 0, 9] @ replicate 32 3) 4 True,
        Broadcast ADDRESS_ANNOUNCE ([10, 0, 0, 9] @ replicate 32 3) True,
        Success 0x0A000009 (replicate 32 3)]
   \<and> (\<exists>c \<in> set (collectedConflicts contested_probe).
         senderSteamID c = 4
         \<and> sint ((word_of_int (duration_cast_ms 200000000000) :: int64_t) - ConflictInfo.lastHeartbeatMs c)
             < HEARTBEAT_EXPIRY_MS
         \<and> hasPriority (IpNegotiator.localNodeId contested_probe) (ConflictInfo.nodeId c))"
proof -
  have h: "state stale_probe = PROBING
      \<and> PROBE_TIMEOUT_MS \<le> duration_cast_ms (200000000000 - probeStartTime stale_probe)
      \<and> (\<forall>c \<in> set (collectedConflicts stale_probe).
            HEARTBEAT_EXPIRY_MS
              \<le> sint ((word_of_int (duration_cast_ms 200000000000) :: int64_t)
                      - ConflictInfo.lastHeartbeatMs c))"
    by (simp add: stale_probe_def PROBE_TIMEOUT_MS_def HEARTBEAT_EXPIRY_MS_def duration_cast_ms_def
        ticks_per_ms_def)
  have bytes: "bytes_of_AddressAnnouncePayload
                 \<lparr>AddressAnnouncePayload.ipAddress = htonl 0x0A000009,
                  AddressAnnouncePayload.nodeId = replicate 32 3\<rparr> = [10, 0, 0, 9] @ replicate 32 3"
    by (simp add: bytes_of_AddressAnnouncePayload_def bytes_of_uint32_def htonl_def)
  have 1: "checkTimeout 200000000000 200000000000 stale_probe =
     (stale_probe\<lparr>collectedConflicts := [], state := STABLE, IpNegotiator.localIP := 0x0A000009\<rparr>,
      [Broadcast ADDRESS_ANNOUNCE ([10, 0, 0, 9] @ replicate 32 3) True,
       Success 0x0A000009 (replicate 32 3)])"
    using checkTimeout_stale_conflicts [of stale_probe 200000000000 200000000000,
        THEN conjunct1, THEN mp, OF h] bytes
    by (simp add: stale_probe_def)
  have 2: "snd (checkTimeout 200000000000 200000000000 contested_probe) =
       [Send FORCED_RELEASE ([10, 0, 0, 9] @ replicate 32 3) 4 True,
        Broadcast ADDRESS_ANNOUNCE ([10, 0, 0, 9] @ replicate 32 3) True,
        Success 0x0A000009 (replicate 32 3)]"
    by code_simp
  then have sent: "Send FORCED_RELEASE ([10, 0, 0, 9] @ replicate 32 3) 4 True
      \<in> set (snd (checkTimeout 200000000000 200000000000 contested_probe))"
    by simp
  note 3 = checkTimeout_stale_conflicts [of contested_probe 200000000000 200000000000,
        THEN conjunct2, rule_format, OF sent]
  from 1 2 3 show ?thesis by (intro conjI)
qed

text \<open>
  C1 as stated fails: in \<open>stale_probe\<close> the window has elapsed (1000 ms) and the only
  conflict, from peer 2, is stale (200000 ms old); \<open>checkTimeout\<close> makes two calls, the
  ADDRESS_ANNOUNCE broadcast and the success callback, and sends no FORCED_RELEASE to
  peer 2.
\<close>

theorem checkTimeout_stale_counterexample:
  "state stale_probe = PROBING
   \<and> PROBE_TIMEOUT_MS \<le> duration_cast_ms (200000000000 - probeStartTime stale_probe)
   \<and> map senderSteamID (collectedConflicts stale_probe) = [2]
   \<and> HEARTBEAT_EXPIRY_MS \<le> sint ((word_of_int (duration_cast_ms 200000000000) :: int64_t)
         - ConflictInfo.lastHeartbeatMs (hd (collectedConflicts stale_probe)))
   \<and> snd (checkTimeout 200000000000 200000000000 stale_probe) =
        [Broadcast ADDRESS_ANNOUNCE ([10, 0, 0, 9] @ replicate 32 3) True,
         Success 0x0A000009 (replicate 32 3)]
   \<and> Send FORCED_RELEASE
        (bytes_of_ForcedReleasePayload
           \<lparr>ForcedReleasePayload.ipAddress = htonl 0x0A000009, winnerNodeId = replicate 32 3\<rparr>)
        2 True
      \<notin> set (snd (checkTimeout 200000000000 200000000000 stale_probe))"
  by code_simp

section \<open>Incoming PROBE_REQUEST: \<open>handleProbeRequest\<close>\<close>

lemma compare_swap: "compare a b = - compare b a"
  by (induction a b rule: compare.induct) auto

text \<open>
  C2, as the code has it. While the negotiator is Stable, a PROBE_REQUEST for the local IP
  from a requester whose node ID is greater than the local one causes no transition: the
  negotiator is left exactly as it was (state Stable, same local IP, same offset and
  candidate), and the only call is the PROBE_RESPONSE to the requester, made when the send
  callback is installed. A Stable node does go to Probing, with its offset incremented by
  one, on an ADDRESS_ANNOUNCE or a FORCED_RELEASE for its local IP that carries a node ID
  over which the local node ID has no priority.
\<close>

theorem handleProbeRequest_stable_higher:
  "(state s = STABLE
      \<and> ntohl (ProbeRequestPayload.ipAddress request) = IpNegotiator.localIP s
      \<and> compare (ProbeRequestPayload.nodeId request) (IpNegotiator.localNodeId s) > 0
    \<longrightarrow> fst (handleProbeRequest now request sender s) = s
        \<and> state (fst (handleProbeRequest now request sender s)) = STABLE
        \<and> IpNegotiator.localIP (fst (handleProbeRequest now request sender s))
            = IpNegotiator.localIP s
        \<and> snd (handleProbeRequest now request sender s)
            = (if IpNegotiator.sendCallback s
               then [Send PROBE_RESPONSE
                       (bytes_of_ProbeResponsePayload
                          \<lparr>ProbeResponsePayload.ipAddress = htonl (IpNegotiator.localIP s),
                           ProbeResponsePayload.nodeId = IpNegotiator.localNodeId s,
                           lastHeartbeatMs = word_of_int (duration_cast_ms now)\<rparr>)
                       sender True]
               else []))
   \<and> (state s = STABLE
        \<and> ntohl (AddressAnnouncePayload.ipAddress announce) = IpNegotiator.localIP s
        \<and> \<not> hasPriority (IpNegotiator.localNodeId s) (AddressAnnouncePayload.nodeId announce)
      \<longrightarrow> handleAddressAnnounce now announce peer s
            = startNegotiation now (s\<lparr>probeOffset := probeOffset s + 1\<rparr>)
          \<and> state (fst (handleAddressAnnounce now announce peer s)) = PROBING
          \<and> probeOffset (fst (handleAddressAnnounce now announce peer s)) = probeOffset s + 1)
   \<and> (state s = STABLE
        \<and> ntohl (ForcedReleasePayload.ipAddress release) = IpNegotiator.localIP s
        \<and> \<not> hasPriority (IpNegotiator.localNodeId s) (winnerNodeId release)
      \<longrightarrow> handleForcedRelease now release sender s
            = startNegotiation now (s\<lparr>probeOffset := probeOffset s + 1, state := IDLE\<rparr>)
          \<and> state (fst (handleForcedRelease now release sender s)) = PROBING
          \<and> probeOffset (fst (handleForcedRelease now release sender s)) = probeOffset s + 1)"
proof -
  have started: "state (fst (startNegotiation now t)) = PROBING
      \<and> probeOffset (fst (startNegotiation now t)) = probeOffset t" for t
    by (simp add: startNegotiation_def Let_def)
  have 1: "state s = STABLE
      \<and> ntohl (ProbeRequestPayload.ipAddress request) = IpNegotiator.localIP s
      \<and> compare (ProbeRequestPayload.nodeId request) (IpNegotiator.localNodeId s) > 0
    \<longrightarrow> fst (handleProbeRequest now request sender s) = s
        \<and> state (fst (handleProbeRequest now request sender s)) = STABLE
        \<and> IpNegotiator.localIP (fst (handleProbeRequest now request sender s))
            = IpNegotiator.localIP s
        \<and> snd (handleProbeRequest now request sender s)
            = (if IpNegotiator.sendCallback s
               then [Send PROBE_RESPONSE
                       (bytes_of_ProbeResponsePayload
                          \<lparr>ProbeResponsePayload.ipAddress = htonl (IpNegotiator.localIP s),
                           ProbeResponsePayload.nodeId = IpNegotiator.localNodeId s,
                           lastHeartbeatMs = word_of_int (duration_cast_ms now)\<rparr>)
                       sender True]
               else [])"
    by (simp add: handleProbeRequest_def Let_def)
  have 2: "state s = STABLE
        \<and> ntohl (AddressAnnouncePayload.ipAddress announce) = IpNegotiator.localIP s
        \<and> \<not> hasPriority (IpNegotiator.localNodeId s) (AddressAnnouncePayload.nodeId announce)
      \<longrightarrow> handleAddressAnnounce now announce peer s
            = startNegotiation now (s\<lparr>probeOffset := probeOffset s + 1\<rparr>)
          \<and> state (fst (handleAddressAnnounce now announce peer s)) = PROBING
          \<and> probeOffset (fst (handleAddressAnnounce now announce peer s)) = probeOffset s + 1"
    using started [of "s\<lparr>probeOffset := probeOffset s + 1\<rparr>"]
    by (simp add: handleAddressAnnounce_def Let_def)
  have 3: "state s = STABLE
        \<and> ntohl (ForcedReleasePayload.ipAddress release) = IpNegotiator.localIP s
        \<and> \<not> hasPriority (IpNegotiator.localNodeId s) (winnerNodeId release)
      \<longrightarrow> handleForcedRelease now release sender s
            = startNegotiation now (s\<lparr>probeOffset := probeOffset s + 1, state := IDLE\<rparr>)
          \<and> state (fst (handleForcedRelease now release sender s)) = PROBING
          \<and> probeOffset (fst (handleForcedRelease now release sender s)) = probeOffset s + 1"
    using started [of "s\<lparr>probeOffset := probeOffset s + 1, state := IDLE\<rparr>"]
    by (simp add: handleForcedRelease_def Let_def)
  from 1 2 3 show ?thesis by (intro conjI)
qed

text \<open>
  C2 at \<open>stable_owner\<close>, which holds 10.0.0.5 with node ID 01 ... 01, for messages with the
  greater node ID 02 ... 02: the PROBE_REQUEST is answered and changes nothing; the
  ADDRESS_ANNOUNCE and the FORCED_RELEASE each send the node to Probing with offset 1.
\<close>

theorem handleProbeRequest_stable_higher_witness:
  "state stable_owner = STABLE
   \<and> compare (ProbeRequestPayload.nodeId (probe_from (replicate 32 2))) (IpNegotiator.localNodeId stable_owner) > 0
   \<and> handleProbeRequest 1000000000 (probe_from (replicate 32 2)) 2 stable_owner
       = (stable_owner,
          [Send PROBE_RESPONSE ([10, 0, 0, 5] @ replicate 32 1 @ [232, 3, 0, 0, 0, 0, 0, 0]) 2 True])
   \<and> state (fst (handleAddressAnnounce 1000000000 (announce_from (replicate 32 2)) 2 stable_owner))
       = PROBING
   \<and> probeOffset (fst (handleAddressAnnounce 1000000000 (announce_from (replicate 32 2)) 2
                          stable_owner)) = 1
   \<and> state (fst (handleForcedRelease 1000000000 (release_from (replicate 32 2)) 2 stable_owner))
       = PROBING
   \<and> probeOffset (fst (handleForcedRelease 1000000000 (release_from (replicate 32 2)) 2
                          stable_owner)) = 1"
proof -
  note t = handleProbeRequest_stable_higher [where s = stable_owner and now = 1000000000
      and sender = 2 and peer = 2 and request = "probe_from (replicate 32 2)"
      and announce = "announce_from (replicate 32 2)" and release = "release_from (replicate 32 2)"]
  have st: "state stable_owner = STABLE" "probeOffset stable_owner = 0"
    by (simp_all add: stable_owner_def)
  have cmp: "compare (ProbeRequestPayload.nodeId (probe_from (replicate 32 2)))
               (IpNegotiator.localNodeId stable_owner) > 0"
    by code_simp
  have h1: "state stable_owner = STABLE
      \<and> ntohl (ProbeRequestPayload.ipAddress (probe_from (replicate 32 2)))
          = IpNegotiator.localIP stable_owner
      \<and> compare (ProbeRequestPayload.nodeId (probe_from (replicate 32 2)))
          (IpNegotiator.localNodeId stable_owner) > 0"
    by code_simp
  have h2: "state stable_owner = STABLE
      \<and> ntohl (AddressAnnouncePayload.ipAddress (announce_from (replicate 32 2)))
          = IpNegotiator.localIP stable_owner
      \<and> \<not> hasPriority (IpNegotiator.localNodeId stable_owner)
            (AddressAnnouncePayload.nodeId (announce_from (replicate 32 2)))"
    by code_simp
  have h3: "state stable_owner = STABLE
      \<and> ntohl (ForcedReleasePayload.ipAddress (release_from (replicate 32 2)))
          = IpNegotiator.localIP stable_owner
      \<and> \<not> hasPriority (IpNegotiator.localNodeId stable_owner)
            (winnerNodeId (release_from (replicate 32 2)))"
    by code_simp
  have cb: "IpNegotiator.sendCallback stable_owner" by (simp add: stable_owner_def)
  have bytes: "bytes_of_ProbeResponsePayload
                 \<lparr>ProbeResponsePayload.ipAddress = htonl (IpNegotiator.localIP stable_owner),
                  ProbeResponsePayload.nodeId = IpNegotiator.localNodeId stable_owner,
                  lastHeartbeatMs = word_of_int (duration_cast_ms 1000000000)\<rparr>
               = [10, 0, 0, 5] @ replicate 32 1 @ [232, 3, 0, 0, 0, 0, 0, 0]"
    by code_simp
  from t [THEN conjunct1, THEN mp, OF h1] cb bytes
  have 1: "handleProbeRequest 1000000000 (probe_from (replicate 32 2)) 2 stable_owner
       = (stable_owner,
          [Send PROBE_RESPONSE ([10, 0, 0, 5] @ replicate 32 1 @ [232, 3, 0, 0, 0, 0, 0, 0]) 2 True])"
    by (simp add: prod_eq_iff)
  note a = t [THEN conjunct2, THEN conjunct1, THEN mp, OF h2, THEN conjunct2]
  have 2: "state (fst (handleAddressAnnounce 1000000000 (announce_from (replicate 32 2)) 2 stable_owner))
       = PROBING"
    "probeOffset (fst (handleAddressAnnounce 1000000000 (announce_from (replicate 32 2)) 2
                          stable_owner)) = 1"
    using a st(2) by simp_all
  note r = t [THEN conjunct2, THEN conjunct2, THEN mp, OF h3, THEN conjunct2]
  have 3: "state (fst (handleForcedRelease 1000000000 (release_from (replicate 32 2)) 2 stable_owner))
       = PROBING"
    "probeOffset (fst (handleForcedRelease 1000000000 (release_from (replicate 32 2)) 2
                          stable_owner)) = 1"
    using r st(2) by simp_all
  from st(1) cmp 1 2 3 show ?thesis by (intro conjI)
qed

text \<open>
  C2 as stated fails: \<open>stable_owner\<close> receives a PROBE_REQUEST for its own address
  10.0.0.5 from the greater node ID 02 02 ... 02 and is not in state Probing afterwards.
\<close>

theorem handleProbeRequest_stable_counterexample:
  "state stable_owner = STABLE
   \<and> ntohl (ProbeRequestPayload.ipAddress (probe_from (replicate 32 2)))
       = IpNegotiator.localIP stable_owner
   \<and> compare (ProbeRequestPayload.nodeId (probe_from (replicate 32 2))) (IpNegotiator.localNodeId stable_owner) > 0
   \<and> state (fst (handleProbeRequest 1000000000 (probe_from (replicate 32 2)) 2 stable_owner)) \<noteq> PROBING"
  by code_simp

text \<open>
  C7, as the code has it, with the send callback installed. (1) Stable and the requested IP
  is the local IP: the negotiator is unchanged and sends the requester one PROBE_RESPONSE
  with its own IP, its node ID and the current clock reading in milliseconds, whatever the
  requester's node ID. (2) Probing and the requested IP is the candidate, the requester's node ID being
  greater than or equal to the local one: the offset is incremented and the negotiation is
  restarted; every call made is a PROBE_REQUEST broadcast, so no PROBE_RESPONSE is sent.
  (3) Probing, same candidate, the local node ID strictly greater: the negotiator is
  unchanged (it keeps its candidate) and sends one PROBE_RESPONSE for the candidate.
\<close>

theorem handleProbeRequest_cases:
  assumes "IpNegotiator.sendCallback s"
  shows "(state s = STABLE \<and> ntohl (ProbeRequestPayload.ipAddress request) = IpNegotiator.localIP s
          \<longrightarrow> handleProbeRequest now request sender s
                = (s, [Send PROBE_RESPONSE
                     (bytes_of_ProbeResponsePayload
                        \<lparr>ProbeResponsePayload.ipAddress = htonl (IpNegotiator.localIP s),
                         ProbeResponsePayload.nodeId = IpNegotiator.localNodeId s,
                         lastHeartbeatMs = word_of_int (duration_cast_ms now)\<rparr>)
                     sender True]))
       \<and> (state s = PROBING \<and> ntohl (ProbeRequestPayload.ipAddress request) = candidateIP s
            \<and> compare (ProbeRequestPayload.nodeId request) (IpNegotiator.localNodeId s) \<ge> 0
          \<longrightarrow> handleProbeRequest now request sender s
                = startNegotiation now (s\<lparr>probeOffset := probeOffset s + 1\<rparr>)
              \<and> probeOffset (fst (handleProbeRequest now request sender s)) = probeOffset s + 1
              \<and> state (fst (handleProbeRequest now request sender s)) = PROBING
              \<and> (\<forall>c \<in> set (snd (handleProbeRequest now request sender s)).
                    \<exists>payload. c = Broadcast PROBE_REQUEST payload True))
       \<and> (state s = PROBING \<and> ntohl (ProbeRequestPayload.ipAddress request) = candidateIP s
            \<and> compare (IpNegotiator.localNodeId s) (ProbeRequestPayload.nodeId request) > 0
          \<longrightarrow> handleProbeRequest now request sender s
                = (s, [Send PROBE_RESPONSE
                     (bytes_of_ProbeResponsePayload
                        \<lparr>ProbeResponsePayload.ipAddress = htonl (candidateIP s),
                         ProbeResponsePayload.nodeId = IpNegotiator.localNodeId s,
                         lastHeartbeatMs = word_of_int (duration_cast_ms now)\<rparr>)
                     sender True]))"
proof -
  have "compare (ProbeRequestPayload.nodeId request) (IpNegotiator.localNodeId s) \<ge> 0
        \<longleftrightarrow> \<not> hasPriority (IpNegotiator.localNodeId s) (ProbeRequestPayload.nodeId request)"
    using compare_swap [of "IpNegotiator.localNodeId s" "ProbeRequestPayload.nodeId request"]
    by (auto simp add: hasPriority_def)
  with assms show ?thesis
    by (auto simp add: handleProbeRequest_def Let_def hasPriority_def startNegotiation_def
        sendProbeRequest_def)
qed

theorem handleProbeRequest_cases_witness:
  "IpNegotiator.sendCallback stable_owner \<and> IpNegotiator.sendCallback probing_node
   \<and> handleProbeRequest 1000000000 (probe_from (replicate 32 2)) 2 stable_owner
       = (stable_owner,
          [Send PROBE_RESPONSE ([10, 0, 0, 5] @ replicate 32 1 @ [232, 3, 0, 0, 0, 0, 0, 0]) 2 True])
   \<and> probeOffset (fst (handleProbeRequest 1000000000 (probe_from (replicate 32 2)) 2 probing_node)) = 1
   \<and> handleProbeRequest 1000000000 (probe_from (replicate 32 0)) 2 probing_node
       = (probing_node,
          [Send PROBE_RESPONSE ([10, 0, 0, 5] @ replicate 32 1 @ [232, 3, 0, 0, 0, 0, 0, 0]) 2 True])"
proof -
  have cb: "IpNegotiator.sendCallback stable_owner" "IpNegotiator.sendCallback probing_node"
    by (simp_all add: stable_owner_def probing_node_def)
  have ip: "ntohl (ProbeRequestPayload.ipAddress (probe_from n)) = 0x0A000005" for n
    by (simp add: probe_from_def ntohl_def htonl_def)
  have st: "state stable_owner = STABLE" "IpNegotiator.localIP stable_owner = 0x0A000005"
    "state probing_node = PROBING" "candidateIP probing_node = 0x0A000005"
    "probeOffset probing_node = 0"
    "IpNegotiator.localNodeId stable_owner = replicate 32 1" "IpNegotiator.localNodeId probing_node = replicate 32 1"
    by (simp_all add: stable_owner_def probing_node_def)
  have cmp: "compare (ProbeRequestPayload.nodeId (probe_from (replicate 32 2))) (replicate 32 1) \<ge> 0"
    "compare (replicate 32 1) (ProbeRequestPayload.nodeId (probe_from (replicate 32 0))) > 0"
    by code_simp+
  have bytes: "bytes_of_ProbeResponsePayload
                 \<lparr>ProbeResponsePayload.ipAddress = htonl 0x0A000005,
                  ProbeResponsePayload.nodeId = replicate 32 1,
                  lastHeartbeatMs = word_of_int (duration_cast_ms 1000000000)\<rparr>
               = [10, 0, 0, 5] @ replicate 32 1 @ [232, 3, 0, 0, 0, 0, 0, 0]"
    by code_simp
  have stable: "handleProbeRequest 1000000000 (probe_from (replicate 32 2)) 2 stable_owner
       = (stable_owner,
          [Send PROBE_RESPONSE ([10, 0, 0, 5] @ replicate 32 1 @ [232, 3, 0, 0, 0, 0, 0, 0]) 2 True])"
    using handleProbeRequest_cases [OF cb(1), of "probe_from (replicate 32 2)" 1000000000 2]
      ip st bytes by simp
  have yield: "probeOffset (fst (handleProbeRequest 1000000000 (probe_from (replicate 32 2)) 2 probing_node)) = 1"
  proof -
    have pre: "state probing_node = PROBING
        \<and> ntohl (ProbeRequestPayload.ipAddress (probe_from (replicate 32 2))) = candidateIP probing_node
        \<and> compare (ProbeRequestPayload.nodeId (probe_from (replicate 32 2))) (IpNegotiator.localNodeId probing_node) \<ge> 0"
      using ip st cmp(1) by simp
    note second = handleProbeRequest_cases [OF cb(2), of "probe_from (replicate 32 2)" 1000000000 2,
        THEN conjunct2, THEN conjunct1]
    from mp [OF second pre]
    have "probeOffset (fst (handleProbeRequest 1000000000 (probe_from (replicate 32 2)) 2 probing_node))
          = probeOffset probing_node + 1"
      by (rule conjunct1 [OF conjunct2])
    with st show ?thesis by simp
  qed
  have defend: "handleProbeRequest 1000000000 (probe_from (replicate 32 0)) 2 probing_node
       = (probing_node,
          [Send PROBE_RESPONSE ([10, 0, 0, 5] @ replicate 32 1 @ [232, 3, 0, 0, 0, 0, 0, 0]) 2 True])"
    using handleProbeRequest_cases [OF cb(2), of "probe_from (replicate 32 0)" 1000000000 2]
      ip st cmp(2) bytes by simp
  from cb stable yield defend show ?thesis by simp
qed

text \<open>
  C7 as stated fails on a tie: \<open>probing_node\<close> receives a PROBE_REQUEST for its candidate
  10.0.0.5 from a requester whose node ID equals its own, so the requester's node ID is
  not higher; the node does not keep its candidate (it moves to 10.0.0.9) and the only call
  it makes is a PROBE_REQUEST broadcast, not a PROBE_RESPONSE.
\<close>

theorem handleProbeRequest_tie_counterexample:
  "state probing_node = PROBING
   \<and> ntohl (ProbeRequestPayload.ipAddress (probe_from (replicate 32 1))) = candidateIP probing_node
   \<and> \<not> compare (ProbeRequestPayload.nodeId (probe_from (replicate 32 1))) (IpNegotiator.localNodeId probing_node) > 0
   \<and> candidateIP probing_node = 0x0A000005
   \<and> candidateIP (fst (handleProbeRequest 1000000000 (probe_from (replicate 32 1)) 2 probing_node))
       = 0x0A000009
   \<and> snd (handleProbeRequest 1000000000 (probe_from (replicate 32 1)) 2 probing_node)
       = [Broadcast PROBE_REQUEST ([10, 0, 0, 9] @ replicate 32 1) True]"
  by code_simp

section \<open>Candidate generation and the availability scan\<close>

lemma findNextAvailableIP_loop_attempts:
  "attempts \<le> maxHosts s \<Longrightarrow> snd (findNextAvailableIP_loop s hostPart potentialIP attempts) \<le> maxHosts s"
proof (induction s hostPart potentialIP attempts rule: findNextAvailableIP_loop.induct)
  case (1 s hostPart potentialIP attempts)
  show ?case
  proof (cases "potentialIP \<in> usedIPs s \<and> attempts < maxHosts s")
    case True
    then have "attempts + 1 \<le> maxHosts s"
      by (simp add: inc_le)
    with True "1.IH" show ?thesis
      by (subst findNextAvailableIP_loop.simps) simp
  next
    case False
    with "1.prems" show ?thesis
      by (subst findNextAvailableIP_loop.simps) auto
  qed
qed

lemma scan_order_0:
  assumes "1 \<le> unat hp" "unat hp \<le> M"
  shows "scan_order net M (unat hp) 0 = net OR hp"
proof -
  from assms have "(unat hp - 1 + 0) mod M + 1 = unat hp" by simp
  then have "(word_of_nat ((unat hp - 1 + 0) mod M + 1) :: uint32_t) = word_of_nat (unat hp)"
    by (simp only:)
  moreover have "(word_of_nat (unat hp) :: uint32_t) = hp" by simp
  ultimately show ?thesis
    unfolding scan_order_def by (simp only:)
qed

lemma scan_order_shift:
  assumes "1 \<le> n" "m = n mod M + 1"
  shows "scan_order net M m j = scan_order net M n (Suc j)"
proof -
  have "(n mod M + j) mod M = (n + j) mod M"
    by (simp add: mod_add_left_eq)
  moreover have "n - 1 + Suc j = n + j"
    using assms(1) by simp
  moreover have "m - 1 + j = n mod M + j"
    using assms(2) by simp
  ultimately have "(m - 1 + j) mod M + 1 = (n - 1 + Suc j) mod M + 1"
    by (simp only:)
  then show ?thesis
    unfolding scan_order_def by (simp only:)
qed

lemma next_hostPart:
  assumes "2 \<le> unat (hostMask s)" "1 \<le> unat hp" "unat hp \<le> unat (maxHosts s)"
  shows "unat (if hostMask s \<le> hp + 1 then 1 else hp + 1) = unat hp mod unat (maxHosts s) + 1"
proof -
  have nz: "hostMask s - 1 \<noteq> 0"
    using assms(1) by (metis One_nat_def Suc_1 Suc_n_not_le_n right_minus_eq unat_1)
  have hm0: "hostMask s \<noteq> 0" using assms(1) by auto
  have M: "unat (maxHosts s) = unat (hostMask s) - 1"
    using nz hm0 by (simp add: maxHosts_def Let_def unat_minus_one)
  have lt: "unat hp + 1 < 2 ^ 32"
    using assms(3) M unsigned_less [of "hostMask s", where 'a = nat] by simp
  then have u: "unat (hp + 1) = unat hp + 1"
    by (simp add: unat_word_ariths)
  show ?thesis
  proof (cases "hostMask s \<le> hp + 1")
    case True
    then have "unat (hostMask s) \<le> unat hp + 1" using u by (simp add: word_le_nat_alt)
    with assms M have "unat hp = unat (maxHosts s)" by simp
    with True show ?thesis by simp
  next
    case False
    then have "unat hp + 1 < unat (hostMask s)" using u by (simp add: word_le_nat_alt)
    with M have "unat hp < unat (maxHosts s)" by simp
    with False u show ?thesis by simp
  qed
qed

lemma findNextAvailableIP_loop_first_free:
  assumes "2 \<le> unat (hostMask s)"
  shows "1 \<le> unat hp \<Longrightarrow> unat hp \<le> unat (maxHosts s)
    \<Longrightarrow> ip = (IpNegotiator.baseIP s AND IpNegotiator.subnetMask s) OR hp
    \<Longrightarrow> unat a + k \<le> unat (maxHosts s)
    \<Longrightarrow> \<forall>j<k. scan_order (IpNegotiator.baseIP s AND IpNegotiator.subnetMask s) (unat (maxHosts s)) (unat hp) j \<in> usedIPs s
    \<Longrightarrow> scan_order (IpNegotiator.baseIP s AND IpNegotiator.subnetMask s) (unat (maxHosts s)) (unat hp) k \<notin> usedIPs s
    \<Longrightarrow> findNextAvailableIP_loop s hp ip a
        = (scan_order (IpNegotiator.baseIP s AND IpNegotiator.subnetMask s) (unat (maxHosts s)) (unat hp) k, a + word_of_nat k)"
proof (induction k arbitrary: hp ip a)
  case 0
  have "scan_order (IpNegotiator.baseIP s AND IpNegotiator.subnetMask s) (unat (maxHosts s)) (unat hp) 0 = ip"
    using "0.prems"(1,2,3) by (simp only: scan_order_0)
  with "0.prems"(6) show ?case
    by (subst findNextAvailableIP_loop.simps) simp
next
  case (Suc k)
  let ?net = "IpNegotiator.baseIP s AND IpNegotiator.subnetMask s"
  let ?M = "unat (maxHosts s)"
  let ?hp' = "if hostMask s \<le> hp + 1 then 1 else hp + 1"
  have hp': "unat ?hp' = unat hp mod ?M + 1"
    using assms Suc.prems(1,2) by (rule next_hostPart)
  have Mpos: "0 < ?M" using Suc.prems(1,2) by simp
  have "scan_order ?net ?M (unat hp) 0 \<in> usedIPs s"
    using Suc.prems(5) by simp
  then have used: "ip \<in> usedIPs s"
    using Suc.prems(1,2,3) by (simp only: scan_order_0)
  have alt: "a < maxHosts s"
    using Suc.prems(4) by (simp add: word_less_nat_alt)
  have "unat a + 1 < 2 ^ 32"
    using Suc.prems(4) unsigned_less [of "maxHosts s", where 'a = nat] by simp
  then have a1: "unat (a + 1) = unat a + 1"
    by (simp add: unat_word_ariths)
  have shift: "scan_order ?net ?M (unat ?hp') j = scan_order ?net ?M (unat hp) (Suc j)" for j
    using Suc.prems(1) hp' by (rule scan_order_shift)
  have lt: "unat hp mod ?M < ?M" using Mpos by simp
  have IH: "findNextAvailableIP_loop s ?hp' (?net OR ?hp') (a + 1)
        = (scan_order ?net ?M (unat ?hp') k, a + 1 + word_of_nat k)"
  proof (rule Suc.IH)
    show "1 \<le> unat ?hp'" unfolding hp' by simp
    show "unat ?hp' \<le> ?M" unfolding hp' using lt by simp
    show "?net OR ?hp' = ?net OR ?hp'" ..
    show "unat (a + 1) + k \<le> ?M" unfolding a1 using Suc.prems(4) by simp
    show "\<forall>j<k. scan_order ?net ?M (unat ?hp') j \<in> usedIPs s"
      unfolding shift using Suc.prems(5) by simp
    show "scan_order ?net ?M (unat ?hp') k \<notin> usedIPs s"
      unfolding shift using Suc.prems(6) by simp
  qed
  have step: "findNextAvailableIP_loop s hp ip a = findNextAvailableIP_loop s ?hp' (?net OR ?hp') (a + 1)"
    using used alt by (subst findNextAvailableIP_loop.simps) (simp only: simp_thms if_True)
  have "a + 1 + word_of_nat k = a + word_of_nat (Suc k)"
    by simp
  with step IH shift [of k] show ?case
    by (simp only:)
qed

lemma unat_mask32: "h \<le> 32 \<Longrightarrow> unat (mask h :: 32 word) = 2 ^ h - 1"
proof -
  assume h: "h \<le> 32"
  have "uint (mask h :: 32 word) = mask h"
    using h by (simp add: uint_mask_eq min_def)
  then have "unat (mask h :: 32 word) = nat (mask h)"
    by (simp add: unat_eq_nat_uint)
  also have "\<dots> = 2 ^ h - 1"
    by (simp add: mask_eq_exp_minus_1 nat_diff_distrib nat_power_eq)
  finally show ?thesis .
qed

lemma unat_and_0xFFFFFF: "unat (x AND 0x00FFFFFF :: uint32_t) = unat x mod 2 ^ 24"
proof -
  have "(0x00FFFFFF :: 32 word) = mask 24"
    by (simp add: mask_eq_exp_minus_1)
  then have "x AND 0x00FFFFFF = take_bit 24 x"
    by (simp add: take_bit_eq_mask)
  then have "unat (x AND 0x00FFFFFF) = unat (take_bit 24 x)"
    by (simp only:)
  also have "\<dots> = take_bit 24 (unat x)"
    by (rule unsigned_take_bit_eq)
  also have "\<dots> = unat x mod 2 ^ 24"
    by (rule take_bit_eq_mod)
  finally show ?thesis .
qed

lemma host_part_of_or: "unat (x :: 32 word) < 2 ^ h \<Longrightarrow> (a AND NOT (mask h) OR x) AND mask h = x"
proof -
  assume "unat x < 2 ^ h"
  then have "x AND mask h = x"
  by (metis mask_eq_iff of_nat_less_numeral_power_cancel_iff
    of_nat_unat)
  moreover have "(a AND NOT (mask h)) AND (mask h :: 32 word) = 0"
    by (simp add: and.assoc)
  ultimately show ?thesis
    by (simp add: word_ao_dist)
qed

lemma contiguous_mask:
  assumes "IpNegotiator.subnetMask s = NOT (mask h)" "2 \<le> h" "h \<le> 32"
  shows "hostMask s = mask h"
    and "unat (hostMask s) = 2 ^ h - 1"
    and "unat (maxHosts s) = host_count h"
    and "2 \<le> unat (hostMask s)"
    and "1 \<le> host_count h"
proof -
  show hm: "hostMask s = mask h"
    using assms(1) by (simp add: hostMask_def)
  show u: "unat (hostMask s) = 2 ^ h - 1"
    using hm assms(3) by (simp add: unat_mask32)
  have "(2::nat) ^ 2 \<le> 2 ^ h"
    using assms(2) by (rule power_increasing) simp
  then have four: "(4::nat) \<le> 2 ^ h" by simp
  then show two: "2 \<le> unat (hostMask s)" using u by simp
  from four show "1 \<le> host_count h" by (simp add: host_count_def)
  have nz: "hostMask s \<noteq> 0" using two by auto
  then have u1: "unat (hostMask s - 1) = unat (hostMask s) - 1"
    by (rule unat_minus_one)
  then have "unat (hostMask s - 1) \<noteq> 0" using two by simp
  then have "hostMask s - 1 \<noteq> 0" by auto
  then have "maxHosts s = hostMask s - 1"
    by (simp add: maxHosts_def Let_def)
  then show "unat (maxHosts s) = host_count h"
    using u1 u by (simp add: host_count_def)
qed

lemma generateCandidateIP_hostPart:
  assumes "IpNegotiator.subnetMask s = NOT (mask h)" "2 \<le> h" "h \<le> 32"
  shows "\<exists>hostPart. generateCandidateIP s offset
            = (IpNegotiator.baseIP s AND IpNegotiator.subnetMask s) OR hostPart
          \<and> unat hostPart = seed_host (IpNegotiator.localNodeId s) offset h"
proof -
  let ?hash = "(lo24 (IpNegotiator.localNodeId s) + offset) AND 0x00FFFFFF"
  let ?hostPart = "?hash mod maxHosts s + 1"
  note c = contiguous_mask [OF assms]
  have "unat ?hash = unat (lo24 (IpNegotiator.localNodeId s) + offset) mod 2 ^ 24"
    by (rule unat_and_0xFFFFFF)
  also have "\<dots> = ((unat (lo24 (IpNegotiator.localNodeId s)) + unat offset) mod 2 ^ 32) mod 2 ^ 24"
    by (simp add: unat_word_ariths)
  also have "\<dots> = (unat (lo24 (IpNegotiator.localNodeId s)) + unat offset) mod 2 ^ 24"
    by (simp add: mod_mod_cancel)
  finally have hash: "unat ?hash = (unat (lo24 (IpNegotiator.localNodeId s)) + unat offset) mod 2 ^ 24" .
  have m: "unat (?hash mod maxHosts s) = unat ?hash mod host_count h"
    using c(3) by (simp add: unat_mod)
  have "unat ?hash mod host_count h < host_count h"
    using c(5) by simp
  moreover have "host_count h < 2 ^ 32 - 1"
    using c(3) [symmetric] c(2) unsigned_less [of "hostMask s", where 'a = nat]
    by (simp add: host_count_def)
  ultimately have "unat (?hash mod maxHosts s) + 1 < 2 ^ 32"
    using m by simp
  then have "unat ?hostPart = unat (?hash mod maxHosts s) + 1"
    by (simp add: unat_word_ariths)
  with m hash have "unat ?hostPart = seed_host (IpNegotiator.localNodeId s) offset h"
    by (simp add: seed_host_def)
  moreover have "generateCandidateIP s offset
            = (IpNegotiator.baseIP s AND IpNegotiator.subnetMask s) OR ?hostPart"
    by (simp add: generateCandidateIP_def Let_def)
  ultimately show ?thesis by blast
qed

lemma seed_host_range:
  assumes "2 \<le> h"
  shows "1 \<le> seed_host n offset h" "seed_host n offset h \<le> host_count h" "seed_host n offset h < 2 ^ h"
proof -
  have "(2::nat) ^ 2 \<le> 2 ^ h"
    using assms by (rule power_increasing) simp
  then have four: "(4::nat) \<le> 2 ^ h" by simp
  then have pos: "0 < host_count h" by (simp add: host_count_def)
  show "1 \<le> seed_host n offset h" by (simp add: seed_host_def)
  have "((unat (lo24 n) + unat offset) mod 2 ^ 24) mod host_count h < host_count h"
    using pos by simp
  then show le: "seed_host n offset h \<le> host_count h" by (simp add: seed_host_def)
  then show "seed_host n offset h < 2 ^ h" using four by (simp add: host_count_def)
qed

text \<open>
  C6, as the code has it, for a subnet mask with \<open>h\<close> host bits, \<open>2 \<le> h \<le> 32\<close>, every
  offset and every UsedIPSet. (1) The host part of the address that \<open>generateCandidateIP\<close>
  returns is \<open>(((lo24(node_id) + offset) mod 2^24) mod host_count) + 1\<close>: the sum is cut to
  24 bits before it is reduced modulo \<open>host_count = 2^h - 2\<close>. (2) If the \<open>k\<close>-th address
  forward from that seed (wrapping from the top host back to host 1) is the first one not
  in UsedIPSet, for some \<open>k < host_count\<close>, then \<open>findNextAvailableIP\<close> returns it, after
  \<open>k\<close> increments of \<open>attempts\<close>. (3) \<open>attempts\<close> never exceeds \<open>host_count\<close>.
\<close>

theorem candidate_selection:
  assumes "IpNegotiator.subnetMask s = NOT (mask h)" and "2 \<le> h" and "h \<le> 32"
  shows "unat (generateCandidateIP s offset AND NOT (IpNegotiator.subnetMask s))
           = seed_host (IpNegotiator.localNodeId s) offset h
    \<and> (\<forall>k < host_count h.
          (\<forall>j<k. scan_order (IpNegotiator.baseIP s AND IpNegotiator.subnetMask s) (host_count h)
                   (seed_host (IpNegotiator.localNodeId s) offset h) j \<in> usedIPs s)
          \<and> scan_order (IpNegotiator.baseIP s AND IpNegotiator.subnetMask s) (host_count h)
               (seed_host (IpNegotiator.localNodeId s) offset h) k \<notin> usedIPs s
          \<longrightarrow> findNextAvailableIP_scan s (generateCandidateIP s offset)
               = (scan_order (IpNegotiator.baseIP s AND IpNegotiator.subnetMask s) (host_count h)
                    (seed_host (IpNegotiator.localNodeId s) offset h) k, word_of_nat k))
    \<and> unat (snd (findNextAvailableIP_scan s (generateCandidateIP s offset))) \<le> host_count h"
proof -
  let ?net = "IpNegotiator.baseIP s AND IpNegotiator.subnetMask s"
  let ?seed = "seed_host (IpNegotiator.localNodeId s) offset h"
  note c = contiguous_mask [OF assms]
  note r = seed_host_range [OF assms(2), of "IpNegotiator.localNodeId s" offset]
  from generateCandidateIP_hostPart [OF assms, of offset]
  obtain hostPart where gen: "generateCandidateIP s offset = ?net OR hostPart"
    and hp: "unat hostPart = ?seed"
    by blast
  have and_hm: "generateCandidateIP s offset AND hostMask s = hostPart"
    using r(3) hp c(1) assms(1) gen by (simp add: host_part_of_or)
  then have part1: "unat (generateCandidateIP s offset AND NOT (IpNegotiator.subnetMask s)) = ?seed"
    using hp by (simp add: hostMask_def)
  have nz: "hostPart \<noteq> 0"
    using r(1) hp by auto
  have "unat hostPart < unat (hostMask s)"
    using r(2) hp c(2) c(5) by (simp add: host_count_def)
  then have lt: "\<not> hostMask s \<le> hostPart"
    by (simp add: word_le_nat_alt)
  have scan: "findNextAvailableIP_scan s (generateCandidateIP s offset)
              = findNextAvailableIP_loop s hostPart (?net OR hostPart) 0"
    using and_hm nz lt by (simp add: findNextAvailableIP_scan_def Let_def)
  have part2: "findNextAvailableIP_scan s (generateCandidateIP s offset)
               = (scan_order ?net (host_count h) ?seed k, word_of_nat k)"
    if "k < host_count h"
      and "\<forall>j<k. scan_order ?net (host_count h) ?seed j \<in> usedIPs s"
      and "scan_order ?net (host_count h) ?seed k \<notin> usedIPs s" for k
  proof -
    have "findNextAvailableIP_loop s hostPart (?net OR hostPart) 0
          = (scan_order ?net (unat (maxHosts s)) (unat hostPart) k, 0 + word_of_nat k)"
    proof (rule findNextAvailableIP_loop_first_free [OF c(4)])
      show "1 \<le> unat hostPart" using r(1) hp by simp
      show "unat hostPart \<le> unat (maxHosts s)" using r(2) hp c(3) by simp
      show "?net OR hostPart = ?net OR hostPart" ..
      show "unat (0 :: uint32_t) + k \<le> unat (maxHosts s)" using that(1) c(3) by simp
      show "\<forall>j<k. scan_order ?net (unat (maxHosts s)) (unat hostPart) j \<in> usedIPs s"
        using that(2) hp c(3) by simp
      show "scan_order ?net (unat (maxHosts s)) (unat hostPart) k \<notin> usedIPs s"
        using that(3) hp c(3) by simp
    qed
    with scan hp c(3) show ?thesis by simp
  qed
  have "snd (findNextAvailableIP_loop s hostPart (?net OR hostPart) 0) \<le> maxHosts s"
    by (rule findNextAvailableIP_loop_attempts) simp
  then have part3: "unat (snd (findNextAvailableIP_scan s (generateCandidateIP s offset))) \<le> host_count h"
    using scan c(3) by (simp add: word_le_nat_alt)
  from part1 part2 part3 show ?thesis by blast
qed

theorem candidate_selection_witness:
  "IpNegotiator.subnetMask scan_example = NOT (mask 8)
   \<and> unat (generateCandidateIP scan_example 1 AND NOT (IpNegotiator.subnetMask scan_example)) = 9
   \<and> findNextAvailableIP_scan scan_example (generateCandidateIP scan_example 1) = (0x0A00000A, 1)"
proof -
  have m: "IpNegotiator.subnetMask scan_example = NOT (mask 8)"
    by (simp add: scan_example_def probing_node_def stable_owner_def mask_eq_exp_minus_1)
  have h: "(2::nat) \<le> 8" "(8::nat) \<le> 32" by simp_all
  have seed: "seed_host (IpNegotiator.localNodeId scan_example) 1 8 = 9"
    by (simp add: seed_host_def host_count_def lo24_def NODE_ID_SIZE_def scan_example_def
        probing_node_def stable_owner_def)
  have net: "IpNegotiator.baseIP scan_example AND IpNegotiator.subnetMask scan_example = 0x0A000000"
    by (simp add: scan_example_def probing_node_def stable_owner_def)
  have used: "usedIPs scan_example = {0x0A000009}"
    by (simp add: scan_example_def)
  have hc: "host_count 8 = 254" by (simp add: host_count_def)
  have k: "(1::nat) < host_count 8" by (simp add: hc)
  have s0: "scan_order 0x0A000000 254 9 0 = 0x0A000009" by (simp add: scan_order_def)
  have s1: "scan_order 0x0A000000 254 9 1 = 0x0A00000A" by (simp add: scan_order_def)
  note t = candidate_selection [OF m h, of 1, unfolded seed net used hc]
  from t have "unat (generateCandidateIP scan_example 1 AND NOT (IpNegotiator.subnetMask scan_example)) = 9"
    by (rule conjunct1)
  moreover have "findNextAvailableIP_scan scan_example (generateCandidateIP scan_example 1) = (0x0A00000A, 1)"
    using t [THEN conjunct2, THEN conjunct1, rule_format, of 1] s0 s1 by simp
  ultimately show ?thesis using m by simp
qed

text \<open>
  C6 as stated fails: for a node ID ending in FF FF FF (\<open>lo24 = 16777215\<close>) and offset 1 in
  a /24 subnet (\<open>host_count = 254\<close>), the candidate's host part is 1, whereas
  \<open>((lo24 + offset) mod host_count) + 1\<close> is 9.
\<close>

theorem generateCandidateIP_counterexample:
  "unat (lo24 (IpNegotiator.localNodeId wrap_node)) = 16777215
   \<and> unat (NOT (IpNegotiator.subnetMask wrap_node)) - 1 = 254
   \<and> unat (generateCandidateIP wrap_node 1 AND NOT (IpNegotiator.subnetMask wrap_node)) = 1
   \<and> (unat (lo24 (IpNegotiator.localNodeId wrap_node)) + unat (1 :: uint32_t)) mod 254 + 1 = 9"
  by (simp add: wrap_node_def probing_node_def stable_owner_def lo24_def NODE_ID_SIZE_def generateCandidateIP_def
      maxHosts_def hostMask_def Let_def nth_append)

section \<open>Lease expiry: \<open>checkExpiredLeases\<close>\<close>

lemma checkExpiredLeases_loop_result:
  "\<exists>byIP'. checkExpiredLeases_loop clock i tbl byIP
     = (map snd (filter (\<lambda>(j, k, n). NodeInfo.isLocal n \<or> \<not> isLeaseExpired (clock j) n)
                   (enumerate i tbl)),
        byIP',
        map (\<lambda>(j, k, n). (k, NodeInfo.ipAddress n))
          (filter (\<lambda>(j, k, n). \<not> NodeInfo.isLocal n \<and> isLeaseExpired (clock j) n)
             (enumerate i tbl)))"
proof (induction tbl arbitrary: i byIP)
  case Nil
  show ?case by simp
next
  case (Cons a tbl)
  obtain k n where a: "a = (k, n)" by (cases a)
  show ?case
  proof (cases "\<not> NodeInfo.isLocal n \<and> isLeaseExpired (clock i) n")
    case True
    from Cons.IH [of "Suc i" "byIP(NodeInfo.ipAddress n := None)"] obtain byIP'
      where "checkExpiredLeases_loop clock (Suc i) tbl (byIP(NodeInfo.ipAddress n := None))
     = (map snd (filter (\<lambda>(j, k, n). NodeInfo.isLocal n \<or> \<not> isLeaseExpired (clock j) n)
                   (enumerate (Suc i) tbl)),
        byIP',
        map (\<lambda>(j, k, n). (k, NodeInfo.ipAddress n))
          (filter (\<lambda>(j, k, n). \<not> NodeInfo.isLocal n \<and> isLeaseExpired (clock j) n)
             (enumerate (Suc i) tbl)))"
      by blast
    with True a show ?thesis by simp
  next
    case False
    from Cons.IH [of "Suc i" byIP] obtain byIP'
      where "checkExpiredLeases_loop clock (Suc i) tbl byIP
     = (map snd (filter (\<lambda>(j, k, n). NodeInfo.isLocal n \<or> \<not> isLeaseExpired (clock j) n)
                   (enumerate (Suc i) tbl)),
        byIP',
        map (\<lambda>(j, k, n). (k, NodeInfo.ipAddress n))
          (filter (\<lambda>(j, k, n). \<not> NodeInfo.isLocal n \<and> isLeaseExpired (clock j) n)
             (enumerate (Suc i) tbl)))"
      by blast
    with False a show ?thesis by auto
  qed
qed

text \<open>
  C10. A lease is expired at a clock reading when its last heartbeat is at least
  \<open>LEASE_EXPIRY_MS\<close> old then. The scan of \<open>checkExpiredLeases\<close> reads the clock anew for
  every entry that is not local (\<open>clock i\<close> for the entry at position \<open>i\<close>). It keeps exactly
  the entries that are local or not expired at their reading, in their order, and (with the
  expiry callback installed) calls the callback once for each entry that is not local and
  expired at its reading, and for no other. So a local entry stays in the table whatever
  its age, and, the keys of the table being distinct as in a \<open>std::map\<close>, its node ID is
  never passed to the expiry callback.
\<close>

theorem checkExpiredLeases_keeps_local:
  "(\<forall>t n. isLeaseExpired t n = (LEASE_EXPIRY_MS \<le> duration_cast_ms (t - lastHeartbeat n)))
   \<and> nodeTable (fst (checkExpiredLeases clock h))
     = map snd (filter (\<lambda>(i, k, n). NodeInfo.isLocal n \<or> \<not> isLeaseExpired (clock i) n)
                  (enumerate 0 (nodeTable h)))
   \<and> snd (checkExpiredLeases clock h)
     = (if expiredCallback h
        then map (\<lambda>(i, k, n). NodeExpired k (NodeInfo.ipAddress n))
               (filter (\<lambda>(i, k, n). \<not> NodeInfo.isLocal n \<and> isLeaseExpired (clock i) n)
                  (enumerate 0 (nodeTable h)))
        else [])
   \<and> (\<forall>k n. (k, n) \<in> set (nodeTable h) \<and> NodeInfo.isLocal n
          \<longrightarrow> (k, n) \<in> set (nodeTable (fst (checkExpiredLeases clock h)))
              \<and> (distinct (map fst (nodeTable h))
                   \<longrightarrow> (\<forall>ip. NodeExpired k ip \<notin> set (snd (checkExpiredLeases clock h)))))"
proof -
  let ?keep = "\<lambda>(i, k, n). NodeInfo.isLocal n \<or> \<not> isLeaseExpired (clock i) n"
  let ?gone = "\<lambda>(i, k, n). \<not> NodeInfo.isLocal n \<and> isLeaseExpired (clock i) n"
  let ?tbl = "enumerate 0 (nodeTable h)"
  from checkExpiredLeases_loop_result [of clock 0 "nodeTable h" "ipToNodeId h"]
  obtain kept byIP expiredNodes
    where loop: "checkExpiredLeases_loop clock 0 (nodeTable h) (ipToNodeId h) = (kept, byIP, expiredNodes)"
      and kept: "kept = map snd (filter ?keep ?tbl)"
      and expired: "expiredNodes = map (\<lambda>(j, k, n). (k, NodeInfo.ipAddress n)) (filter ?gone ?tbl)"
    by blast
  have 0: "\<forall>t n. isLeaseExpired t n = (LEASE_EXPIRY_MS \<le> duration_cast_ms (t - lastHeartbeat n))"
    by (simp add: isLeaseExpired_def)
  have 1: "nodeTable (fst (checkExpiredLeases clock h)) = map snd (filter ?keep ?tbl)"
    using loop kept by (simp add: checkExpiredLeases_def)
  have 2: "snd (checkExpiredLeases clock h)
     = (if expiredCallback h
        then map (\<lambda>(i, k, n). NodeExpired k (NodeInfo.ipAddress n)) (filter ?gone ?tbl)
        else [])"
    using loop expired by (simp add: checkExpiredLeases_def case_prod_unfold comp_def)
  have pos: "\<exists>i. (i, k, n) \<in> set ?tbl" if "(k, n) \<in> set (nodeTable h)" for k n
  proof -
    from that have "(k, n) \<in> set (map snd ?tbl)" by simp
    then show ?thesis by (auto simp del: map_snd_enumerate)
  qed
  have entry: "(k, n) \<in> set (nodeTable h)" if "(i, k, n) \<in> set ?tbl" for i k n
    using that nth_mem [of "i" "nodeTable h"] by (auto simp add: in_set_enumerate_eq)
  have 3: "(k, n) \<in> set (nodeTable (fst (checkExpiredLeases clock h)))"
    if "(k, n) \<in> set (nodeTable h)" "NodeInfo.isLocal n" for k n
  proof -
    from pos [OF that(1)] obtain i where "(i, k, n) \<in> set ?tbl" ..
    with that(2) have "(i, k, n) \<in> set (filter ?keep ?tbl)" by simp
    then have "snd (i, k, n) \<in> snd ` set (filter ?keep ?tbl)" by (rule imageI)
    then show ?thesis unfolding 1 by (simp only: set_map snd_conv)
  qed
  have 4: "NodeExpired k ip \<notin> set (snd (checkExpiredLeases clock h))"
    if "(k, n) \<in> set (nodeTable h)" "NodeInfo.isLocal n" "distinct (map fst (nodeTable h))" for k n ip
  proof
    assume "NodeExpired k ip \<in> set (snd (checkExpiredLeases clock h))"
    then obtain i n' where "(i, k, n') \<in> set ?tbl" "\<not> NodeInfo.isLocal n'"
      unfolding 2 by (auto split: if_splits)
    then have "(k, n') \<in> set (nodeTable h)" using entry by blast
    with that(1,3) have "n' = n"
      by (meson eq_key_imp_eq_value)
    with that(2) \<open>\<not> NodeInfo.isLocal n'\<close> show False by simp
  qed
  have "\<forall>k n. (k, n) \<in> set (nodeTable h) \<and> NodeInfo.isLocal n
          \<longrightarrow> (k, n) \<in> set (nodeTable (fst (checkExpiredLeases clock h)))
              \<and> (distinct (map fst (nodeTable h))
                   \<longrightarrow> (\<forall>ip. NodeExpired k ip \<notin> set (snd (checkExpiredLeases clock h))))"
    using 3 4 by blast
  with 0 1 2 show ?thesis by (intro conjI)
qed

text \<open>
  C10 at \<open>lease_example\<close> with readings from 1000000 ms on: the local node (last heard at
  0 ms) and peer 3 stay, peer 2 (last heard at 0 ms) is removed and reported, the local node
  is not.
\<close>

theorem checkExpiredLeases_keeps_local_witness:
  "map fst (nodeTable (fst (checkExpiredLeases example_clock lease_example)))
     = [replicate 32 1, replicate 32 3]
   \<and> snd (checkExpiredLeases example_clock lease_example) = [NodeExpired (replicate 32 2) 0x0A000006]
   \<and> NodeExpired (replicate 32 1) 0x0A000005
       \<notin> set (snd (checkExpiredLeases example_clock lease_example))"
proof -
  let ?local = "\<lparr>NodeInfo.nodeId = replicate 32 1, steamId = 1, NodeInfo.ipAddress = 0x0A000005,
           lastHeartbeat = 0, NodeInfo.name = ''me'', NodeInfo.isLocal = True\<rparr>"
  note t = checkExpiredLeases_keeps_local [of example_clock lease_example, THEN conjunct2]
  have mem: "(replicate 32 1, ?local) \<in> set (nodeTable lease_example) \<and> NodeInfo.isLocal ?local"
    by (simp add: lease_example_def)
  have dist: "distinct (map fst (nodeTable lease_example))"
    by (simp add: lease_example_def)
  have kept: "map fst (map snd (filter (\<lambda>(i, k, n). NodeInfo.isLocal n \<or> \<not> isLeaseExpired (example_clock i) n)
                         (enumerate 0 (nodeTable lease_example))))
              = [replicate 32 1, replicate 32 3]"
    by code_simp
  have gone: "map (\<lambda>(i, k, n). NodeExpired k (NodeInfo.ipAddress n))
                (filter (\<lambda>(i, k, n). \<not> NodeInfo.isLocal n \<and> isLeaseExpired (example_clock i) n)
                   (enumerate 0 (nodeTable lease_example)))
              = [NodeExpired (replicate 32 2) 0x0A000006]"
    by code_simp
  have cb: "expiredCallback lease_example"
    by (simp add: lease_example_def)
  from t have 1: "nodeTable (fst (checkExpiredLeases example_clock lease_example))
     = map snd (filter (\<lambda>(i, k, n). NodeInfo.isLocal n \<or> \<not> isLeaseExpired (example_clock i) n)
                         (enumerate 0 (nodeTable lease_example)))"
    by (rule conjunct1)
  from t cb have 2: "snd (checkExpiredLeases example_clock lease_example)
     = map (\<lambda>(i, k, n). NodeExpired k (NodeInfo.ipAddress n))
                (filter (\<lambda>(i, k, n). \<not> NodeInfo.isLocal n \<and> isLeaseExpired (example_clock i) n)
                   (enumerate 0 (nodeTable lease_example)))"
    by simp
  from t [THEN conjunct2, THEN conjunct2, rule_format, OF mem] dist
  have 3: "NodeExpired (replicate 32 1) 0x0A000005
             \<notin> set (snd (checkExpiredLeases example_clock lease_example))"
    by blast
  from 1 2 3 kept gone show ?thesis by (simp only: simp_thms)
qed

text \<open>
  The readings of one scan differ. In \<open>twin_leases\<close> all three nodes were last heard at
  0 ms; with the readings of \<open>boundary_clock\<close> the scan looks at peer 2 one nanosecond before
  360000 ms and at peer 3 at 360000 ms, so it keeps peer 2 and removes peer 3.
\<close>

lemma checkExpiredLeases_boundary_example:
  "map (lastHeartbeat \<circ> snd) (nodeTable twin_leases) = [0, 0, 0]
   \<and> map fst (nodeTable (fst (checkExpiredLeases boundary_clock twin_leases)))
       = [replicate 32 1, replicate 32 2]
   \<and> snd (checkExpiredLeases boundary_clock twin_leases) = [NodeExpired (replicate 32 3) 0x0A000007]"
  by code_simp

section \<open>The routing table: \<open>updateRoute\<close>\<close>

lemma map_of_map_assign: "map_of (map_assign k v xs) = (map_of xs)(k \<mapsto> v)"
  by (induction xs) (auto simp add: fun_eq_iff)

lemma set_map_assign: "fst ` set (map_assign k v xs) = insert k (fst ` set xs)"
proof (induction xs)
  case Nil
  show ?case by simp
next
  case (Cons x xs)
  obtain a b where x: "x = (a, b)" by (cases x)
  show ?case
  proof (cases "k < a")
    case True
    with x show ?thesis by simp
  next
    case False
    show ?thesis
    proof (cases "k = a")
      case True
      with x show ?thesis by simp
    next
      case ne: False
      with False x have "fst ` set (map_assign k v (x # xs)) = insert a (fst ` set (map_assign k v xs))"
        by simp
      also have "\<dots> = insert a (insert k (fst ` set xs))"
        by (simp only: Cons.IH)
      also have "\<dots> = insert k (fst ` set (x # xs))"
        using x by auto
      finally show ?thesis .
    qed
  qed
qed

lemma std_map_Cons:
  "std_map ((a, b) # xs) \<longleftrightarrow> (\<forall>k \<in> fst ` set xs. a < k) \<and> std_map xs"
  by (auto simp add: std_map_def)

lemma std_map_map_assign: "std_map xs \<Longrightarrow> std_map (map_assign k v xs)"
proof (induction xs)
  case Nil
  show ?case by (simp add: std_map_def)
next
  case (Cons x xs)
  obtain a b where x: "x = (a, b)" by (cases x)
  from Cons.prems x have above: "\<forall>j \<in> fst ` set xs. a < j" and rest: "std_map xs"
    by (simp_all add: std_map_Cons)
  show ?case
  proof (cases "k < a")
    case True
    with above have "\<forall>j \<in> fst ` set ((a, b) # xs). k < j" by auto
    with True Cons.prems x show ?thesis by (simp add: std_map_Cons)
  next
    case False
    show ?thesis
    proof (cases "k = a")
      case True
      with above rest x show ?thesis by (simp add: std_map_Cons)
    next
      case ne: False
      with False have "a < k" by simp
      with above have "\<forall>j \<in> fst ` set (map_assign k v xs). a < j"
        by (simp add: set_map_assign)
      with Cons.IH [OF rest] False ne x show ?thesis by (simp add: std_map_Cons)
    qed
  qed
qed

lemma std_map_filter: "std_map xs \<Longrightarrow> std_map (filter P xs)"
  unfolding std_map_def by (induction xs) auto

lemma std_map_distinct: "std_map xs \<Longrightarrow> distinct (map fst xs)"
  unfolding std_map_def by (induction xs) auto

lemma map_of_filter_distinct:
  "distinct (map fst xs)
   \<Longrightarrow> map_of (filter P xs) k
       = (case map_of xs k of None \<Rightarrow> None | Some e \<Rightarrow> if P (k, e) then Some e else None)"
proof (induction xs)
  case Nil
  show ?case by simp
next
  case (Cons x xs)
  obtain a b where x: "x = (a, b)" by (cases x)
  from Cons.prems x have fresh: "a \<notin> fst ` set xs" and d: "distinct (map fst xs)"
    by simp_all
  from fresh have none: "map_of xs a = None"
    by (simp add: map_of_eq_None_iff)
  show ?case
    using Cons.IH [OF d] x none by (auto split: option.splits)
qed

lemma updateRoute_std_map:
  "std_map (routingTable rm) \<Longrightarrow> std_map (routingTable (fst (updateRoute api nid sid ip persona rm)))"
  by (simp add: updateRoute_def Let_def std_map_map_assign std_map_filter)

lemma updateRoute_table:
  assumes "std_map (routingTable rm)"
  shows "getRoute (fst (updateRoute api nid sid ip persona rm)) k =
     (if k = ip
      then Some \<lparr>steamID = sid, RouteEntry.ipAddress = ip, RouteEntry.name = persona,
                  RouteEntry.isLocal = (sid = GetSteamID api), RouteEntry.nodeId = nid\<rparr>
      else case getRoute rm k of
             None \<Rightarrow> None
           | Some e \<Rightarrow> if steamID e = sid then None else Some e)"
proof -
  let ?P = "\<lambda>(k, e). \<not> (steamID e = sid \<and> k \<noteq> ip)"
  let ?entry = "\<lparr>steamID = sid, RouteEntry.ipAddress = ip, RouteEntry.name = persona,
                  RouteEntry.isLocal = (sid = GetSteamID api), RouteEntry.nodeId = nid\<rparr>"
  from assms have "distinct (map fst (routingTable rm))" by (rule std_map_distinct)
  note f = map_of_filter_distinct [OF this, of ?P k]
  have "routingTable (fst (updateRoute api nid sid ip persona rm))
          = map_assign ip ?entry (filter ?P (routingTable rm))"
    by (simp add: updateRoute_def Let_def)
  then have g: "getRoute (fst (updateRoute api nid sid ip persona rm)) k
          = ((map_of (filter ?P (routingTable rm)))(ip \<mapsto> ?entry)) k"
    by (simp only: getRoute_def map_of_map_assign)
  show ?thesis
  proof (cases "k = ip")
    case True
    with g show ?thesis by simp
  next
    case False
    with g have "getRoute (fst (updateRoute api nid sid ip persona rm)) k
          = map_of (filter ?P (routingTable rm)) k"
      by simp
    also note f
    finally show ?thesis
      using False by (cases "map_of (routingTable rm) k") (simp_all add: getRoute_def)
  qed
qed

text \<open>
  C8, as the code has it. On a well-formed table, after \<open>updateRoute\<close> for peer \<open>sid\<close> at
  address \<open>ip\<close> the table is well-formed and holds an entry of that peer at \<open>ip\<close>; every
  entry of that peer is at \<open>ip\<close> (an earlier entry at another address is evicted); an entry
  of another peer at an address other than \<open>ip\<close> is unchanged, and no entry appears at such
  an address. So if no peer held two addresses before, none does afterwards. The entry that
  was at \<open>ip\<close> before, whoever held it, is overwritten.
\<close>

theorem updateRoute_one_entry_per_peer:
  assumes wf: "std_map (routingTable rm)"
  shows "std_map (routingTable (fst (updateRoute api nid sid ip persona rm)))
   \<and> (\<exists>e. getRoute (fst (updateRoute api nid sid ip persona rm)) ip = Some e \<and> steamID e = sid)
   \<and> (\<forall>k e. getRoute (fst (updateRoute api nid sid ip persona rm)) k = Some e \<and> steamID e = sid
          \<longrightarrow> k = ip)
   \<and> (\<forall>k e. k \<noteq> ip \<and> getRoute rm k = Some e \<and> steamID e \<noteq> sid
          \<longrightarrow> getRoute (fst (updateRoute api nid sid ip persona rm)) k = Some e)
   \<and> (\<forall>k e. k \<noteq> ip \<and> getRoute (fst (updateRoute api nid sid ip persona rm)) k = Some e
          \<longrightarrow> getRoute rm k = Some e \<and> steamID e \<noteq> sid)
   \<and> (one_ip_per_peer rm
        \<longrightarrow> one_ip_per_peer (fst (updateRoute api nid sid ip persona rm)))"
proof -
  let ?t = "getRoute (fst (updateRoute api nid sid ip persona rm))"
  note updateRoute_table = updateRoute_table [OF wf]
  have 1: "\<exists>e. ?t ip = Some e \<and> steamID e = sid"
    by (simp add: updateRoute_table)
  have 2: "k = ip" if "?t k = Some e" "steamID e = sid" for k e
    using that by (auto simp add: updateRoute_table split: if_splits option.splits)
  have 3: "?t k = Some e" if "k \<noteq> ip" "getRoute rm k = Some e" "steamID e \<noteq> sid" for k e
    using that by (simp add: updateRoute_table)
  have 4: "getRoute rm k = Some e \<and> steamID e \<noteq> sid" if "k \<noteq> ip" "?t k = Some e" for k e
    using that by (auto simp add: updateRoute_table split: if_splits option.splits)
  have 5: "one_ip_per_peer (fst (updateRoute api nid sid ip persona rm))" if inv: "one_ip_per_peer rm"
    unfolding one_ip_per_peer_def
  proof (intro allI impI)
    fix k1 k2 e1 e2
    assume a: "?t k1 = Some e1 \<and> ?t k2 = Some e2 \<and> steamID e1 = steamID e2"
    show "k1 = k2"
    proof (cases "steamID e1 = sid")
      case True
      from a have t1: "?t k1 = Some e1" and t2: "?t k2 = Some e2"
        and same: "steamID e1 = steamID e2"
        by blast+
      from t1 True have "k1 = ip" by (rule 2)
      moreover from same True have "steamID e2 = sid" by simp
      with t2 have "k2 = ip" by (rule 2)
      ultimately show ?thesis by simp
    next
      case False
      from a have t1: "?t k1 = Some e1" and t2: "?t k2 = Some e2"
        and same: "steamID e1 = steamID e2"
        by blast+
      from same False have other: "steamID e2 \<noteq> sid" by simp
      from 1 obtain e where e: "?t ip = Some e" "steamID e = sid" by blast
      from t1 e False have "k1 \<noteq> ip" by auto
      with t1 have r1: "getRoute rm k1 = Some e1" using 4 by blast
      from t2 e other have "k2 \<noteq> ip" by auto
      with t2 have r2: "getRoute rm k2 = Some e2" using 4 by blast
      from inv r1 r2 same show ?thesis unfolding one_ip_per_peer_def by blast
    qed
  qed
  have all2: "\<forall>k e. ?t k = Some e \<and> steamID e = sid \<longrightarrow> k = ip"
    using 2 by blast
  have all3: "\<forall>k e. k \<noteq> ip \<and> getRoute rm k = Some e \<and> steamID e \<noteq> sid \<longrightarrow> ?t k = Some e"
    using 3 by blast
  have all4: "\<forall>k e. k \<noteq> ip \<and> ?t k = Some e \<longrightarrow> getRoute rm k = Some e \<and> steamID e \<noteq> sid"
    using 4 by blast
  have all5: "one_ip_per_peer rm \<longrightarrow> one_ip_per_peer (fst (updateRoute api nid sid ip persona rm))"
    using 5 by blast
  from updateRoute_std_map [OF wf] 1 all2 all3 all4 all5 show ?thesis by (intro conjI)
qed

text \<open>
  C8 at \<open>routes_two\<close>: peer 2 moves from 10.0.0.9 to 10.0.0.6; the route of peer 3 at
  10.0.0.5 stays and 10.0.0.9 is free afterwards.
\<close>

theorem updateRoute_one_entry_per_peer_witness:
  "one_ip_per_peer (routes_two)
   \<and> one_ip_per_peer ((fst (updateRoute example_api (replicate 32 2) 2 0x0A000006
                                            ''peer'' routes_two)))
   \<and> getRoute (fst (updateRoute example_api (replicate 32 2) 2 0x0A000006 ''peer'' routes_two))
        0x0A000005 = Some (route_of 3 0x0A000005)
   \<and> getRoute (fst (updateRoute example_api (replicate 32 2) 2 0x0A000006 ''peer'' routes_two))
        0x0A000009 = None"
proof -
  let ?rm' = "fst (updateRoute example_api (replicate 32 2) 2 0x0A000006 ''peer'' routes_two)"
  have wf: "std_map (routingTable routes_two)"
    by code_simp
  note t = updateRoute_one_entry_per_peer [OF wf, of example_api "replicate 32 2" 2 "0x0A000006" "''peer''", THEN conjunct2]
  have inv: "one_ip_per_peer (routes_two)"
    by (auto simp add: one_ip_per_peer_def getRoute_def routes_two_def routes_stale_def route_of_def split: if_splits)
  from t inv have inv': "one_ip_per_peer (?rm')" by blast
  have other: "(0x0A000005 :: uint32_t) \<noteq> 0x0A000006
      \<and> getRoute routes_two 0x0A000005 = Some (route_of 3 0x0A000005)
      \<and> steamID (route_of 3 0x0A000005) \<noteq> 2"
    by code_simp
  from t [THEN conjunct2, THEN conjunct2, THEN conjunct1, rule_format, OF other]
  have kept: "getRoute ?rm' 0x0A000005 = Some (route_of 3 0x0A000005)" .
  have evicted: "getRoute ?rm' 0x0A000009 = None"
  proof (rule ccontr)
    assume "getRoute ?rm' 0x0A000009 \<noteq> None"
    then obtain e where e: "getRoute ?rm' 0x0A000009 = Some e" by blast
    have ne: "(0x0A000009 :: uint32_t) \<noteq> 0x0A000006" by simp
    from t [THEN conjunct2, THEN conjunct2, THEN conjunct2, THEN conjunct1, rule_format, of "0x0A000009" e]
      ne e
    have "getRoute routes_two 0x0A000009 = Some e \<and> steamID e \<noteq> 2" by blast
    then show False by (auto simp add: getRoute_def routes_two_def routes_stale_def route_of_def)
  qed
  from inv inv' kept evicted show ?thesis by (intro conjI)
qed

text \<open>
  C8 as stated fails: in \<open>routes_stale\<close> peer 3 holds 10.0.0.5; after \<open>updateRoute\<close> for
  peer 2 at 10.0.0.5 the entry at that address is the one of peer 2, so the entry of
  another peer has changed.
\<close>

theorem updateRoute_replaces_counterexample:
  "getRoute routes_stale 0x0A000005 = Some (route_of 3 0x0A000005)
   \<and> steamID (route_of 3 0x0A000005) \<noteq> 2
   \<and> getRoute (fst (updateRoute example_api (replicate 32 2) 2 0x0A000005 ''peer'' routes_stale))
        0x0A000005 = Some (route_of 2 0x0A000005)
   \<and> route_of 2 0x0A000005 \<noteq> route_of 3 0x0A000005"
  by code_simp

section \<open>Incoming ROUTE_UPDATE: \<open>handleRouteUpdate\<close>\<close>

lemma handleRouteUpdate_loop_foldl:
  "handleRouteUpdate_loop api payload len myBaseIP mySubnetMask mySteamID (12 * i) acc
     = foldl (\<lambda>acc r. handleRouteUpdate_body api myBaseIP mySubnetMask mySteamID r acc) acc
         (map (\<lambda>j. route_record payload (12 * j)) [i ..< len div 12])"
proof (induction "len div 12 - i" arbitrary: i acc)
  case 0
  then have "\<not> 12 * i + 12 \<le> len" by (simp add: less_eq_div_iff_mult_less_eq) 
  with 0 show ?case
    by (subst handleRouteUpdate_loop.simps) simp
next
  case (Suc n)
  then have lt: "i < len div 12" by simp
  then have c: "12 * i + 12 \<le> len" by (simp add: less_eq_div_iff_mult_less_eq) 
  have n: "n = len div 12 - Suc i" using Suc.hyps(2) by simp
  have "12 * i + 12 = 12 * Suc i" by simp
  with Suc.hyps(1) [OF n]
  have IH: "handleRouteUpdate_loop api payload len myBaseIP mySubnetMask mySteamID (12 * i + 12) acc'
     = foldl (\<lambda>acc r. handleRouteUpdate_body api myBaseIP mySubnetMask mySteamID r acc) acc'
         (map (\<lambda>j. route_record payload (12 * j)) [Suc i ..< len div 12])" for acc'
    by (simp only:)
  show ?case
    using c lt IH by (subst handleRouteUpdate_loop.simps) (simp add: upt_conv_Cons)
qed

lemma handleRouteUpdate_foldl:
  "handleRouteUpdate api payload len myBaseIP mySubnetMask mySteamID rm
     = foldl (\<lambda>acc r. handleRouteUpdate_body api myBaseIP mySubnetMask mySteamID r acc) (rm, [])
         (route_records payload len)"
  using handleRouteUpdate_loop_foldl [of api payload len myBaseIP mySubnetMask mySteamID 0 "(rm, [])"]
  by (simp add: handleRouteUpdate_def route_records_def)

lemma handleRouteUpdate_body_skip:
  "p = me \<or> getRoute rm ip \<noteq> None \<or> ip AND netmask \<noteq> base AND netmask
   \<Longrightarrow> handleRouteUpdate_body api base netmask me (p, ip) (rm, calls) = (rm, calls)"
  by (auto simp add: handleRouteUpdate_body_def getRoute_def)

lemma handleRouteUpdate_body_insert:
  "p \<noteq> me \<Longrightarrow> getRoute rm ip = None \<Longrightarrow> ip AND netmask = base AND netmask
   \<Longrightarrow> handleRouteUpdate_body api base netmask me (p, ip) (rm, calls)
       = (fst (updateRoute api (generate api p) p ip (GetFriendPersonaName api p) rm),
          calls @ snd (updateRoute api (generate api p) p ip (GetFriendPersonaName api p) rm))"
  by (simp add: handleRouteUpdate_body_def getRoute_def split: prod.splits)

lemma foldl_body_fixpoint:
  "\<forall>(p, ip) \<in> set rs. p = me \<or> getRoute rm ip \<noteq> None \<or> ip AND netmask \<noteq> base AND netmask
   \<Longrightarrow> foldl (\<lambda>acc r. handleRouteUpdate_body api base netmask me r acc) (rm, calls) rs = (rm, calls)"
proof (induction rs)
  case Nil
  show ?case by simp
next
  case (Cons r rs)
  obtain p ip where r: "r = (p, ip)" by (cases r)
  from Cons.prems r
  have "p = me \<or> getRoute rm ip \<noteq> None \<or> ip AND netmask \<noteq> base AND netmask"
    by simp
  then have "handleRouteUpdate_body api base netmask me (p, ip) (rm, calls) = (rm, calls)"
    by (rule handleRouteUpdate_body_skip)
  moreover from Cons.prems
  have "\<forall>(p, ip) \<in> set rs. p = me \<or> getRoute rm ip \<noteq> None \<or> ip AND netmask \<noteq> base AND netmask"
    by simp
  ultimately show ?case using Cons.IH r by simp
qed

lemma settled_tail: "settled t (r # rs) \<Longrightarrow> settled t rs"
  unfolding settled_def by auto

lemma updateRoute_settled:
  assumes wf: "std_map (routingTable rm)"
    and s: "settled (getRoute rm) ((p, ip) # rs)" and free: "getRoute rm ip = None"
  shows "getRoute rm \<subseteq>\<^sub>m getRoute (fst (updateRoute api nid p ip persona rm))"
    and "settled (getRoute (fst (updateRoute api nid p ip persona rm))) rs"
    and "getRoute (fst (updateRoute api nid p ip persona rm)) ip \<noteq> None"
proof -
  let ?t' = "getRoute (fst (updateRoute api nid p ip persona rm))"
  note updateRoute_table = updateRoute_table [OF wf]
  have own: "k = ip" if "getRoute rm k = Some e" "steamID e = p" for k e
    using s that unfolding settled_def by auto
  have keep: "?t' k = Some e" if "getRoute rm k = Some e" for k e
  proof -
    from that free have "k \<noteq> ip" by auto
    moreover from that own [of k e] \<open>k \<noteq> ip\<close> have "steamID e \<noteq> p" by auto
    ultimately show ?thesis using that by (simp add: updateRoute_table)
  qed
  then show "getRoute rm \<subseteq>\<^sub>m ?t'"
    unfolding map_le_def by (auto simp: dom_def)
  show "?t' ip \<noteq> None" by (simp add: updateRoute_table)
  show "settled ?t' rs"
    unfolding settled_def
  proof (intro ballI, clarify, intro conjI allI impI)
    fix q iq k e
    assume q: "(q, iq) \<in> set rs" and e: "?t' k = Some e \<and> steamID e = q"
    show "k = iq"
    proof (cases "k = ip")
      case True
      with e have "q = p" by (auto simp add: updateRoute_table)
      with q s have "iq = ip" unfolding settled_def by auto
      with True show ?thesis by simp
    next
      case False
      with e have "getRoute rm k = Some e"
        by (auto simp add: updateRoute_table split: option.splits if_splits)
      with q e s show ?thesis unfolding settled_def by auto
    qed
  next
    fix q iq
    assume q: "(q, iq) \<in> set rs"
    show "\<forall>(p', ip') \<in> set rs. p' = q \<longrightarrow> ip' = iq"
      using s q unfolding settled_def by auto
  qed
qed

lemma map_le_present: "t \<subseteq>\<^sub>m t' \<Longrightarrow> t k \<noteq> None \<Longrightarrow> t' k \<noteq> None"
  by (metis domIff map_le_def)

lemma foldl_body_first_pass:
  "std_map (routingTable rm) \<Longrightarrow> settled (getRoute rm) rs
   \<Longrightarrow> \<exists>rm' calls'.
         foldl (\<lambda>acc r. handleRouteUpdate_body api base netmask me r acc) (rm, calls) rs = (rm', calls')
         \<and> std_map (routingTable rm')
         \<and> getRoute rm \<subseteq>\<^sub>m getRoute rm'
         \<and> (\<forall>(p, ip) \<in> set rs. p = me \<or> getRoute rm' ip \<noteq> None \<or> ip AND netmask \<noteq> base AND netmask)"
proof (induction rs arbitrary: rm calls)
  case Nil
  then show ?case by simp
next
  case (Cons r rs)
  obtain p ip where r: "r = (p, ip)" by (cases r)
  show ?case
  proof (cases "p = me \<or> getRoute rm ip \<noteq> None \<or> ip AND netmask \<noteq> base AND netmask")
    case True
    then have step: "handleRouteUpdate_body api base netmask me (p, ip) (rm, calls) = (rm, calls)"
      by (rule handleRouteUpdate_body_skip)
    from Cons.prems(2) have "settled (getRoute rm) rs" by (rule settled_tail)
    from Cons.IH [OF Cons.prems(1) this, of calls] obtain rm' calls'
      where f: "foldl (\<lambda>acc r. handleRouteUpdate_body api base netmask me r acc) (rm, calls) rs = (rm', calls')"
        and wf': "std_map (routingTable rm')"
        and le: "getRoute rm \<subseteq>\<^sub>m getRoute rm'"
        and ok: "\<forall>(p, ip) \<in> set rs. p = me \<or> getRoute rm' ip \<noteq> None \<or> ip AND netmask \<noteq> base AND netmask"
      by blast
    have here: "p = me \<or> getRoute rm' ip \<noteq> None \<or> ip AND netmask \<noteq> base AND netmask"
      using True map_le_present [OF le, of ip] by blast
    have "foldl (\<lambda>acc r. handleRouteUpdate_body api base netmask me r acc) (rm, calls) (r # rs)
            = (rm', calls')"
      using f step r by simp
    moreover have "\<forall>(p, ip) \<in> set (r # rs).
            p = me \<or> getRoute rm' ip \<noteq> None \<or> ip AND netmask \<noteq> base AND netmask"
      using ok here r by simp
    ultimately show ?thesis using le wf' by (intro exI [of _ rm'] exI [of _ calls'] conjI)
  next
    case False
    then have a: "p \<noteq> me" "getRoute rm ip = None" "ip AND netmask = base AND netmask"
      by auto
    let ?u = "updateRoute api (generate api p) p ip (GetFriendPersonaName api p) rm"
    have step: "handleRouteUpdate_body api base netmask me (p, ip) (rm, calls)
                 = (fst ?u, calls @ snd ?u)"
      using a by (rule handleRouteUpdate_body_insert)
    from Cons.prems(2) r have s: "settled (getRoute rm) ((p, ip) # rs)" by simp
    note u = updateRoute_settled [OF Cons.prems(1) s a(2), of api "generate api p" "GetFriendPersonaName api p"]
    note w = updateRoute_std_map [OF Cons.prems(1), of api "generate api p" p ip "GetFriendPersonaName api p"]
    from Cons.IH [OF w u(2), of "calls @ snd ?u"] obtain rm' calls'
      where f: "foldl (\<lambda>acc r. handleRouteUpdate_body api base netmask me r acc) (fst ?u, calls @ snd ?u) rs = (rm', calls')"
        and wf': "std_map (routingTable rm')"
        and le: "getRoute (fst ?u) \<subseteq>\<^sub>m getRoute rm'"
        and ok: "\<forall>(p, ip) \<in> set rs. p = me \<or> getRoute rm' ip \<noteq> None \<or> ip AND netmask \<noteq> base AND netmask"
      by blast
    from u(1) le have le': "getRoute rm \<subseteq>\<^sub>m getRoute rm'"
      by (rule map_le_trans)
    have here: "getRoute rm' ip \<noteq> None"
      using le u(3) by (rule map_le_present)
    have "foldl (\<lambda>acc r. handleRouteUpdate_body api base netmask me r acc) (rm, calls) (r # rs)
            = (rm', calls')"
      using f step r by simp
    moreover have "\<forall>(p, ip) \<in> set (r # rs).
            p = me \<or> getRoute rm' ip \<noteq> None \<or> ip AND netmask \<noteq> base AND netmask"
      using ok here r by simp
    ultimately show ?thesis using le' wf' by (intro exI [of _ rm'] exI [of _ calls'] conjI)
  qed
qed

lemma handleRouteUpdate_body_calls:
  assumes "\<forall>c \<in> set calls. \<exists>ip. c = RouteAdded ip"
  shows "\<forall>c \<in> set (snd (handleRouteUpdate_body api base netmask me r (rm, calls))). \<exists>ip. c = RouteAdded ip"
proof -
  obtain p ip where r: "r = (p, ip)" by (cases r)
  show ?thesis
    using assms unfolding r
    by (auto simp add: handleRouteUpdate_body_def updateRoute_def Let_def split: prod.splits)
qed

lemma foldl_body_calls:
  "\<forall>c \<in> set calls. \<exists>ip. c = RouteAdded ip
   \<Longrightarrow> \<forall>c \<in> set (snd (foldl (\<lambda>acc r. handleRouteUpdate_body api base netmask me r acc) (rm, calls) rs)).
         \<exists>ip. c = RouteAdded ip"
proof (induction rs arbitrary: rm calls)
  case Nil
  then show ?case by simp
next
  case (Cons r rs)
  obtain rm1 calls1
    where step: "handleRouteUpdate_body api base netmask me r (rm, calls) = (rm1, calls1)"
    by (cases "handleRouteUpdate_body api base netmask me r (rm, calls)")
  from handleRouteUpdate_body_calls [OF Cons.prems, of api base netmask me r rm] step
  have "\<forall>c \<in> set calls1. \<exists>ip. c = RouteAdded ip" by simp
  from Cons.IH [OF this, of rm1] step show ?case by simp
qed

lemma handleRouteUpdate_body_std_map:
  assumes "std_map (routingTable rm)"
  shows "std_map (routingTable (fst (handleRouteUpdate_body api base netmask me r (rm, calls))))"
proof -
  obtain p ip where r: "r = (p, ip)" by (cases r)
  show ?thesis
  proof (cases "p = me \<or> getRoute rm ip \<noteq> None \<or> ip AND netmask \<noteq> base AND netmask")
    case True
    from handleRouteUpdate_body_skip [OF this, of api calls] assms r show ?thesis by simp
  next
    case False
    then have a: "p \<noteq> me" "getRoute rm ip = None" "ip AND netmask = base AND netmask"
      by auto
    from handleRouteUpdate_body_insert [OF a, of api calls] r
      updateRoute_std_map [OF assms, of api "generate api p" p ip "GetFriendPersonaName api p"]
    show ?thesis by simp
  qed
qed

lemma handleRouteUpdate_body_entries:
  assumes wf: "std_map (routingTable rm)"
    and "getRoute (fst (handleRouteUpdate_body api base netmask me r (rm, calls))) k = Some e"
  shows "getRoute rm k = Some e
         \<or> (k AND netmask = base AND netmask \<and> RouteEntry.ipAddress e = k \<and> steamID e \<noteq> me)"
proof -
  obtain p ip where r: "r = (p, ip)" by (cases r)
  show ?thesis
  proof (cases "p = me \<or> getRoute rm ip \<noteq> None \<or> ip AND netmask \<noteq> base AND netmask")
    case True
    from handleRouteUpdate_body_skip [OF this, of api calls] assms(2) r show ?thesis by simp
  next
    case False
    then have a: "p \<noteq> me" "getRoute rm ip = None" "ip AND netmask = base AND netmask"
      by auto
    note updateRoute_table = updateRoute_table [OF wf]
    from handleRouteUpdate_body_insert [OF a, of api calls] assms(2) r
    have t: "getRoute (fst (updateRoute api (generate api p) p ip (GetFriendPersonaName api p) rm)) k
             = Some e"
      by simp
    show ?thesis
    proof (cases "k = ip")
      case True
      with t a show ?thesis by (auto simp add: updateRoute_table)
    next
      case False
      with t show ?thesis
        by (auto simp add: updateRoute_table split: option.splits if_splits)
    qed
  qed
qed

lemma foldl_body_entries:
  "std_map (routingTable rm)
   \<Longrightarrow> getRoute (fst (foldl (\<lambda>acc r. handleRouteUpdate_body api base netmask me r acc) (rm, calls) rs)) k
     = Some e
   \<Longrightarrow> getRoute rm k = Some e
       \<or> (k AND netmask = base AND netmask \<and> RouteEntry.ipAddress e = k \<and> steamID e \<noteq> me)"
proof (induction rs arbitrary: rm calls)
  case Nil
  then show ?case by simp
next
  case (Cons r rs)
  obtain rm1 calls1
    where step: "handleRouteUpdate_body api base netmask me r (rm, calls) = (rm1, calls1)"
    by (cases "handleRouteUpdate_body api base netmask me r (rm, calls)")
  from handleRouteUpdate_body_std_map [OF Cons.prems(1), of api base netmask me r calls] step
  have wf1: "std_map (routingTable rm1)" by simp
  from Cons.prems(2) step
  have "getRoute (fst (foldl (\<lambda>acc r. handleRouteUpdate_body api base netmask me r acc)
                                (rm1, calls1) rs)) k = Some e"
    by simp
  from Cons.IH [OF wf1 this]
  have "getRoute rm1 k = Some e
        \<or> (k AND netmask = base AND netmask \<and> RouteEntry.ipAddress e = k \<and> steamID e \<noteq> me)" .
  moreover have "getRoute rm k = Some e
        \<or> (k AND netmask = base AND netmask \<and> RouteEntry.ipAddress e = k \<and> steamID e \<noteq> me)"
    if "getRoute rm1 k = Some e"
    using handleRouteUpdate_body_entries [OF Cons.prems(1), of api base netmask me r calls k e] step that
    by simp
  ultimately show ?case by blast
qed

lemma foldl_body_std_map:
  "std_map (routingTable rm)
   \<Longrightarrow> std_map (routingTable (fst (foldl (\<lambda>acc r. handleRouteUpdate_body api base netmask me r acc)
                                      (rm, calls) rs)))"
proof (induction rs arbitrary: rm calls)
  case Nil
  then show ?case by simp
next
  case (Cons r rs)
  obtain rm1 calls1
    where step: "handleRouteUpdate_body api base netmask me r (rm, calls) = (rm1, calls1)"
    by (cases "handleRouteUpdate_body api base netmask me r (rm, calls)")
  from handleRouteUpdate_body_std_map [OF Cons.prems, of api base netmask me r calls] step
  have "std_map (routingTable rm1)" by simp
  from Cons.IH [OF this, of calls1] step show ?case by simp
qed

lemma handleRouteUpdate_std_map:
  "std_map (routingTable rm)
   \<Longrightarrow> std_map (routingTable (fst (handleRouteUpdate api payload len base netmask me rm)))"
  unfolding handleRouteUpdate_foldl by (rule foldl_body_std_map)

lemma handleRouteUpdate_entries:
  "std_map (routingTable rm)
   \<Longrightarrow> getRoute (fst (handleRouteUpdate api payload len base netmask me rm)) k = Some e
   \<Longrightarrow> getRoute rm k = Some e
       \<or> (k AND netmask = base AND netmask \<and> RouteEntry.ipAddress e = k \<and> steamID e \<noteq> me)"
  unfolding handleRouteUpdate_foldl by (rule foldl_body_entries)

lemma deliver_route_added:
  "\<forall>c \<in> set cs. \<exists>ip. c = RouteAdded ip \<Longrightarrow> snd (deliver_all deliver_route cs b) = []"
proof (induction cs arbitrary: b)
  case Nil
  show ?case by simp
next
  case (Cons c cs)
  then obtain ip where c: "c = RouteAdded ip" by auto
  from Cons.prems have "\<forall>c \<in> set cs. \<exists>ip. c = RouteAdded ip" by simp
  from Cons.IH [OF this] c show ?case by (simp split: prod.splits)
qed

lemma handleRouteUpdate_calls:
  "\<forall>c \<in> set (snd (handleRouteUpdate api payload len base netmask me rm)). \<exists>a. c = RouteAdded a"
  unfolding handleRouteUpdate_foldl by (rule foldl_body_calls) simp

lemma route_update_effects:
  "snd (case handleRouteUpdate api payload len base netmask me rm of
          (rm', added) \<Rightarrow> deliver_all deliver_route added (b\<lparr>routeManager := rm'\<rparr>)) = []"
proof -
  obtain rm' added where h: "handleRouteUpdate api payload len base netmask me rm = (rm', added)"
    by (cases "handleRouteUpdate api payload len base netmask me rm")
  from handleRouteUpdate_calls [of api payload len base netmask me rm] h
  have "\<forall>c \<in> set added. \<exists>a. c = RouteAdded a" by simp
  then have "snd (deliver_all deliver_route added (b\<lparr>routeManager := rm'\<rparr>)) = []"
    by (rule deliver_route_added)
  with h show ?thesis by simp
qed

text \<open>
  C9, as the code has it. A record for the local peer, for an address that already has an
  entry, or for an address outside the subnet changes neither the table nor the calls. The
  only callback \<open>handleRouteUpdate\<close> makes is the route-added callback, and a ROUTE_UPDATE
  frame makes the bridge send or broadcast nothing. When the table is settled for the
  records of the payload (each peer named holds no other address and is named with one
  address), the first application only adds entries, and applying the same payload again
  returns the same table and makes no call.
\<close>

theorem handleRouteUpdate_idempotent:
  assumes wf: "std_map (routingTable rm)"
  shows "(p = me \<or> getRoute rm ip \<noteq> None \<or> ip AND netmask \<noteq> base AND netmask
      \<longrightarrow> handleRouteUpdate_body api base netmask me (p, ip) (rm, calls) = (rm, calls))
   \<and> (\<forall>c \<in> set (snd (handleRouteUpdate api payload len base netmask me rm)). \<exists>a. c = RouteAdded a)
   \<and> (data ! 0 = VpnMessageType_code ROUTE_UPDATE
        \<longrightarrow> snd (handleVpnMessage api clock data sender b) = [])
   \<and> (settled (getRoute rm) (route_records payload len)
        \<longrightarrow> getRoute rm \<subseteq>\<^sub>m getRoute (fst (handleRouteUpdate api payload len base netmask me rm))
            \<and> handleRouteUpdate api payload len base netmask me
                 (fst (handleRouteUpdate api payload len base netmask me rm))
               = (fst (handleRouteUpdate api payload len base netmask me rm), []))"
proof -
  let ?F = "\<lambda>acc r. handleRouteUpdate_body api base netmask me r acc"
  have 1: "p = me \<or> getRoute rm ip \<noteq> None \<or> ip AND netmask \<noteq> base AND netmask
      \<longrightarrow> handleRouteUpdate_body api base netmask me (p, ip) (rm, calls) = (rm, calls)"
    using handleRouteUpdate_body_skip by blast
  have 2: "\<forall>c \<in> set (snd (handleRouteUpdate api payload len base netmask me rm)). \<exists>a. c = RouteAdded a"
    by (rule handleRouteUpdate_calls)
  have 3: "data ! 0 = VpnMessageType_code ROUTE_UPDATE
        \<longrightarrow> snd (handleVpnMessage api clock data sender b) = []"
    by (simp add: handleVpnMessage_def Let_def route_update_effects)
  have 4: "getRoute rm \<subseteq>\<^sub>m getRoute (fst (handleRouteUpdate api payload len base netmask me rm))
            \<and> handleRouteUpdate api payload len base netmask me
                 (fst (handleRouteUpdate api payload len base netmask me rm))
               = (fst (handleRouteUpdate api payload len base netmask me rm), [])"
    if s: "settled (getRoute rm) (route_records payload len)"
  proof -
    from foldl_body_first_pass [OF wf s, of api base netmask me "[]"] obtain rm' calls'
      where f: "foldl ?F (rm, []) (route_records payload len) = (rm', calls')"
        and le: "getRoute rm \<subseteq>\<^sub>m getRoute rm'"
        and ok: "\<forall>(p, ip) \<in> set (route_records payload len).
                   p = me \<or> getRoute rm' ip \<noteq> None \<or> ip AND netmask \<noteq> base AND netmask"
      by blast
    from ok have "foldl ?F (rm', []) (route_records payload len) = (rm', [])"
      by (rule foldl_body_fixpoint)
    with f le show ?thesis by (simp add: handleRouteUpdate_foldl)
  qed
  then have 4: "settled (getRoute rm) (route_records payload len)
        \<longrightarrow> getRoute rm \<subseteq>\<^sub>m getRoute (fst (handleRouteUpdate api payload len base netmask me rm))
            \<and> handleRouteUpdate api payload len base netmask me
                 (fst (handleRouteUpdate api payload len base netmask me rm))
               = (fst (handleRouteUpdate api payload len base netmask me rm), [])"
    by blast
  from 1 2 3 4 show ?thesis by (intro conjI)
qed

text \<open>
  C9 at \<open>routes_stale\<close> and \<open>settled_payload\<close>: the record of peer 3 for the occupied 10.0.0.5 is
  skipped, the first application adds 10.0.0.7 for peer 2 and keeps the route of peer 3, the
  second changes nothing, and the frame \<open>route_frame\<close> produces no message.
\<close>

theorem handleRouteUpdate_idempotent_witness:
  "handleRouteUpdate_body example_api 0x0A000000 0xFFFFFF00 1 (3, 0x0A000005) (routes_stale, [])
     = (routes_stale, [])
   \<and> snd (handleRouteUpdate example_api settled_payload 24 0x0A000000 0xFFFFFF00 1 routes_stale)
     = [RouteAdded 0x0A000007]
   \<and> snd (handleVpnMessage example_api example_clock route_frame 2 example_bridge) = []
   \<and> settled (getRoute routes_stale) (route_records settled_payload 24)
   \<and> getRoute (fst (handleRouteUpdate example_api settled_payload 24 0x0A000000 0xFFFFFF00 1
                       routes_stale)) 0x0A000005
     = Some (route_of 3 0x0A000005)
   \<and> handleRouteUpdate example_api settled_payload 24 0x0A000000 0xFFFFFF00 1
        (fst (handleRouteUpdate example_api settled_payload 24 0x0A000000 0xFFFFFF00 1 routes_stale))
     = (fst (handleRouteUpdate example_api settled_payload 24 0x0A000000 0xFFFFFF00 1 routes_stale), [])"
proof -
  have wf: "std_map (routingTable routes_stale)"
    by code_simp
  note t = handleRouteUpdate_idempotent [OF wf, where api = example_api and base = "0x0A000000"
      and netmask = "0xFFFFFF00" and me = 1 and p = 3 and ip = "0x0A000005" and calls = "[]"
      and payload = settled_payload and len = 24 and data = route_frame and clock = example_clock and sender = 2
      and b = example_bridge]
  have present: "3 = (1 :: CSteamID) \<or> getRoute routes_stale 0x0A000005 \<noteq> None
      \<or> (0x0A000005 :: uint32_t) AND 0xFFFFFF00 \<noteq> 0x0A000000 AND 0xFFFFFF00"
    by code_simp
  from t [THEN conjunct1, THEN mp, OF present]
  have 1: "handleRouteUpdate_body example_api 0x0A000000 0xFFFFFF00 1 (3, 0x0A000005) (routes_stale, [])
     = (routes_stale, [])" .
  have calls: "snd (handleRouteUpdate example_api settled_payload 24 0x0A000000 0xFFFFFF00 1 routes_stale)
     = [RouteAdded 0x0A000007]"
    by code_simp
  from t [THEN conjunct2, THEN conjunct1] calls
  have 2: "\<exists>a. RouteAdded 0x0A000007 = RouteAdded a" by simp
  have frame: "route_frame ! 0 = VpnMessageType_code ROUTE_UPDATE"
    by code_simp
  from t [THEN conjunct2, THEN conjunct2, THEN conjunct1, THEN mp, OF frame]
  have 3: "snd (handleVpnMessage example_api example_clock route_frame 2 example_bridge) = []" .
  have records: "route_records settled_payload 24 = [(2, 0x0A000007), (3, 0x0A000005)]"
    by code_simp
  have s: "settled (getRoute routes_stale) (route_records settled_payload 24)"
    unfolding records settled_def
    by (auto simp add: getRoute_def routes_stale_def route_of_def split: if_splits)
  from t [THEN conjunct2, THEN conjunct2, THEN conjunct2, THEN mp, OF s]
  have grow: "getRoute routes_stale
        \<subseteq>\<^sub>m getRoute (fst (handleRouteUpdate example_api settled_payload 24 0x0A000000 0xFFFFFF00 1
                              routes_stale))"
    and 5: "handleRouteUpdate example_api settled_payload 24 0x0A000000 0xFFFFFF00 1
        (fst (handleRouteUpdate example_api settled_payload 24 0x0A000000 0xFFFFFF00 1 routes_stale))
     = (fst (handleRouteUpdate example_api settled_payload 24 0x0A000000 0xFFFFFF00 1 routes_stale), [])"
    by blast+
  have old: "getRoute routes_stale 0x0A000005 = Some (route_of 3 0x0A000005)"
    by code_simp
  then have "0x0A000005 \<in> dom (getRoute routes_stale)" by blast
  with grow old
  have 4: "getRoute (fst (handleRouteUpdate example_api settled_payload 24 0x0A000000 0xFFFFFF00 1
                       routes_stale)) 0x0A000005 = Some (route_of 3 0x0A000005)"
    unfolding map_le_def by metis
  from 1 calls 3 s 4 5 show ?thesis by (intro conjI)
qed

text \<open>
  C9 as stated fails: in \<open>routes_stale\<close> peer 3 holds 10.0.0.5 and \<open>moved_payload\<close> names
  peer 2 at 10.0.0.5 and peer 3 at 10.0.0.6. The first application skips the first record
  and moves peer 3, which frees 10.0.0.5; the second application then inserts peer 2 at
  10.0.0.5. The two tables differ.
\<close>

theorem handleRouteUpdate_twice_counterexample:
  "route_records moved_payload 24 = [(2, 0x0A000005), (3, 0x0A000006)]
   \<and> getRoute routes_stale 0x0A000005 = Some (route_of 3 0x0A000005)
   \<and> getRoute (fst (handleRouteUpdate example_api moved_payload 24 0x0A000000 0xFFFFFF00 1
                           routes_stale)) 0x0A000005 = None
   \<and> getRoute (fst (handleRouteUpdate example_api moved_payload 24 0x0A000000 0xFFFFFF00 1
                           (fst (handleRouteUpdate example_api moved_payload 24 0x0A000000
                                   0xFFFFFF00 1 routes_stale)))) 0x0A000005
       = Some (route_of 2 0x0A000005)"
  by code_simp

text \<open>
  C4, as the code has it, for \<open>handleRouteUpdate\<close>. On a well-formed table, every entry of
  the table after the call was in the table before, or its address lies in the subnet
  (\<open>k AND netmask = base AND netmask\<close>) and is the address the entry records. So if every
  address of the table lay in the subnet before, it does so afterwards. The host portion is
  not examined.
\<close>

theorem handleRouteUpdate_subnet:
  assumes wf: "std_map (routingTable rm)"
  shows "(\<forall>k e. getRoute (fst (handleRouteUpdate api payload len base netmask me rm)) k = Some e
      \<longrightarrow> getRoute rm k = Some e
          \<or> (k AND netmask = base AND netmask \<and> RouteEntry.ipAddress e = k))
   \<and> ((\<forall>k e. getRoute rm k = Some e \<longrightarrow> k AND netmask = base AND netmask)
       \<longrightarrow> (\<forall>k e. getRoute (fst (handleRouteUpdate api payload len base netmask me rm)) k = Some e
              \<longrightarrow> k AND netmask = base AND netmask))"
proof -
  have new: "getRoute rm k = Some e
          \<or> (k AND netmask = base AND netmask \<and> RouteEntry.ipAddress e = k)"
    if "getRoute (fst (handleRouteUpdate api payload len base netmask me rm)) k = Some e" for k e
    using handleRouteUpdate_entries [OF wf that] by blast
  then have a: "\<forall>k e. getRoute (fst (handleRouteUpdate api payload len base netmask me rm)) k = Some e
      \<longrightarrow> getRoute rm k = Some e
          \<or> (k AND netmask = base AND netmask \<and> RouteEntry.ipAddress e = k)"
    by blast
  have b: "(\<forall>k e. getRoute rm k = Some e \<longrightarrow> k AND netmask = base AND netmask)
       \<longrightarrow> (\<forall>k e. getRoute (fst (handleRouteUpdate api payload len base netmask me rm)) k = Some e
              \<longrightarrow> k AND netmask = base AND netmask)"
    using new by blast
  from a b show ?thesis by (intro conjI)
qed

text \<open>
  C4 at \<open>routes_stale\<close> and \<open>moved_payload\<close>: the new entry of peer 3 at 10.0.0.6 lies in
  10.0.0.0/24.
\<close>

theorem handleRouteUpdate_subnet_witness:
  "getRoute (fst (handleRouteUpdate example_api moved_payload 24 0x0A000000 0xFFFFFF00 1
                        routes_stale)) 0x0A000006
     = Some (route_of 3 0x0A000006)
   \<and> (0x0A000006 :: uint32_t) AND 0xFFFFFF00 = 0x0A000000 AND 0xFFFFFF00
   \<and> RouteEntry.ipAddress (route_of 3 0x0A000006) = 0x0A000006"
proof -
  let ?rm' = "fst (handleRouteUpdate example_api moved_payload 24 0x0A000000 0xFFFFFF00 1 routes_stale)"
  have wf: "std_map (routingTable routes_stale)"
    by code_simp
  note t = handleRouteUpdate_subnet [OF wf, of example_api moved_payload 24 "0x0A000000" "0xFFFFFF00" 1]
  have new: "getRoute ?rm' 0x0A000006 = Some (route_of 3 0x0A000006)"
    by code_simp
  have old: "getRoute routes_stale 0x0A000006 \<noteq> Some (route_of 3 0x0A000006)"
    by code_simp
  from t [THEN conjunct1, rule_format, OF new] old
  have a: "(0x0A000006 :: uint32_t) AND 0xFFFFFF00 = 0x0A000000 AND 0xFFFFFF00
     \<and> RouteEntry.ipAddress (route_of 3 0x0A000006) = 0x0A000006"
    by blast
  have inv: "\<forall>k e. getRoute routes_stale k = Some e \<longrightarrow> k AND 0xFFFFFF00 = 0x0A000000 AND 0xFFFFFF00"
    by (auto simp add: getRoute_def routes_stale_def split: if_splits)
  from t [THEN conjunct2, THEN mp, OF inv, rule_format, OF new]
  have "(0x0A000006 :: uint32_t) AND 0xFFFFFF00 = 0x0A000000 AND 0xFFFFFF00" .
  with new a show ?thesis by (intro conjI) simp_all
qed

text \<open>
  C4 as stated fails: \<open>network_payload\<close> gives peer 2 the network address 10.0.0.0, whose
  host portion is 0, and \<open>handleRouteUpdate\<close> inserts it into the empty table.
\<close>

theorem handleRouteUpdate_network_address_counterexample:
  "route_records network_payload 12 = [(2, 0x0A000000)]
   \<and> getRoute (fst (handleRouteUpdate example_api network_payload 12 0x0A000000 0xFFFFFF00 1
                           routes_empty)) 0x0A000000
       = Some (route_of 2 0x0A000000)
   \<and> (0x0A000000 :: uint32_t) AND NOT 0xFFFFFF00 = 0"
  by code_simp

text \<open>
  The same holds of the other end of the subnet: \<open>broadcast_payload\<close> gives peer 2 the
  broadcast address 10.0.0.255, whose host portion is all ones, and \<open>handleRouteUpdate\<close>
  inserts it.
\<close>

lemma handleRouteUpdate_broadcast_address_example:
  "route_records broadcast_payload 12 = [(2, 0x0A0000FF)]
   \<and> getRoute (fst (handleRouteUpdate example_api broadcast_payload 12 0x0A000000 0xFFFFFF00 1
                         routes_empty)) 0x0A0000FF
       = Some (route_of 2 0x0A0000FF)
   \<and> (0x0A0000FF :: uint32_t) AND NOT 0xFFFFFF00 = NOT 0xFFFFFF00"
  by code_simp

section \<open>Incoming frames: \<open>handleVpnMessage\<close>\<close>

lemma deliver_all_Cons_fst:
  "fst (deliver_all f (c # cs) b) = fst (deliver_all f cs (fst (f c b)))"
  by (cases "f c b"; cases "deliver_all f cs (fst (f c b))") simp

lemma deliver_all_Cons_snd:
  "snd (deliver_all f (c # cs) b) = snd (f c b) @ snd (deliver_all f cs (fst (f c b)))"
  by (cases "f c b"; cases "deliver_all f cs (fst (f c b))") simp

lemma deliver_no_Success:
  "\<forall>c \<in> set calls. \<not> is_Success c \<Longrightarrow> fst (deliver_all (deliver api now now') calls b) = b"
proof (induction calls arbitrary: b)
  case Nil
  show ?case by simp
next
  case (Cons c calls)
  from Cons.prems have c: "\<not> is_Success c" and rest: "\<forall>c \<in> set calls. \<not> is_Success c"
    by simp_all
  from c have "fst (deliver api now now' c b) = b" by (cases c) simp_all
  with Cons.IH [OF rest, of b] show ?case by (simp only: deliver_all_Cons_fst)
qed

lemma startNegotiation_no_Success: "\<forall>c \<in> set (snd (startNegotiation now s)). \<not> is_Success c"
  by (simp add: startNegotiation_def Let_def sendProbeRequest_def)

lemma handleAddressAnnounce_no_Success:
  "\<forall>c \<in> set (snd (handleAddressAnnounce now announce peer s)). \<not> is_Success c"
  using startNegotiation_no_Success
  by (simp add: handleAddressAnnounce_def Let_def sendForcedRelease_def)

lemma deliver_route_usedIPs:
  "ip \<in> usedIPs (ipNegotiator b) \<Longrightarrow> ip \<in> usedIPs (ipNegotiator (fst (deliver_all deliver_route cs b)))"
proof (induction cs arbitrary: b)
  case Nil
  then show ?case by simp
next
  case (Cons c cs)
  from Cons.prems have "ip \<in> usedIPs (ipNegotiator (fst (deliver_route c b)))"
    by (cases c) (simp_all add: markIPUsed_def)
  from Cons.IH [OF this] show ?case by (simp only: deliver_all_Cons_fst)
qed

lemma deliver_route_routeManager:
  "routeManager (fst (deliver_all deliver_route cs b)) = routeManager b"
proof (induction cs arbitrary: b)
  case Nil
  show ?case by simp
next
  case (Cons c cs)
  have "routeManager (fst (deliver_route c b)) = routeManager b"
    by (cases c) simp_all
  with Cons.IH [of "fst (deliver_route c b)"] show ?case by (simp only: deliver_all_Cons_fst)
qed

lemma handle_ADDRESS_ANNOUNCE_marks:
  assumes "onRouteAddedCallback (routeManager b)"
  shows "ntohl (AddressAnnouncePayload.ipAddress (AddressAnnouncePayload_of_bytes payload))
           \<in> usedIPs (ipNegotiator (fst (handle_ADDRESS_ANNOUNCE api clock payload sender peerName b)))"
proof -
  let ?announce = "AddressAnnouncePayload_of_bytes payload"
  let ?ip = "ntohl (AddressAnnouncePayload.ipAddress ?announce)"
  obtain n calls where h: "handleAddressAnnounce (clock 0) ?announce sender (ipNegotiator b) = (n, calls)"
    by (cases "handleAddressAnnounce (clock 0) ?announce sender (ipNegotiator b)")
  let ?b1 = "b\<lparr>ipNegotiator := n\<rparr>"
  obtain b2 e1 where d1: "deliver_all (deliver api (clock 1) (clock 2)) calls ?b1 = (b2, e1)"
    by (cases "deliver_all (deliver api (clock 1) (clock 2)) calls ?b1")
  have "\<forall>c \<in> set calls. \<not> is_Success c"
    using handleAddressAnnounce_no_Success [of "clock 0" ?announce sender "ipNegotiator b"] h by simp
  from deliver_no_Success [OF this, of api "clock 1" "clock 2" ?b1] d1 have b2: "b2 = ?b1" by simp
  let ?u = "updateRoute api (AddressAnnouncePayload.nodeId ?announce) sender ?ip peerName (routeManager b2)"
  obtain rm added where u: "?u = (rm, added)" by (cases ?u)
  have added: "added = [RouteAdded ?ip]"
    using u assms b2 by (simp add: updateRoute_def Let_def)
  let ?b3 = "b2\<lparr>routeManager := rm\<rparr>"
  obtain b4 e2 where d2: "deliver_all deliver_route added ?b3 = (b4, e2)"
    by (cases "deliver_all deliver_route added ?b3")
  have in4: "?ip \<in> usedIPs (ipNegotiator b4)"
    using d2 added by (auto simp add: markIPUsed_def)
  obtain b5 e3 where d3: "deliver_all deliver_route (broadcastRouteUpdate (routeManager b4)) b4 = (b5, e3)"
    by (cases "deliver_all deliver_route (broadcastRouteUpdate (routeManager b4)) b4")
  have in5: "?ip \<in> usedIPs (ipNegotiator b5)"
    using deliver_route_usedIPs [OF in4, of "broadcastRouteUpdate (routeManager b4)"] d3 by simp
  have "fst (handle_ADDRESS_ANNOUNCE api clock payload sender peerName b)
        = (if getRoute (routeManager b) ?ip = None then b5 else b4)"
    using h d1 u d2 d3 by (simp add: handle_ADDRESS_ANNOUNCE_def Let_def)
  with in4 in5 show ?thesis by simp
qed

text \<open>
  C3, as the code has it. After an ADDRESS_ANNOUNCE frame with a complete payload (the
  route-added callback being installed, as the bridge installs it) the announced address is
  in the negotiator's set of used addresses. A HEARTBEAT frame leaves the negotiator as it
  was, and a PROBE_RESPONSE frame leaves the set of used addresses as it was:
  \<open>handleProbeResponse\<close> never changes that set.
\<close>

theorem used_ip_marks:
  "(data ! 0 = VpnMessageType_code ADDRESS_ANNOUNCE
      \<and> sizeof_VpnMessageHeader + unat (ntohs (uint16_of_bytes (take 2 (drop 1 data)))) \<le> length data
      \<and> sizeof_AddressAnnouncePayload \<le> unat (ntohs (uint16_of_bytes (take 2 (drop 1 data))))
      \<and> onRouteAddedCallback (routeManager b)
    \<longrightarrow> ntohl (AddressAnnouncePayload.ipAddress
                 (AddressAnnouncePayload_of_bytes (drop sizeof_VpnMessageHeader data)))
          \<in> usedIPs (ipNegotiator (fst (handleVpnMessage api clock data sender b))))
   \<and> (data ! 0 = VpnMessageType_code HEARTBEAT
        \<longrightarrow> ipNegotiator (fst (handleVpnMessage api clock data sender b)) = ipNegotiator b)
   \<and> (data ! 0 = VpnMessageType_code PROBE_RESPONSE
        \<longrightarrow> usedIPs (ipNegotiator (fst (handleVpnMessage api clock data sender b)))
            = usedIPs (ipNegotiator b))
   \<and> usedIPs (handleProbeResponse response sender n) = usedIPs n"
proof -
  have 1: "data ! 0 = VpnMessageType_code ADDRESS_ANNOUNCE
      \<and> sizeof_VpnMessageHeader + unat (ntohs (uint16_of_bytes (take 2 (drop 1 data)))) \<le> length data
      \<and> sizeof_AddressAnnouncePayload \<le> unat (ntohs (uint16_of_bytes (take 2 (drop 1 data))))
      \<and> onRouteAddedCallback (routeManager b)
    \<longrightarrow> ntohl (AddressAnnouncePayload.ipAddress
                 (AddressAnnouncePayload_of_bytes (drop sizeof_VpnMessageHeader data)))
          \<in> usedIPs (ipNegotiator (fst (handleVpnMessage api clock data sender b)))"
  proof
    assume a: "data ! 0 = VpnMessageType_code ADDRESS_ANNOUNCE
      \<and> sizeof_VpnMessageHeader + unat (ntohs (uint16_of_bytes (take 2 (drop 1 data)))) \<le> length data
      \<and> sizeof_AddressAnnouncePayload \<le> unat (ntohs (uint16_of_bytes (take 2 (drop 1 data))))
      \<and> onRouteAddedCallback (routeManager b)"
    then have "handleVpnMessage api clock data sender b
          = handle_ADDRESS_ANNOUNCE api clock (drop sizeof_VpnMessageHeader data) sender
              (GetFriendPersonaName api sender) b"
      by (simp add: handleVpnMessage_def Let_def sizeof_VpnMessageHeader_def)
    with a handle_ADDRESS_ANNOUNCE_marks [of b "drop sizeof_VpnMessageHeader data" api clock sender
        "GetFriendPersonaName api sender"]
    show "ntohl (AddressAnnouncePayload.ipAddress
                 (AddressAnnouncePayload_of_bytes (drop sizeof_VpnMessageHeader data)))
          \<in> usedIPs (ipNegotiator (fst (handleVpnMessage api clock data sender b)))"
      by simp
  qed
  have 4: "usedIPs (handleProbeResponse response sender n) = usedIPs n" for response n
    by (simp add: handleProbeResponse_def Let_def)
  have 2: "data ! 0 = VpnMessageType_code HEARTBEAT
        \<longrightarrow> ipNegotiator (fst (handleVpnMessage api clock data sender b)) = ipNegotiator b"
    by (simp add: handleVpnMessage_def Let_def)
  have 3: "data ! 0 = VpnMessageType_code PROBE_RESPONSE
        \<longrightarrow> usedIPs (ipNegotiator (fst (handleVpnMessage api clock data sender b)))
            = usedIPs (ipNegotiator b)"
    using 4 by (simp add: handleVpnMessage_def Let_def)
  from 1 2 3 4 [of response n] show ?thesis by (intro conjI)
qed

text \<open>
  C3 at \<open>example_bridge\<close>: \<open>announce_frame\<close> puts 10.0.0.8 into the set of used addresses;
  \<open>heartbeat_frame\<close> leaves the negotiator unchanged; after \<open>response_frame\<close> the set of
  \<open>probing_bridge\<close> is still empty.
\<close>

theorem used_ip_marks_witness:
  "0x0A000008 \<in> usedIPs (ipNegotiator (fst (handleVpnMessage example_api example_clock announce_frame 4 example_bridge)))
   \<and> ipNegotiator (fst (handleVpnMessage example_api example_clock heartbeat_frame 4 example_bridge))
       = ipNegotiator example_bridge
   \<and> usedIPs (ipNegotiator (fst (handleVpnMessage example_api example_clock response_frame 4 probing_bridge))) = {}"
proof -
  have a: "announce_frame ! 0 = VpnMessageType_code ADDRESS_ANNOUNCE
      \<and> sizeof_VpnMessageHeader + unat (ntohs (uint16_of_bytes (take 2 (drop 1 announce_frame))))
          \<le> length announce_frame
      \<and> sizeof_AddressAnnouncePayload \<le> unat (ntohs (uint16_of_bytes (take 2 (drop 1 announce_frame))))
      \<and> onRouteAddedCallback (routeManager example_bridge)"
    by code_simp
  have ip: "ntohl (AddressAnnouncePayload.ipAddress
                 (AddressAnnouncePayload_of_bytes (drop sizeof_VpnMessageHeader announce_frame)))
            = 0x0A000008"
    by code_simp
  from used_ip_marks [of announce_frame example_bridge example_api example_clock 4, THEN conjunct1, THEN mp, OF a]
  have 1: "0x0A000008 \<in> usedIPs (ipNegotiator (fst (handleVpnMessage example_api example_clock announce_frame 4
                                                         example_bridge)))"
    unfolding ip .
  have h: "heartbeat_frame ! 0 = VpnMessageType_code HEARTBEAT"
    by code_simp
  from used_ip_marks [of heartbeat_frame example_bridge example_api example_clock 4, THEN conjunct2, THEN conjunct1,
      THEN mp, OF h]
  have 2: "ipNegotiator (fst (handleVpnMessage example_api example_clock heartbeat_frame 4 example_bridge))
       = ipNegotiator example_bridge" .
  have r: "response_frame ! 0 = VpnMessageType_code PROBE_RESPONSE"
    by code_simp
  have empty: "usedIPs (ipNegotiator probing_bridge) = {}"
    by (simp add: probing_bridge_def probing_node_def stable_owner_def)
  from used_ip_marks [of response_frame probing_bridge example_api example_clock 4, THEN conjunct2, THEN conjunct2,
      THEN conjunct1, THEN mp, OF r] empty
  have 3: "usedIPs (ipNegotiator (fst (handleVpnMessage example_api example_clock response_frame 4 probing_bridge))) = {}"
    by simp
  from 1 2 3 show ?thesis by (intro conjI)
qed

text \<open>
  C3 as stated fails: \<open>heartbeat_frame\<close> makes the heartbeat manager of \<open>example_bridge\<close>
  create the entry of the unknown node 04 ... 04 at 10.0.0.8, and 10.0.0.8 is not in the set
  of used addresses afterwards; \<open>response_frame\<close> makes \<open>probing_bridge\<close> record the conflict
  of peer 4, and 10.0.0.5 is not in the set of used addresses afterwards.
\<close>

theorem heartbeat_not_marked_counterexample:
  "map fst (nodeTable (heartbeatManager example_bridge)) = []
   \<and> map fst (nodeTable (heartbeatManager (fst (handleVpnMessage example_api example_clock heartbeat_frame 4
                                                        example_bridge))))
       = [replicate 32 4]
   \<and> map (NodeInfo.ipAddress \<circ> snd)
        (nodeTable (heartbeatManager (fst (handleVpnMessage example_api example_clock heartbeat_frame 4
                                              example_bridge))))
       = [0x0A000008]
   \<and> 0x0A000008 \<notin> usedIPs (ipNegotiator (fst (handleVpnMessage example_api example_clock heartbeat_frame 4
                                                     example_bridge)))
   \<and> map ConflictInfo.senderSteamID
        (collectedConflicts (ipNegotiator (fst (handleVpnMessage example_api example_clock response_frame 4
                                                  probing_bridge))))
       = [4]
   \<and> 0x0A000005 \<notin> usedIPs (ipNegotiator (fst (handleVpnMessage example_api example_clock response_frame 4
                                                     probing_bridge)))"
  by code_simp

text \<open>
  C5, as the code has it. Let an IP_PACKET frame be complete. When the TUN device exists
  and the payload is longer than the packet wrapper: if the destination of the embedded
  IPv4 packet is the local address or a broadcast address, the packet is written to the TUN
  device, counted as received, and nothing is sent; otherwise, if the routing table has an
  entry for the destination that is not local and whose peer is not the sender, the bridge
  is unchanged and the one effect is an unreliable send, to that peer, of an IP_PACKET frame
  with the same payload; in every other case (no entry, a local entry, or the entry of the
  sender) the bridge is unchanged and there is no effect. When the TUN device does not
  exist or the payload is not longer than the wrapper, the bridge is unchanged and there is
  no effect.
\<close>

theorem handleVpnMessage_IP_PACKET:
  assumes "data ! 0 = VpnMessageType_code IP_PACKET"
    and "payloadLength = unat (ntohs (uint16_of_bytes (take 2 (drop 1 data))))"
    and "sizeof_VpnMessageHeader + payloadLength \<le> length data"
    and "payload = drop sizeof_VpnMessageHeader data"
    and "ipPacket = take (payloadLength - sizeof_VpnPacketWrapper) (drop sizeof_VpnPacketWrapper payload)"
    and "destIP = extractDestIP ipPacket (payloadLength - sizeof_VpnPacketWrapper)"
  shows "(tunDevice b \<and> sizeof_VpnPacketWrapper < payloadLength
          \<longrightarrow> (destIP = SteamVpnBridge.localIP b
                  \<or> isBroadcastAddress destIP (SteamVpnBridge.baseIP b) (SteamVpnBridge.subnetMask b)
                \<longrightarrow> handleVpnMessage api clock data sender b
                    = (b\<lparr>stats := (stats b)\<lparr>packetsReceived := packetsReceived (stats b) + 1,
                                             bytesReceived := bytesReceived (stats b)
                                               + word_of_nat (payloadLength - sizeof_VpnPacketWrapper)\<rparr>\<rparr>,
                       [TunWrite ipPacket]))
             \<and> (\<not> (destIP = SteamVpnBridge.localIP b
                     \<or> isBroadcastAddress destIP (SteamVpnBridge.baseIP b) (SteamVpnBridge.subnetMask b))
                \<longrightarrow> (\<forall>entry. getRoute (routeManager b) destIP = Some entry
                              \<and> \<not> RouteEntry.isLocal entry \<and> steamID entry \<noteq> sender
                        \<longrightarrow> handleVpnMessage api clock data sender b
                            = (b, [SendMessageToUser (steamID entry)
                                     (VpnMessageHeader_bytes IP_PACKET (htons (word_of_nat payloadLength))
                                        @ take payloadLength payload)
                                     UnreliableNoNagle_NoDelay]))
                    \<and> (getRoute (routeManager b) destIP = None
                         \<or> (\<exists>entry. getRoute (routeManager b) destIP = Some entry
                                    \<and> (RouteEntry.isLocal entry \<or> steamID entry = sender))
                        \<longrightarrow> handleVpnMessage api clock data sender b = (b, []))))
       \<and> (\<not> (tunDevice b \<and> sizeof_VpnPacketWrapper < payloadLength)
          \<longrightarrow> handleVpnMessage api clock data sender b = (b, []))"
proof -
  from assms(1,2,3)
  have frame: "handleVpnMessage api clock data sender b = handle_IP_PACKET payload payloadLength sender b"
    by (simp add: handleVpnMessage_def Let_def sizeof_VpnMessageHeader_def assms(4))
  show ?thesis
    unfolding frame using assms(5,6)
    by (auto simp add: handle_IP_PACKET_def Let_def getRoute_def sendVpnMessage_def)
qed

text \<open>
  C5 for frames from peer 2. At \<open>example_bridge\<close>: the packets for 10.0.0.5 and for the
  subnet broadcast address 10.0.0.255 are written to the TUN device; the frame for 10.0.0.7
  is forwarded to peer 3 as it came; the frames for 10.0.0.6 (the sender's own address) and
  for 10.0.0.99 (no route) are dropped. At \<open>unstarted_bridge\<close>, which has no TUN device, the
  frame for 10.0.0.7 is dropped.
\<close>

theorem handleVpnMessage_IP_PACKET_witness:
  "handleVpnMessage example_api example_clock (ip_frame_to [10, 0, 0, 5]) 2 example_bridge
     = (example_bridge\<lparr>stats := (stats example_bridge)\<lparr>packetsReceived := 1, bytesReceived := 20\<rparr>\<rparr>,
        [TunWrite (ip_packet_to [10, 0, 0, 5])])
   \<and> handleVpnMessage example_api example_clock (ip_frame_to [10, 0, 0, 255]) 2 example_bridge
     = (example_bridge\<lparr>stats := (stats example_bridge)\<lparr>packetsReceived := 1, bytesReceived := 20\<rparr>\<rparr>,
        [TunWrite (ip_packet_to [10, 0, 0, 255])])
   \<and> handleVpnMessage example_api example_clock (ip_frame_to [10, 0, 0, 7]) 2 example_bridge
     = (example_bridge, [SendMessageToUser 3 (ip_frame_to [10, 0, 0, 7]) UnreliableNoNagle_NoDelay])
   \<and> handleVpnMessage example_api example_clock (ip_frame_to [10, 0, 0, 6]) 2 example_bridge
     = (example_bridge, [])
   \<and> handleVpnMessage example_api example_clock (ip_frame_to [10, 0, 0, 99]) 2 example_bridge
     = (example_bridge, [])
   \<and> handleVpnMessage example_api example_clock (ip_frame_to [10, 0, 0, 7]) 2 unstarted_bridge
     = (unstarted_bridge, [])"
proof -
  have a1: "ip_frame_to dst ! 0 = VpnMessageType_code IP_PACKET" for dst
    by (simp add: ip_frame_to_def)
  have a2: "(52 :: nat) = unat (ntohs (uint16_of_bytes (take 2 (drop 1 (ip_frame_to dst)))))" for dst
    by (simp add: ip_frame_to_def uint16_of_bytes_def ntohs_def) code_simp
  have a3: "length dst = 4 \<Longrightarrow> sizeof_VpnMessageHeader + 52 \<le> length (ip_frame_to dst)" for dst
    by (simp add: ip_frame_to_def ip_packet_to_def sizeof_VpnMessageHeader_def)
  have a4: "sizeof_VpnPacketWrapper < 52"
    by (simp add: sizeof_VpnPacketWrapper_def NODE_ID_SIZE_def)
  have a5: "tunDevice example_bridge"
    by (simp add: example_bridge_def)
  have a6: "replicate 32 2 @ ip_packet_to dst = drop sizeof_VpnMessageHeader (ip_frame_to dst)" for dst
    by (simp add: ip_frame_to_def sizeof_VpnMessageHeader_def)
  have a7: "length dst = 4 \<Longrightarrow> ip_packet_to dst
        = take (52 - sizeof_VpnPacketWrapper)
            (drop sizeof_VpnPacketWrapper (replicate 32 2 @ ip_packet_to dst))" for dst
    by (simp add: ip_packet_to_def sizeof_VpnPacketWrapper_def NODE_ID_SIZE_def)
  have len: "length [a, b, c, d] = 4" for a b c d :: uint8_t
    by simp
  note t = handleVpnMessage_IP_PACKET [where payloadLength = 52
      and api = example_api and clock = example_clock and sender = 2, OF a1 a2 a3 a6 a7 refl,
      OF len len]
  have up: "tunDevice example_bridge \<and> sizeof_VpnPacketWrapper < 52"
    using a4 a5 by (rule conjI [rotated])
  note u = t [where b = example_bridge, THEN conjunct1, THEN mp, OF up]
  let ?d = "\<lambda>dst. extractDestIP (ip_packet_to dst) (52 - sizeof_VpnPacketWrapper)"
  have mine: "?d [10, 0, 0, 5] = SteamVpnBridge.localIP example_bridge
      \<or> isBroadcastAddress (?d [10, 0, 0, 5]) (SteamVpnBridge.baseIP example_bridge)
            (SteamVpnBridge.subnetMask example_bridge)"
    by code_simp
  have everyone: "?d [10, 0, 0, 255] = SteamVpnBridge.localIP example_bridge
      \<or> isBroadcastAddress (?d [10, 0, 0, 255]) (SteamVpnBridge.baseIP example_bridge)
            (SteamVpnBridge.subnetMask example_bridge)"
    by code_simp
  have other: "\<not> (?d dst = SteamVpnBridge.localIP example_bridge
      \<or> isBroadcastAddress (?d dst) (SteamVpnBridge.baseIP example_bridge)
            (SteamVpnBridge.subnetMask example_bridge))"
    if "dst = [10, 0, 0, 7] \<or> dst = [10, 0, 0, 6] \<or> dst = [10, 0, 0, 99]" for dst
    using that by (elim disjE; hypsubst; code_simp)
  have third: "getRoute (routeManager example_bridge) (?d [10, 0, 0, 7]) = Some (route_of 3 0x0A000007)
      \<and> \<not> RouteEntry.isLocal (route_of 3 0x0A000007) \<and> steamID (route_of 3 0x0A000007) \<noteq> 2"
    by code_simp
  have loop: "\<exists>entry. getRoute (routeManager example_bridge) (?d [10, 0, 0, 6]) = Some entry
      \<and> (RouteEntry.isLocal entry \<or> steamID entry = 2)"
    by (rule exI [of _ "route_of 2 0x0A000006"]) code_simp
  have none: "getRoute (routeManager example_bridge) (?d [10, 0, 0, 99]) = None"
    by code_simp
  have down: "\<not> (tunDevice unstarted_bridge \<and> sizeof_VpnPacketWrapper < 52)"
    by (simp add: unstarted_bridge_def)
  have 1: "handleVpnMessage example_api example_clock (ip_frame_to [10, 0, 0, 5]) 2 example_bridge
     = (example_bridge\<lparr>stats := (stats example_bridge)\<lparr>packetsReceived := packetsReceived (stats example_bridge) + 1,
                                       bytesReceived := bytesReceived (stats example_bridge)
                                         + word_of_nat (52 - sizeof_VpnPacketWrapper)\<rparr>\<rparr>,
        [TunWrite (ip_packet_to [10, 0, 0, 5])])"
    using u [THEN conjunct1, THEN mp, OF mine] .
  have 2: "handleVpnMessage example_api example_clock (ip_frame_to [10, 0, 0, 255]) 2 example_bridge
     = (example_bridge\<lparr>stats := (stats example_bridge)\<lparr>packetsReceived := packetsReceived (stats example_bridge) + 1,
                                       bytesReceived := bytesReceived (stats example_bridge)
                                         + word_of_nat (52 - sizeof_VpnPacketWrapper)\<rparr>\<rparr>,
        [TunWrite (ip_packet_to [10, 0, 0, 255])])"
    using u [THEN conjunct1, THEN mp, OF everyone] .
  have 3: "handleVpnMessage example_api example_clock (ip_frame_to [10, 0, 0, 7]) 2 example_bridge
     = (example_bridge, [SendMessageToUser (steamID (route_of 3 0x0A000007))
           (VpnMessageHeader_bytes IP_PACKET (htons (word_of_nat 52))
              @ take 52 (replicate 32 2 @ ip_packet_to [10, 0, 0, 7]))
           UnreliableNoNagle_NoDelay])"
    using u [THEN conjunct2, THEN mp, OF other, THEN conjunct1, rule_format, OF _ third]
    by simp
  have 4: "handleVpnMessage example_api example_clock (ip_frame_to [10, 0, 0, 6]) 2 example_bridge
             = (example_bridge, [])"
    using u [THEN conjunct2, THEN mp, OF other, THEN conjunct2, THEN mp, OF _ disjI2, OF _ loop]
    by simp
  have 5: "handleVpnMessage example_api example_clock (ip_frame_to [10, 0, 0, 99]) 2 example_bridge
             = (example_bridge, [])"
    using u [THEN conjunct2, THEN mp, OF other, THEN conjunct2, THEN mp, OF _ disjI1, OF _ none]
    by simp
  have 6: "handleVpnMessage example_api example_clock (ip_frame_to [10, 0, 0, 7]) 2 unstarted_bridge
             = (unstarted_bridge, [])"
    using t [where b = unstarted_bridge, THEN conjunct2, THEN mp, OF down] .
  have s1: "example_bridge\<lparr>stats := (stats example_bridge)\<lparr>packetsReceived := packetsReceived (stats example_bridge) + 1,
                                       bytesReceived := bytesReceived (stats example_bridge)
                                         + word_of_nat (52 - sizeof_VpnPacketWrapper)\<rparr>\<rparr>
      = example_bridge\<lparr>stats := (stats example_bridge)\<lparr>packetsReceived := 1, bytesReceived := 20\<rparr>\<rparr>"
    by (simp add: example_bridge_def sizeof_VpnPacketWrapper_def NODE_ID_SIZE_def)
  have s2: "SendMessageToUser (steamID (route_of 3 0x0A000007))
           (VpnMessageHeader_bytes IP_PACKET (htons (word_of_nat 52))
              @ take 52 (replicate 32 2 @ ip_packet_to [10, 0, 0, 7]))
           UnreliableNoNagle_NoDelay
      = SendMessageToUser 3 (ip_frame_to [10, 0, 0, 7]) UnreliableNoNagle_NoDelay"
    by code_simp
  from 1 2 3 4 5 6 show ?thesis unfolding s1 s2 by (intro conjI)
qed

text \<open>
  C5 as stated fails: \<open>unstarted_bridge\<close> has no TUN device and knows the route of peer 3 at
  10.0.0.7, which is neither its local address nor a broadcast address; the frame of peer 2
  for 10.0.0.7 is not forwarded to peer 3.
\<close>

theorem handleVpnMessage_no_tun_counterexample:
  "ip_frame_to [10, 0, 0, 7] ! 0 = VpnMessageType_code IP_PACKET
   \<and> extractDestIP (ip_packet_to [10, 0, 0, 7]) 20 = 0x0A000007
   \<and> 0x0A000007 \<noteq> SteamVpnBridge.localIP unstarted_bridge
   \<and> \<not> isBroadcastAddress 0x0A000007 (SteamVpnBridge.baseIP unstarted_bridge)
         (SteamVpnBridge.subnetMask unstarted_bridge)
   \<and> getRoute (routeManager unstarted_bridge) 0x0A000007 = Some (route_of 3 0x0A000007)
   \<and> \<not> RouteEntry.isLocal (route_of 3 0x0A000007)
   \<and> steamID (route_of 3 0x0A000007) \<noteq> 2
   \<and> \<not> tunDevice unstarted_bridge
   \<and> snd (handleVpnMessage example_api example_clock (ip_frame_to [10, 0, 0, 7]) 2 unstarted_bridge)
       = []"
  by code_simp


end
